(* ===== verification/Prelude.thy ===== *)
theory Prelude
  imports Main "HOL-Library.Word"
begin

text \<open>
  Shared vocabulary of the development: the JSON values that the services exchange
  with the message store and with the providers (Python \<open>dict\<close>/\<open>list\<close>/\<open>str\<close>
  values as the source builds them), the Python exceptions that the handlers raise or
  catch, the Python built-ins the source applies to them (truthiness, \<open>in\<close>, \<open>d[k]\<close>,
  \<open>str()\<close>), and a world-passing exception monad (\<open>ebind\<close>, \<open>try_except\<close>) in which
  every handler of the services is written, so that every \<open>raise\<close> and every
  \<open>try/except\<close> of the source is a branch of the model.

  Python \<open>str\<close> values are modelled by their UTF-8 encoding as a HOL \<open>string\<close>
  (a list of byte-sized \<open>char\<close>s); concatenation of Python strings is then list
  append.
\<close>

named_theorems indep_rules "composition rules of eff_indep"

section \<open>JSON values and Python dictionaries\<close>

text \<open>
  A JSON value as \<open>json.loads\<close> returns it and as the Supabase client stores it.
  Objects keep their keys in insertion order (Python dictionaries do), so they are
  association lists. Floating-point numbers are not used by any code path modelled here.
\<close>

datatype json =
    JNull
  | JBool bool
  | JInt int
  | JStr string
  | JArr "json list"
  | JObj "(string \<times> json) list"

type_synonym dict = "(string \<times> json) list"

text \<open>Python's \<open>bool(v)\<close>: \<open>None\<close>, \<open>False\<close>, \<open>0\<close> and empty containers are falsy.\<close>

fun json_truthy :: "json \<Rightarrow> bool" where
  "json_truthy JNull = False"
| "json_truthy (JBool b) = b"
| "json_truthy (JInt i) = (i \<noteq> 0)"
| "json_truthy (JStr s) = (s \<noteq> [])"
| "json_truthy (JArr xs) = (xs \<noteq> [])"
| "json_truthy (JObj kvs) = (kvs \<noteq> [])"

text \<open>\<open>k in d\<close> for a dictionary \<open>d\<close>.\<close>

definition dict_has :: "dict \<Rightarrow> string \<Rightarrow> bool" where
  "dict_has d k = (k \<in> set (map fst d))"

section \<open>Python exceptions\<close>

text \<open>
  The exceptions raised on the paths of the services. \<open>HTTPException\<close> is FastAPI's
  (status code and detail); \<open>ProviderError\<close> stands for whatever an external client
  library (OpenAI, Voiceflow over \<open>requests\<close>, the LLM and embedding clients of the
  crawler) raises, with its message.
\<close>

datatype exc =
    HTTPException nat string
  | KeyError string
  | TypeError string
  | ValueError string
  | BinasciiError string
  | UnicodeDecodeError string
  | JSONDecodeError string
  | IndexError string
  | AttributeError string
  | HTTPError string
  | ProviderError string

text \<open>Decimal rendering of a natural number, as Python's \<open>str(n)\<close>.\<close>

fun nat_str :: "nat \<Rightarrow> string" where
  "nat_str n = (if n < 10 then [char_of (48 + n)]
                else nat_str (n div 10) @ [char_of (48 + n mod 10)])"

declare nat_str.simps [simp del]

definition int_str :: "int \<Rightarrow> string" where
  "int_str i = (if i < 0 then CHR ''-'' # nat_str (nat (- i)) else nat_str (nat i))"

text \<open>
  \<open>str(e)\<close> of an exception, as the handlers embed it in log lines and error payloads:
  Starlette renders an \<open>HTTPException\<close> as \<open>"<status>: <detail>"\<close>, and a
  \<open>KeyError\<close> shows the quoted key.
\<close>

fun str_exc :: "exc \<Rightarrow> string" where
  "str_exc (HTTPException code detail) = nat_str code @ '': '' @ detail"
| "str_exc (KeyError k) = CHR 0x27 # k @ [CHR 0x27]"
| "str_exc (TypeError m) = m"
| "str_exc (ValueError m) = m"
| "str_exc (BinasciiError m) = m"
| "str_exc (UnicodeDecodeError m) = m"
| "str_exc (JSONDecodeError m) = m"
| "str_exc (IndexError m) = m"
| "str_exc (AttributeError m) = m"
| "str_exc (HTTPError m) = m"
| "str_exc (ProviderError m) = m"

text \<open>\<open>d[k]\<close> on a dictionary: the value, or \<open>KeyError\<close>.\<close>

definition dict_get :: "dict \<Rightarrow> string \<Rightarrow> exc + json" where
  "dict_get d k = (case map_of d k of None \<Rightarrow> Inl (KeyError k) | Some v \<Rightarrow> Inr v)"

text \<open>
  \<open>v[k]\<close> with a \<open>str\<close> key on a JSON value: a dictionary lookup, and on any other
  value the \<open>TypeError\<close> CPython raises for that type.
\<close>

fun json_index :: "json \<Rightarrow> string \<Rightarrow> exc + json" where
  "json_index (JObj d) k = dict_get d k"
| "json_index (JStr s) k =
     Inl (TypeError (''string indices must be integers, not '' @ [CHR 0x27] @ ''str'' @ [CHR 0x27]))"
| "json_index (JArr xs) k = Inl (TypeError ''list indices must be integers or slices, not str'')"
| "json_index (JInt i) k =
     Inl (TypeError ([CHR 0x27] @ ''int'' @ [CHR 0x27] @ '' object is not subscriptable''))"
| "json_index (JBool b) k =
     Inl (TypeError ([CHR 0x27] @ ''bool'' @ [CHR 0x27] @ '' object is not subscriptable''))"
| "json_index JNull k =
     Inl (TypeError ([CHR 0x27] @ ''NoneType'' @ [CHR 0x27] @ '' object is not subscriptable''))"

text \<open>The name of a value's Python type, as exception messages print it.\<close>

fun py_type_name :: "json \<Rightarrow> string" where
  "py_type_name JNull = ''NoneType''"
| "py_type_name (JBool b) = ''bool''"
| "py_type_name (JInt i) = ''int''"
| "py_type_name (JStr s) = ''str''"
| "py_type_name (JArr xs) = ''list''"
| "py_type_name (JObj d) = ''dict''"

text \<open>
  \<open>v.get(k, default)\<close>: the value or the default on a dictionary, and
  \<open>AttributeError\<close> on any other value.
\<close>

fun py_get :: "json \<Rightarrow> string \<Rightarrow> json \<Rightarrow> exc + json" where
  "py_get (JObj d) k dflt = Inr (case map_of d k of Some v \<Rightarrow> v | None \<Rightarrow> dflt)"
| "py_get v k dflt =
     Inl (AttributeError ([CHR 0x27] @ py_type_name v @ [CHR 0x27] @ '' object has no attribute ''
                          @ [CHR 0x27] @ ''get'' @ [CHR 0x27]))"

text \<open>
  Python's \<open>repr\<close> of a \<open>str\<close>: single quotes unless the text contains a single
  quote and no double quote; backslash, the quote in use and control characters are
  escaped.
\<close>

definition hex_digit :: "nat \<Rightarrow> char" where
  "hex_digit n = ''0123456789abcdef'' ! n"

definition repr_char :: "char \<Rightarrow> char \<Rightarrow> string" where
  "repr_char q c =
     (if c = CHR 0x5C then [CHR 0x5C, CHR 0x5C]
      else if c = q then [CHR 0x5C, q]
      else if c = CHR 0x0A then [CHR 0x5C, CHR ''n'']
      else if c = CHR 0x0D then [CHR 0x5C, CHR ''r'']
      else if c = CHR 0x09 then [CHR 0x5C, CHR ''t'']
      else if of_char c < (32::nat) \<or> of_char c = (127::nat)
      then [CHR 0x5C, CHR ''x'', hex_digit (of_char c div 16), hex_digit (of_char c mod 16)]
      else [c])"

definition str_repr :: "string \<Rightarrow> string" where
  "str_repr s =
     (let q = (if CHR 0x27 \<in> set s \<and> CHR 0x22 \<notin> set s then CHR 0x22 else CHR 0x27)
      in q # concat (map (repr_char q) s) @ [q])"

text \<open>\<open>sep.join(xs)\<close>.\<close>

fun py_join :: "string \<Rightarrow> string list \<Rightarrow> string" where
  "py_join sep [] = []"
| "py_join sep [x] = x"
| "py_join sep (x # xs) = x @ sep @ py_join sep xs"

text \<open>\<open>str(v)\<close> and \<open>repr(v)\<close> of a value \<open>json.loads\<close> produced.\<close>

fun py_repr :: "json \<Rightarrow> string" where
  "py_repr JNull = ''None''"
| "py_repr (JBool b) = (if b then ''True'' else ''False'')"
| "py_repr (JInt i) = int_str i"
| "py_repr (JStr s) = str_repr s"
| "py_repr (JArr xs) = ''['' @ py_join '', '' (map py_repr xs) @ '']''"
| "py_repr (JObj kvs) =
     ''{'' @ py_join '', '' (map (\<lambda>(k, v). str_repr k @ '': '' @ py_repr v) kvs) @ ''}''"

fun py_str :: "json \<Rightarrow> string" where
  "py_str (JStr s) = s"
| "py_str v = py_repr v"

text \<open>
  Iterating over a value in a \<open>for\<close> loop: a list yields its elements, a
  dictionary its keys, a string its characters; anything else is not iterable.
\<close>

fun py_iter :: "json \<Rightarrow> exc + json list" where
  "py_iter (JArr xs) = Inr xs"
| "py_iter (JObj kvs) = Inr (map (\<lambda>kv. JStr (fst kv)) kvs)"
| "py_iter (JStr s) = Inr (map (\<lambda>c. JStr [c]) s)"
| "py_iter v = Inl (TypeError ([CHR 0x27] @ py_type_name v @ [CHR 0x27] @ '' object is not iterable''))"

text \<open>
  \<open>str.strip()\<close>: leading and trailing whitespace removed (the ASCII characters
  for which \<open>str.isspace\<close> holds; other Unicode spaces are not modelled).
\<close>

definition py_space :: "char \<Rightarrow> bool" where
  "py_space c \<longleftrightarrow> of_char c \<in> {9, 10, 11, 12, 13, 28, 29, 30, 31, 32 :: nat}"

definition py_strip :: "string \<Rightarrow> string" where
  "py_strip s = rev (dropWhile py_space (rev (dropWhile py_space s)))"

text \<open>\<open>s.replace(old, new)\<close>: non-overlapping occurrences, left to right.\<close>

function replace_nonempty :: "string \<Rightarrow> string \<Rightarrow> string \<Rightarrow> string" where
  "replace_nonempty old new [] = []"
| "replace_nonempty old new (c # cs) =
     (if old \<noteq> [] \<and> take (length old) (c # cs) = old
      then new @ replace_nonempty old new (drop (length old) (c # cs))
      else c # replace_nonempty old new cs)"
  by pat_completeness auto
termination
  by (relation "measure (\<lambda>(old, new, s). length s)") auto

definition py_replace :: "string \<Rightarrow> string \<Rightarrow> string \<Rightarrow> string" where
  "py_replace s old new =
     (if old = [] then new @ concat (map (\<lambda>c. c # new) s) else replace_nonempty old new s)"

text \<open>\<open>s.startswith(p)\<close> and \<open>p in s\<close> for strings.\<close>

definition py_startswith :: "string \<Rightarrow> string \<Rightarrow> bool" where
  "py_startswith s p \<longleftrightarrow> take (length p) s = p"

fun is_substring :: "string \<Rightarrow> string \<Rightarrow> bool" where
  "is_substring k [] = (k = [])"
| "is_substring k (c # cs) = (take (length k) (c # cs) = k \<or> is_substring k cs)"

text \<open>\<open>k in v\<close> for a string \<open>k\<close> and a value \<open>v\<close> \<open>json.loads\<close> produced.\<close>

fun py_contains :: "json \<Rightarrow> string \<Rightarrow> exc + bool" where
  "py_contains (JObj d) k = Inr (dict_has d k)"
| "py_contains (JStr s) k = Inr (is_substring k s)"
| "py_contains (JArr xs) k = Inr (JStr k \<in> set xs)"
| "py_contains _ k = Inl (TypeError ''argument of type is not iterable'')"

section \<open>World-passing exceptions\<close>

text \<open>
  A handler step reads and updates a world \<open>'w\<close> and either returns a value
  (\<open>Inr\<close>) or raises (\<open>Inl\<close>); the world reached before the exception is kept, as
  the effects of the calls before the \<open>raise\<close> have happened.
\<close>

type_synonym ('w, 'e, 'a) eff = "'w \<Rightarrow> ('e + 'a) \<times> 'w"

definition ereturn :: "'a \<Rightarrow> ('w, 'e, 'a) eff" where
  "ereturn a w = (Inr a, w)"

definition eraise :: "'e \<Rightarrow> ('w, 'e, 'a) eff" where
  "eraise e w = (Inl e, w)"

definition ebind :: "('w, 'e, 'a) eff \<Rightarrow> ('a \<Rightarrow> ('w, 'e, 'b) eff) \<Rightarrow> ('w, 'e, 'b) eff" where
  "ebind m f w = (case m w of (Inl e, w') \<Rightarrow> (Inl e, w') | (Inr a, w') \<Rightarrow> f a w')"

text \<open>A pure computation that may raise, lifted into the world.\<close>

definition elift :: "'e + 'a \<Rightarrow> ('w, 'e, 'a) eff" where
  "elift r w = (r, w)"

text \<open>Python's \<open>try: m except Exception as e: h(e)\<close>.\<close>

definition try_except :: "('w, 'e, 'a) eff \<Rightarrow> ('e \<Rightarrow> ('w, 'e, 'a) eff) \<Rightarrow> ('w, 'e, 'a) eff" where
  "try_except m h w = (case m w of (Inl e, w') \<Rightarrow> h e w' | r \<Rightarrow> r)"

text \<open>
  Independence of a step from the part of the world that \<open>R\<close> ignores: on
  \<open>R\<close>-related worlds it gives the same result and leaves \<open>R\<close>-related worlds.
\<close>

definition eff_indep :: "('w \<Rightarrow> 'w \<Rightarrow> bool) \<Rightarrow> ('w, 'e, 'a) eff \<Rightarrow> bool" where
  "eff_indep R m \<longleftrightarrow> (\<forall>w1 w2. R w1 w2 \<longrightarrow> fst (m w1) = fst (m w2) \<and> R (snd (m w1)) (snd (m w2)))"

lemma nat_str_500 [simp]: "nat_str 500 = ''500''"
  by code_simp

lemma str_exc_http500 [simp]: "str_exc (HTTPException 500 d) = ''500: '' @ d"
  by (simp add: nat_str_500)

lemma ebind_Inr [simp]: "m w = (Inr a, w') \<Longrightarrow> ebind m f w = f a w'"
  by (simp add: ebind_def)

lemma ebind_Inl [simp]: "m w = (Inl e, w') \<Longrightarrow> ebind m f w = (Inl e, w')"
  by (simp add: ebind_def)

lemma ereturn_ebind [simp]: "ebind (ereturn a) f = f a"
  by (simp add: fun_eq_iff ebind_def ereturn_def)

lemma eraise_ebind [simp]: "ebind (eraise e) f = eraise e"
  by (simp add: fun_eq_iff ebind_def eraise_def)

lemma elift_Inr [simp]: "elift (Inr a) = ereturn a"
  by (simp add: fun_eq_iff elift_def ereturn_def)

lemma elift_Inl [simp]: "elift (Inl e) = eraise e"
  by (simp add: fun_eq_iff elift_def eraise_def)

lemma ebind_assoc: "ebind (ebind m f) g = ebind m (\<lambda>a. ebind (f a) g)"
  by (simp add: fun_eq_iff ebind_def split: prod.splits sum.splits)

lemma try_except_Inr [simp]: "m w = (Inr a, w') \<Longrightarrow> try_except m h w = (Inr a, w')"
  by (simp add: try_except_def)

lemma try_except_Inl [simp]: "m w = (Inl e, w') \<Longrightarrow> try_except m h w = h e w'"
  by (simp add: try_except_def)

lemma ereturn_apply [simp]: "ereturn a w = (Inr a, w)"
  by (simp add: ereturn_def)

lemma eraise_apply [simp]: "eraise e w = (Inl e, w)"
  by (simp add: eraise_def)

text \<open>
  Outcome of a step regardless of its value: \<open>ebind_cases\<close> splits a bound step on
  what its first part did.
\<close>

lemma ebind_cases:
  "ebind m f w = (case m w of (Inl e, w') \<Rightarrow> (Inl e, w') | (Inr a, w') \<Rightarrow> f a w')"
  by (simp add: ebind_def)

lemma ebind_result:
  "ebind m f w = (r, w') \<Longrightarrow>
     (\<exists>e. m w = (Inl e, w') \<and> r = Inl e) \<or> (\<exists>a w1. m w = (Inr a, w1) \<and> f a w1 = (r, w'))"
  by (auto simp: ebind_def split: prod.splits sum.splits)

lemma elift_result: "elift x w = (r, w') \<Longrightarrow> r = x \<and> w' = w"
  by (simp add: elift_def)

section \<open>Lists\<close>

text \<open>
  The store reads the newest \<open>n\<close> rows and the code reverses them: the window is the
  suffix of length \<open>min n (length xs)\<close> of the chronological list.
\<close>

lemma rev_take_rev [simp]: "rev (take n (rev xs)) = drop (length xs - n) xs"
  by (simp add: take_rev)

lemma length_drop_window: "length (drop (length xs - n) xs) = min n (length xs)"
  by simp

lemma last_drop_window: "0 < n \<Longrightarrow> xs \<noteq> [] \<Longrightarrow> last (drop (length xs - n) xs) = last xs"
  by (simp add: last_drop)

lemma eff_indepD:
  "eff_indep R m \<Longrightarrow> R w1 w2 \<Longrightarrow> fst (m w1) = fst (m w2) \<and> R (snd (m w1)) (snd (m w2))"
  by (simp add: eff_indep_def)

lemma eff_indep_ereturn [indep_rules]: "eff_indep R (ereturn a)"
  by (simp add: eff_indep_def)

lemma eff_indep_eraise [indep_rules]: "eff_indep R (eraise e)"
  by (simp add: eff_indep_def)

lemma eff_indep_elift [indep_rules]: "eff_indep R (elift x)"
  by (cases x) (simp_all add: eff_indep_ereturn eff_indep_eraise)

lemma eff_indep_ebind [indep_rules]:
  assumes "eff_indep R m" and "\<And>a. eff_indep R (f a)"
  shows "eff_indep R (ebind m f)"
  unfolding eff_indep_def
proof (intro allI impI)
  fix w1 w2 assume r: "R w1 w2"
  obtain x1 v1 x2 v2 where m1: "m w1 = (x1, v1)" and m2: "m w2 = (x2, v2)" by (metis prod.exhaust)
  with assms(1) r have x: "x1 = x2" and rv: "R v1 v2" by (auto dest: eff_indepD)
  show "fst (ebind m f w1) = fst (ebind m f w2) \<and> R (snd (ebind m f w1)) (snd (ebind m f w2))"
  proof (cases x1)
    case (Inl e)
    then show ?thesis using m1 m2 x rv by (simp add: ebind_def)
  next
    case (Inr a)
    then show ?thesis using m1 m2 x rv eff_indepD [OF assms(2) rv, of a] by (simp add: ebind_def)
  qed
qed

lemma eff_indep_try_except [indep_rules]:
  assumes "eff_indep R m" and "\<And>e. eff_indep R (h e)"
  shows "eff_indep R (try_except m h)"
  unfolding eff_indep_def
proof (intro allI impI)
  fix w1 w2 assume r: "R w1 w2"
  obtain x1 v1 x2 v2 where m1: "m w1 = (x1, v1)" and m2: "m w2 = (x2, v2)" by (metis prod.exhaust)
  with assms(1) r have x: "x1 = x2" and rv: "R v1 v2" by (auto dest: eff_indepD)
  show "fst (try_except m h w1) = fst (try_except m h w2)
        \<and> R (snd (try_except m h w1)) (snd (try_except m h w2))"
  proof (cases x1)
    case (Inl e)
    then show ?thesis using m1 m2 x rv eff_indepD [OF assms(2) rv, of e] by (simp add: try_except_def)
  next
    case (Inr a)
    then show ?thesis using m1 m2 x rv by (simp add: try_except_def)
  qed
qed

lemma eff_indep_case_prod [indep_rules]:
  "(\<And>x y. eff_indep R (f x y)) \<Longrightarrow> eff_indep R (case_prod f p)"
  by (cases p) simp

end
