(* ===== verification/Auth.thy ===== *)
theory Auth
  imports Prelude
begin

text \<open>
  The bearer-token gate \<open>verify_token\<close>, identical in the three services
  (\<open>src/file-agent/file_agent.py\<close>, \<open>src/~sample-python-agent~/sample_postgres_agent.py\<close>,
  \<open>src/~voiceflow-dialog-api-integration~/voiceflow_integration.py\<close>). The configured
  secret is the environment variable \<open>API_BEARER_TOKEN\<close> (\<open>None\<close> when unset); the
  presented credential is the bearer string FastAPI's \<open>HTTPBearer\<close> extracted.
  The gate returns \<open>True\<close> or raises an \<open>HTTPException\<close>: 500 when the secret is
  unset or empty (Python's \<open>not expected_token\<close>), 401 when it differs.
\<close>

definition verify_token :: "string option \<Rightarrow> string \<Rightarrow> exc + bool" where
  "verify_token expected credentials =
     (case expected of
        None \<Rightarrow> Inl (HTTPException 500 ''API_BEARER_TOKEN environment variable not set'')
      | Some tok \<Rightarrow>
          if tok = [] then Inl (HTTPException 500 ''API_BEARER_TOKEN environment variable not set'')
          else if credentials \<noteq> tok then Inl (HTTPException 401 ''Invalid authentication token'')
          else Inr True)"

text \<open>
  What the HTTP layer answers: 200 with the \<open>AgentResponse\<close> flag, or the status
  and detail of an exception that escaped the endpoint (FastAPI renders an
  \<open>HTTPException\<close> with its own status and any other exception as a 500).
\<close>

datatype http_response = Http200 bool | HttpError nat string

fun error_response :: "exc \<Rightarrow> http_response" where
  "error_response (HTTPException code detail) = HttpError code detail"
| "error_response _ = HttpError 500 ''Internal Server Error''"

text \<open>
  A \<open>POST\<close> route with \<open>Depends(verify_token)\<close>: the dependency runs first, and the
  handler runs only when it returned.
\<close>

definition serve :: "string option \<Rightarrow> string \<Rightarrow> ('w, exc, bool) eff \<Rightarrow> 'w \<Rightarrow> http_response \<times> 'w" where
  "serve expected credentials handler w =
     (case verify_token expected credentials of
        Inl e \<Rightarrow> (error_response e, w)
      | Inr _ \<Rightarrow> (case handler w of
                   (Inr ok, w') \<Rightarrow> (Http200 ok, w')
                 | (Inl e, w') \<Rightarrow> (error_response e, w')))"

lemma serve_rejected: "verify_token e c = Inl x \<Longrightarrow> serve e c h w = (error_response x, w)"
  by (simp add: serve_def)

lemma serve_accepted:
  "verify_token e c = Inr True \<Longrightarrow> h w = (r, w') \<Longrightarrow>
   serve e c h w = ((case r of Inr ok \<Rightarrow> Http200 ok | Inl x \<Rightarrow> error_response x), w')"
  by (simp add: serve_def split: sum.splits)

lemma verify_token_failures:
  "verify_token e c = Inl x \<Longrightarrow>
     x = HTTPException 401 ''Invalid authentication token''
   \<or> x = HTTPException 500 ''API_BEARER_TOKEN environment variable not set''"
  by (auto simp: verify_token_def split: option.splits if_splits)

section \<open>Properties\<close>

text \<open>
  C11. The token gate has exactly three outcomes: it accepts iff a non-empty secret is
  configured and the presented credential equals it; it fails with a configuration
  error (500) iff the secret is unset or empty, whatever the credential; it fails
  with \<open>unauthorized\<close> (401) iff a non-empty secret is configured and differs from
  the credential. It never returns \<open>False\<close>.
\<close>

theorem verify_token_outcomes:
  "(verify_token e c = Inr True \<longleftrightarrow> (\<exists>tok. e = Some tok \<and> tok \<noteq> [] \<and> c = tok))
   \<and> (verify_token e c = Inl (HTTPException 500 ''API_BEARER_TOKEN environment variable not set'')
        \<longleftrightarrow> e = None \<or> e = Some [])
   \<and> (verify_token e c = Inl (HTTPException 401 ''Invalid authentication token'')
        \<longleftrightarrow> (\<exists>tok. e = Some tok \<and> tok \<noteq> [] \<and> c \<noteq> tok))
   \<and> verify_token e c \<noteq> Inr False"
  by (auto simp: verify_token_def split: option.splits)

theorem verify_token_outcomes_witness:
  "verify_token (Some ''secret'') ''secret'' = Inr True
   \<and> verify_token (Some ''secret'') ''guess'' = Inl (HTTPException 401 ''Invalid authentication token'')"
  using verify_token_outcomes [of "Some ''secret''" "''secret''"]
        verify_token_outcomes [of "Some ''secret''" "''guess''"]
  by simp

end
