(* ===== verification/History.thy ===== *)
theory History
  imports Prelude
begin

text \<open>
  The conversation-history store as the services use it: the \<open>messages\<close> table
  (Supabase in \<open>src/file-agent/file_agent.py\<close> and in the Voiceflow service,
  Postgres through \<open>asyncpg\<close> in \<open>src/~sample-python-agent~/sample_postgres_agent.py\<close>)
  and the two adapter functions every service defines over it,
  \<open>fetch_conversation_history\<close> and \<open>store_message\<close>.

  The table is a list of rows in insertion order; the store assigns each row a fresh
  id and a creation timestamp from a clock that advances on every insert. The
  outcome of each call to the store is an input of the model: \<open>db_faults\<close> lists,
  call by call, whether the storage layer raises (with the message of its exception);
  calls past the end of the list succeed. The abstract view of the table is
  \<open>session_log\<close>, the messages of one session in the order they were appended;
  \<open>store_inv\<close> is the invariant under which the query the code issues (newest first,
  bounded by \<open>limit\<close>, then reversed) reads the newest window of that log.
\<close>

section \<open>State\<close>

text \<open>The stored message object \<open>{"type", "content", "data"?}\<close>.\<close>

record message =
  msg_type :: string
  msg_content :: string
  msg_data :: "dict option"

text \<open>
  A row of the table and the table itself, over the type \<open>'m\<close> of the \<open>message\<close>
  column as the service reads it back: the message object for the Supabase client, the
  JSON text the Postgres service inserted.
\<close>

record 'm row =
  row_id :: nat
  row_created :: nat
  row_session :: string
  row_message :: 'm

record 'm store =
  rows :: "'m row list"
  next_id :: nat
  clock :: nat

text \<open>
  The world a request runs in: the store, the outcomes of the coming store calls, and
  the lines the service printed.
\<close>

record 'm db_world =
  db :: "'m store"
  db_faults :: "string option list"
  log :: "string list"

type_synonym world = "message db_world"

definition empty_store :: "'m store" where
  "empty_store = \<lparr>rows = [], next_id = 1, clock = 0\<rparr>"

text \<open>One call to the storage layer: \<open>Some msg\<close> when it raises.\<close>

definition next_fault :: "'m db_world \<Rightarrow> string option \<times> 'm db_world" where
  "next_fault w = (case db_faults w of [] \<Rightarrow> (None, w) | f # fs \<Rightarrow> (f, w\<lparr>db_faults := fs\<rparr>))"

text \<open>\<open>print(s)\<close>: a line on the service's standard output.\<close>

definition print_line :: "string \<Rightarrow> ('m db_world, exc, unit) eff" where
  "print_line s w = (Inr (), w\<lparr>log := log w @ [s]\<rparr>)"

section \<open>Operations\<close>

text \<open>
  The query \<open>table("messages").select("*").eq("session_id", sid)
  .order("created_at", desc=True).limit(n)\<close> (in Postgres \<open>WHERE session_id = $1 ORDER
  BY created_at DESC LIMIT $2\<close>).
\<close>

definition query_recent :: "'m store \<Rightarrow> string \<Rightarrow> nat \<Rightarrow> 'm row list" where
  "query_recent s sid n =
     take n (rev (sort_key row_created (filter (\<lambda>r. row_session r = sid) (rows s))))"

text \<open>\<open>fetch_conversation_history\<close>: the query, reversed to chronological order.\<close>

definition fetch_conversation_history ::
  "string \<Rightarrow> nat \<Rightarrow> ('m db_world, exc, 'm row list) eff" where
  "fetch_conversation_history sid limit w =
     (case next_fault w of
        (Some err, w') \<Rightarrow>
          (Inl (HTTPException 500 (''Failed to fetch conversation history: '' @ err)), w')
      | (None, w') \<Rightarrow> (Inr (rev (query_recent (db w') sid limit)), w'))"

text \<open>
  The message object of \<open>store_message\<close>: \<open>data\<close> is attached only when it is
  truthy, that is, present and non-empty.
\<close>

definition make_message :: "string \<Rightarrow> string \<Rightarrow> dict option \<Rightarrow> message" where
  "make_message t c data =
     \<lparr>msg_type = t, msg_content = c,
      msg_data = (case data of None \<Rightarrow> None | Some d \<Rightarrow> if d = [] then None else Some d)\<rparr>"

definition insert_row :: "string \<Rightarrow> 'm \<Rightarrow> 'm store \<Rightarrow> 'm store" where
  "insert_row sid m s =
     s\<lparr>rows := rows s @ [\<lparr>row_id = next_id s, row_created = clock s,
                          row_session = sid, row_message = m\<rparr>],
       next_id := Suc (next_id s), clock := Suc (clock s)\<rparr>"

definition store_message ::
  "string \<Rightarrow> string \<Rightarrow> string \<Rightarrow> dict option \<Rightarrow> (world, exc, unit) eff" where
  "store_message sid t c data w =
     (case next_fault w of
        (Some err, w') \<Rightarrow> (Inl (HTTPException 500 (''Failed to store message: '' @ err)), w')
      | (None, w') \<Rightarrow> (Inr (), w'\<lparr>db := insert_row sid (make_message t c data) (db w')\<rparr>))"

section \<open>Abstraction and invariant\<close>

text \<open>
  The contract of \<open>fetch\<close>: the newest \<open>n\<close> elements of a chronological list,
  oldest first; all of them when there are fewer.
\<close>

definition recent :: "nat \<Rightarrow> 'a list \<Rightarrow> 'a list" where
  "recent n xs = drop (length xs - n) xs"

lemma recent_map: "recent n (map f xs) = map f (recent n xs)"
  by (simp add: recent_def drop_map)

lemma length_recent: "length (recent n xs) = min n (length xs)"
  by (simp add: recent_def)

lemma recent_suffix: "\<exists>ys. xs = ys @ recent n xs"
  by (metis append_take_drop_id recent_def)

lemma recent_snoc_last: "0 < n \<Longrightarrow> last (recent n (xs @ [x])) = x \<and> recent n (xs @ [x]) \<noteq> []"
  by (simp add: recent_def)

lemma sorted_wrt_recent: "sorted_wrt R xs \<Longrightarrow> sorted_wrt R (recent n xs)"
  by (simp add: recent_def sorted_wrt_drop)

definition session_rows :: "'m store \<Rightarrow> string \<Rightarrow> 'm row list" where
  "session_rows s sid = filter (\<lambda>r. row_session r = sid) (rows s)"

definition session_log :: "'m store \<Rightarrow> string \<Rightarrow> 'm list" where
  "session_log s sid = map row_message (session_rows s sid)"

text \<open>
  Timestamps and ids strictly increase in insertion order and stay below the clock and
  the id counter.
\<close>

definition store_inv :: "'m store \<Rightarrow> bool" where
  "store_inv s \<longleftrightarrow>
     sorted_wrt (\<lambda>r1 r2. row_created r1 < row_created r2) (rows s)
   \<and> sorted_wrt (\<lambda>r1 r2. row_id r1 < row_id r2) (rows s)
   \<and> (\<forall>r \<in> set (rows s). row_created r < clock s \<and> row_id r < next_id s)"

lemma store_inv_empty: "store_inv empty_store"
  by (simp add: store_inv_def empty_store_def)

lemma store_inv_insert_row: "store_inv s \<Longrightarrow> store_inv (insert_row sid m s)"
  by (auto simp: store_inv_def insert_row_def sorted_wrt_append less_Suc_eq)

lemma session_rows_insert_row:
  "session_rows (insert_row sid m s) sid' =
     session_rows s sid' @ (if sid' = sid then [\<lparr>row_id = next_id s, row_created = clock s,
                                               row_session = sid, row_message = m\<rparr>] else [])"
  by (simp add: session_rows_def insert_row_def)

lemma session_log_insert_row:
  "session_log (insert_row sid m s) sid' = session_log s sid' @ (if sid' = sid then [m] else [])"
  by (simp add: session_log_def session_rows_insert_row)

lemma sorted_created_session_rows:
  "store_inv s \<Longrightarrow> sorted_wrt (\<lambda>r1 r2. row_created r1 < row_created r2) (session_rows s sid)"
  by (simp add: store_inv_def session_rows_def sorted_wrt_filter)

lemma sort_key_session_rows:
  assumes "store_inv s"
  shows "sort_key row_created (session_rows s sid) = session_rows s sid"
proof (rule sort_key_id_if_sorted)
  have "sorted_wrt (\<lambda>r1 r2. row_created r1 < row_created r2) (session_rows s sid)"
    using assms by (rule sorted_created_session_rows)
  then have "sorted_wrt (<) (map row_created (session_rows s sid))"
    by (simp add: sorted_wrt_map)
  then show "sorted (map row_created (session_rows s sid))"
    by (rule strict_sorted_imp_sorted)
qed

text \<open>Under the invariant the query reads the newest \<open>n\<close> rows of the session.\<close>

lemma query_recent_window:
  "store_inv s \<Longrightarrow> rev (query_recent s sid n) = recent n (session_rows s sid)"
  using sort_key_session_rows [of s sid]
  by (simp add: query_recent_def recent_def session_rows_def [symmetric])

lemmas store_effect_simps = next_fault_def fetch_conversation_history_def store_message_def

lemma fetch_ok:
  "db_faults w = [] \<or> hd (db_faults w) = None \<Longrightarrow>
   fetch_conversation_history sid n w = (Inr (rev (query_recent (db w) sid n)), snd (next_fault w))"
  by (auto simp: store_effect_simps neq_Nil_conv split: list.splits)

lemma store_message_ok:
  "db_faults w = [] \<or> hd (db_faults w) = None \<Longrightarrow>
   store_message sid t c d w =
     (Inr (), (snd (next_fault w))\<lparr>db := insert_row sid (make_message t c d) (db w)\<rparr>)"
  by (auto simp: store_effect_simps neq_Nil_conv split: list.splits)

lemma print_line_frame: "print_line s w = (r, w') \<Longrightarrow> r = Inr () \<and> db w' = db w \<and> db_faults w' = db_faults w"
  by (auto simp: print_line_def)

lemma next_fault_db [simp]: "db (snd (next_fault w)) = db w"
  by (simp add: next_fault_def split: list.splits)

lemma next_fault_no_faults [simp]: "db_faults w = [] \<Longrightarrow> next_fault w = (None, w)"
  by (simp add: next_fault_def)

lemma next_fault_frame: "next_fault w = (f, w') \<Longrightarrow> db w' = db w \<and> log w' = log w"
  by (auto simp: next_fault_def split: list.splits)

lemma store_message_db:
  "store_message sid t c d w = (r, w') \<Longrightarrow>
   db w' = db w \<and> r \<noteq> Inr () \<or> db w' = insert_row sid (make_message t c d) (db w) \<and> r = Inr ()"
  by (auto simp: store_message_def dest: next_fault_frame split: prod.splits option.splits)

lemma fetch_db: "fetch_conversation_history sid n w = (r, w') \<Longrightarrow> db w' = db w"
  by (auto simp: fetch_conversation_history_def dest: next_fault_frame
      split: prod.splits option.splits)

lemma next_fault_None:
  "fst (next_fault w) = None \<Longrightarrow> next_fault w = (None, snd (next_fault w))"
  by (simp add: prod_eq_iff)

lemma fetch_window:
  assumes "store_inv (db w)" and "fst (next_fault w) = None"
  shows "fetch_conversation_history sid n w =
           (Inr (recent n (session_rows (db w) sid)), snd (next_fault w))"
proof -
  obtain w' where nf: "next_fault w = (None, w')"
    using assms(2) by (metis next_fault_None)
  then have "db w' = db w" by (auto dest: next_fault_frame)
  with nf query_recent_window [OF assms(1), of sid n] show ?thesis
    by (simp add: fetch_conversation_history_def)
qed

lemma store_message_success:
  assumes "fst (next_fault w) = None"
  shows "store_message sid t c d w =
           (Inr (), (snd (next_fault w))\<lparr>db := insert_row sid (make_message t c d) (db w)\<rparr>)"
proof -
  obtain w' where nf: "next_fault w = (None, w')"
    using assms by (metis next_fault_None)
  then have "db w' = db w" by (auto dest: next_fault_frame)
  with nf show ?thesis by (simp add: store_message_def)
qed

lemma store_message_cases:
  "store_message sid t c d w = (r, w') \<Longrightarrow>
     (fst (next_fault w) = None \<and> r = Inr () \<and> db w' = insert_row sid (make_message t c d) (db w))
   \<or> (\<exists>err. fst (next_fault w) = Some err \<and> db w' = db w
            \<and> r = Inl (HTTPException 500 (''Failed to store message: '' @ err)))"
  by (auto simp: store_message_def dest: next_fault_frame split: prod.splits option.splits)

lemma fetch_cases:
  "fetch_conversation_history sid n w = (r, w') \<Longrightarrow>
     db w' = db w \<and>
     ((fst (next_fault w) = None \<and> r = Inr (rev (query_recent (db w) sid n)))
      \<or> (\<exists>err. fst (next_fault w) = Some err
            \<and> r = Inl (HTTPException 500 (''Failed to fetch conversation history: '' @ err))))"
  by (auto simp: fetch_conversation_history_def dest: next_fault_frame
      split: prod.splits option.splits)

lemma session_rows_session: "r \<in> set (session_rows s sid) \<Longrightarrow> row_session r = sid"
  by (simp add: session_rows_def)

lemma length_session_rows: "length (session_rows s sid) = length (session_log s sid)"
  by (simp add: session_log_def)

text \<open>Concrete stores for the witnesses below.\<close>

definition msg :: "string \<Rightarrow> message" where
  "msg c = make_message ''human'' c None"

definition world_of :: "'m store \<Rightarrow> string option list \<Rightarrow> 'm db_world" where
  "world_of s fs = \<lparr>db = s, db_faults = fs, log = []\<rparr>"

definition empty_world :: world where
  "empty_world = world_of empty_store []"

definition demo_world :: world where
  "demo_world = world_of (insert_row ''s'' (msg ''b'') (insert_row ''t'' (msg ''x'')
                   (insert_row ''s'' (msg ''a'') empty_store))) []"

section \<open>Properties\<close>

text \<open>
  C1. Fetching the history (\<open>fetch_conversation_history\<close>) returns, when the store
  call succeeds, the newest \<open>limit\<close> rows of the session in chronological order:
  the query's newest-first order reversed back is exactly the suffix window of the
  session's log, and the store is not modified.
\<close>

theorem fetch_returns_recent_window:
  assumes "store_inv (db w)" and "fst (next_fault w) = None"
  shows "fetch_conversation_history sid limit w = (Inr hist, w') \<longleftrightarrow>
           hist = recent limit (session_rows (db w) sid) \<and> w' = snd (next_fault w)
           \<and> map row_message hist = recent limit (session_log (db w) sid) \<and> db w' = db w"
  using fetch_window [OF assms, of sid limit]
  by (auto simp: session_log_def recent_map)

theorem fetch_returns_recent_window_witness:
  "store_inv (db demo_world) \<and> fst (next_fault demo_world) = None
   \<and> fetch_conversation_history ''s'' 1 demo_world =
        (Inr (recent 1 (session_rows (db demo_world) ''s'')), demo_world)
   \<and> map row_message (recent 1 (session_rows (db demo_world) ''s'')) = [msg ''b'']"
proof -
  have inv: "store_inv (db demo_world)"
    by (simp add: demo_world_def world_of_def store_inv_def insert_row_def empty_store_def)
  have nf: "fst (next_fault demo_world) = None"
    by (simp add: demo_world_def world_of_def next_fault_def)
  have nw: "snd (next_fault demo_world) = demo_world"
    by (simp add: demo_world_def world_of_def next_fault_def)
  have "map row_message (recent 1 (session_rows (db demo_world) ''s'')) = [msg ''b'']"
    by (simp add: demo_world_def world_of_def insert_row_def empty_store_def
        session_rows_def recent_def)
  moreover have "fetch_conversation_history ''s'' 1 demo_world =
        (Inr (recent 1 (session_rows (db demo_world) ''s'')), demo_world)"
    using fetch_returns_recent_window [OF inv nf, of "''s''" 1
            "recent 1 (session_rows (db demo_world) ''s'')" demo_world] nw
    by (simp add: session_log_def recent_map)
  ultimately show ?thesis using inv nf by simp
qed

text \<open>
  C2. Round trip: a message appended by \<open>store_message\<close> is the last element of the
  history fetched right after it with any positive \<open>limit\<close>.
\<close>

theorem append_then_fetch_last:
  assumes "store_inv (db w)"
    and "store_message sid t c d w = (Inr (), w1)"
    and "fst (next_fault w1) = None"
    and "0 < limit"
  shows "\<exists>hist. fetch_conversation_history sid limit w1 = (Inr hist, snd (next_fault w1))
           \<and> hist \<noteq> [] \<and> row_message (last hist) = make_message t c d"
proof -
  from assms(2) have db1: "db w1 = insert_row sid (make_message t c d) (db w)"
    by (auto dest: store_message_cases)
  with assms(1) have inv1: "store_inv (db w1)" by (simp add: store_inv_insert_row)
  have "fetch_conversation_history sid limit w1 =
          (Inr (recent limit (session_rows (db w1) sid)), snd (next_fault w1))"
    using inv1 assms(3) by (rule fetch_window)
  moreover have "recent limit (session_rows (db w1) sid) \<noteq> []
      \<and> row_message (last (recent limit (session_rows (db w1) sid))) = make_message t c d"
    by (simp add: db1 session_rows_insert_row recent_snoc_last [OF assms(4)])
  ultimately show ?thesis by blast
qed

theorem append_then_fetch_last_witness:
  "\<exists>hist. fetch_conversation_history ''s'' 3 (world_of (insert_row ''s'' (msg ''c'') (db demo_world)) [])
      = (Inr hist, world_of (insert_row ''s'' (msg ''c'') (db demo_world)) [])
    \<and> hist \<noteq> [] \<and> row_message (last hist) = msg ''c''"
proof -
  have inv: "store_inv (db demo_world)"
    by (simp add: demo_world_def world_of_def store_inv_def insert_row_def empty_store_def)
  have st: "store_message ''s'' ''human'' ''c'' None demo_world
      = (Inr (), world_of (insert_row ''s'' (msg ''c'') (db demo_world)) [])"
    by (simp add: store_message_def demo_world_def world_of_def next_fault_def msg_def)
  have nf: "fst (next_fault (world_of (insert_row ''s'' (msg ''c'') (db demo_world)) [])) = None"
    by (simp add: world_of_def next_fault_def)
  have nw: "snd (next_fault (world_of (insert_row ''s'' (msg ''c'') (db demo_world)) []))
      = world_of (insert_row ''s'' (msg ''c'') (db demo_world)) []"
    by (simp add: world_of_def next_fault_def)
  show ?thesis
    using append_then_fetch_last [OF inv st nf, of 3] nw by (simp add: msg_def)
qed

text \<open>
  C3. \<open>store_message\<close> appends at most once: when the store call succeeds the log of
  the addressed session grows by exactly the new message and every other session's log
  is unchanged; when it raises, the store is untouched.
\<close>

theorem store_message_appends_once:
  "store_message sid t c d w = (r, w') \<Longrightarrow>
     (r = Inr () \<and> session_log (db w') =
        (session_log (db w))(sid := session_log (db w) sid @ [make_message t c d]))
   \<or> (r \<noteq> Inr () \<and> db w' = db w)"
  by (auto dest!: store_message_cases simp: session_log_insert_row fun_eq_iff)

theorem store_message_appends_once_witness:
  "store_message ''s'' ''human'' ''c'' None demo_world
     = (Inr (), world_of (insert_row ''s'' (msg ''c'') (db demo_world)) [])
   \<and> session_log (db (world_of (insert_row ''s'' (msg ''c'') (db demo_world)) [])) =
        (session_log (db demo_world))(''s'' := session_log (db demo_world) ''s'' @ [msg ''c''])"
proof -
  have st: "store_message ''s'' ''human'' ''c'' None demo_world
      = (Inr (), world_of (insert_row ''s'' (msg ''c'') (db demo_world)) [])"
    by (simp add: store_message_def demo_world_def world_of_def next_fault_def msg_def)
  show ?thesis using store_message_appends_once [OF st] st by (simp add: msg_def)
qed

text \<open>
  C4. The fetched history is ordered by creation time (strictly increasing), belongs to
  the requested session, and has length \<open>min limit n\<close> for a session of
  \<open>n\<close> stored messages.
\<close>

theorem fetch_sorted_bounded:
  assumes "store_inv (db w)"
    and "fetch_conversation_history sid limit w = (Inr hist, w')"
  shows "sorted_wrt (\<lambda>r1 r2. row_created r1 < row_created r2) hist
         \<and> length hist = min limit (length (session_log (db w) sid))
         \<and> (\<forall>r \<in> set hist. row_session r = sid)"
proof -
  from assms(2) have "fst (next_fault w) = None" and h: "hist = rev (query_recent (db w) sid limit)"
    by (auto dest: fetch_cases)
  with query_recent_window [OF assms(1)] have h': "hist = recent limit (session_rows (db w) sid)"
    by simp
  have "sorted_wrt (\<lambda>r1 r2. row_created r1 < row_created r2) (session_rows (db w) sid)"
    using assms(1) by (rule sorted_created_session_rows)
  then show ?thesis
    using set_drop_subset [of "length (session_rows (db w) sid) - limit" "session_rows (db w) sid"]
    by (auto simp: h' sorted_wrt_recent length_recent length_session_rows recent_def
        dest: session_rows_session)
qed

theorem fetch_sorted_bounded_witness:
  "length (recent 1 (session_rows (db demo_world) ''s'')) = min 1 (length (session_log (db demo_world) ''s''))"
proof -
  have inv: "store_inv (db demo_world)"
    by (simp add: demo_world_def world_of_def store_inv_def insert_row_def empty_store_def)
  have nf: "fst (next_fault demo_world) = None" and nw: "snd (next_fault demo_world) = demo_world"
    by (simp_all add: demo_world_def world_of_def next_fault_def)
  have "fetch_conversation_history ''s'' 1 demo_world
          = (Inr (recent 1 (session_rows (db demo_world) ''s'')), demo_world)"
    using fetch_window [OF inv nf] nw by simp
  from fetch_sorted_bounded [OF inv this] show ?thesis by simp
qed

end
