(* ===== verification/Codecs.thy ===== *)
theory Codecs
  imports Prelude
begin

text \<open>
  The two byte codecs that \<open>process_files_to_string\<close>
  (\<open>src/file-agent/file_agent.py\<close>) applies to an attachment,
  \<open>base64.b64decode(file['base64']).decode('utf-8')\<close>. They belong to the Python
  standard library, not to the repository, and are modelled from its documented and
  implemented behaviour:
  \<^item> \<open>b64decode\<close> in its default, non-validating mode: a \<open>str\<close> argument must be
    ASCII (else \<open>ValueError\<close>); CPython's \<open>binascii.a2b_base64\<close> then skips every
    character outside the alphabet, stops at the first complete padding, and fails
    with \<open>binascii.Error\<close> when the data characters do not fill whole quads;
  \<^item> \<open>decode('utf-8')\<close> in strict mode: the bytes must be well-formed UTF-8
    (Unicode Table 3-7: no overlong forms, no surrogates, nothing above U+10FFFF),
    else \<open>UnicodeDecodeError\<close>.
  Bytes are \<open>8 word\<close>s. A decoded \<open>str\<close> is its UTF-8 encoding (see the prelude),
  so a successful decode returns the bytes themselves as characters.
  \<open>b64encode\<close> is the encoder used by the clients that attach files; with it the
  round trip \<open>b64decode (b64encode bs) = bs\<close> is proved below.
\<close>

type_synonym byte = "8 word"

text \<open>\<open>s.encode('utf-8')\<close> of a \<open>str\<close>, which the model already holds as UTF-8 bytes.\<close>

definition utf8_encode :: "string \<Rightarrow> byte list" where
  "utf8_encode s = map (\<lambda>c. of_nat (of_char c)) s"

section \<open>Base64\<close>

text \<open>\<open>table_a2b_base64\<close>: the value of an alphabet character.\<close>

definition b64_value :: "char \<Rightarrow> nat option" where
  "b64_value c =
     (let n = of_char c :: nat in
      if 65 \<le> n \<and> n \<le> 90 then Some (n - 65)
      else if 97 \<le> n \<and> n \<le> 122 then Some (n - 71)
      else if 48 \<le> n \<and> n \<le> 57 then Some (n + 4)
      else if n = 43 then Some 62
      else if n = 47 then Some 63
      else None)"

text \<open>
  The decoding loop of \<open>a2b_base64\<close> (non-strict): \<open>q\<close> is \<open>quad_pos\<close>,
  \<open>left\<close> the pending bits \<open>leftchar\<close>, \<open>pads\<close> the padding characters seen,
  \<open>out\<close> the bytes written. A \<open>'='\<close> counts only once two data characters of the
  quad are present (C's short-circuit \<open>quad_pos >= 2 && quad_pos + ++pads >= 4\<close>),
  and a complete padding ends the decoding; a data character resets \<open>pads\<close>.
\<close>

fun a2b_loop :: "char list \<Rightarrow> nat \<Rightarrow> nat \<Rightarrow> nat \<Rightarrow> byte list \<Rightarrow> exc + byte list" where
  "a2b_loop [] q left pads out =
     (if q = 0 then Inr out
      else if q = 1 then
        Inl (BinasciiError (''Invalid base64-encoded string: number of data characters (''
               @ nat_str (length out div 3 * 4 + 1) @ '') cannot be 1 more than a multiple of 4''))
      else Inl (BinasciiError ''Incorrect padding''))"
| "a2b_loop (c # cs) q left pads out =
     (if c = CHR ''='' then
        (if 2 \<le> q then (if 4 \<le> q + Suc pads then Inr out else a2b_loop cs q left (Suc pads) out)
         else a2b_loop cs q left pads out)
      else
        (case b64_value c of
           None \<Rightarrow> a2b_loop cs q left pads out
         | Some v \<Rightarrow>
             (if q = 0 then a2b_loop cs 1 v 0 out
              else if q = 1 then a2b_loop cs 2 (v mod 16) 0 (out @ [of_nat (left * 4 + v div 16)])
              else if q = 2 then a2b_loop cs 3 (v mod 4) 0 (out @ [of_nat (left * 16 + v div 4)])
              else a2b_loop cs 0 0 0 (out @ [of_nat (left * 64 + v)]))))"

text \<open>\<open>base64.b64decode(s)\<close> for a \<open>str\<close> argument.\<close>

definition b64decode :: "string \<Rightarrow> exc + byte list" where
  "b64decode s =
     (if \<exists>c \<in> set s. 128 \<le> (of_char c :: nat)
      then Inl (ValueError ''string argument should contain only ASCII characters'')
      else a2b_loop s 0 0 0 [])"

text \<open>The standard encoder (\<open>base64.b64encode\<close>), three bytes to four characters.\<close>

definition b64_char :: "nat \<Rightarrow> char" where
  "b64_char v = ''ABCDEFGHIJKLMNOPQRSTUVWXYZabcdefghijklmnopqrstuvwxyz0123456789+/'' ! v"

fun b64encode :: "byte list \<Rightarrow> string" where
  "b64encode (a # b # c # rest) =
     (let x = unat a; y = unat b; z = unat c in
      [b64_char (x div 4), b64_char (x mod 4 * 16 + y div 16),
       b64_char (y mod 16 * 4 + z div 64), b64_char (z mod 64)] @ b64encode rest)"
| "b64encode [a, b] =
     (let x = unat a; y = unat b in
      [b64_char (x div 4), b64_char (x mod 4 * 16 + y div 16), b64_char (y mod 16 * 4), CHR ''='']) "
| "b64encode [a] =
     (let x = unat a in [b64_char (x div 4), b64_char (x mod 4 * 16), CHR ''='', CHR ''=''])"
| "b64encode [] = []"

section \<open>UTF-8\<close>

text \<open>
  Well-formedness of UTF-8 (Unicode Table 3-7). \<open>utf8_check bs i\<close> returns the
  first error as CPython reports it (position of the offending sequence and the
  reason), or \<open>None\<close> when the bytes are well-formed. The range allowed for the
  second byte depends on the first (no overlongs after \<open>E0\<close>/\<open>F0\<close>, no surrogates
  after \<open>ED\<close>, nothing past U+10FFFF after \<open>F4\<close>).
\<close>

definition cont_range :: "nat \<Rightarrow> nat \<times> nat" where
  "cont_range b0 =
     (if b0 = 0xE0 then (0xA0, 0xBF) else if b0 = 0xED then (0x80, 0x9F)
      else if b0 = 0xF0 then (0x90, 0xBF) else if b0 = 0xF4 then (0x80, 0x8F)
      else (0x80, 0xBF))"

definition seq_len :: "nat \<Rightarrow> nat" where
  "seq_len b0 =
     (if b0 < 0x80 then 1 else if 0xC2 \<le> b0 \<and> b0 \<le> 0xDF then 2
      else if 0xE0 \<le> b0 \<and> b0 \<le> 0xEF then 3 else if 0xF0 \<le> b0 \<and> b0 \<le> 0xF4 then 4 else 0)"

text \<open>
  How many of the continuation bytes \<open>cs\<close> after a start byte \<open>b0\<close> are valid
  before the first invalid one: the first must lie in \<open>cont_range b0\<close>, the
  others in \<open>80..BF\<close>.
\<close>

definition is_cont :: "byte \<Rightarrow> bool" where
  "is_cont c \<longleftrightarrow> 0x80 \<le> unat c \<and> unat c \<le> 0xBF"

definition cont_valid :: "nat \<Rightarrow> byte list \<Rightarrow> nat" where
  "cont_valid b0 cs =
     (case cs of [] \<Rightarrow> 0
      | c1 # rest \<Rightarrow>
          if fst (cont_range b0) \<le> unat c1 \<and> unat c1 \<le> snd (cont_range b0)
          then Suc (length (takeWhile is_cont rest)) else 0)"

text \<open>
  \<open>utf8_check bs i\<close>: \<open>None\<close> for well-formed input, else the first error as
  CPython's decoder reports it: the start position, the start byte, the length of
  the reported span and the reason.
\<close>

function utf8_check :: "byte list \<Rightarrow> nat \<Rightarrow> (nat \<times> byte \<times> nat \<times> string) option" where
  "utf8_check [] i = None"
| "utf8_check (b # bs) i =
     (let b0 = unat b; n = seq_len b0; k = cont_valid b0 (take (n - 1) bs) in
      if n = 0 then Some (i, b, 1, ''invalid start byte'')
      else if n = 1 then utf8_check bs (Suc i)
      else if k < min (n - 1) (length bs) then Some (i, b, Suc k, ''invalid continuation byte'')
      else if length bs < n - 1 then Some (i, b, Suc (length bs), ''unexpected end of data'')
      else utf8_check (drop (n - 1) bs) (i + n))"
  by pat_completeness auto
termination
  by (relation "measure (\<lambda>(bs, i). length bs)") auto

definition hex2 :: "byte \<Rightarrow> string" where
  "hex2 b = [''0123456789abcdef'' ! (unat b div 16), ''0123456789abcdef'' ! (unat b mod 16)]"

text \<open>\<open>str()\<close> of CPython's \<open>UnicodeDecodeError\<close> for a span of \<open>k\<close> bytes.\<close>

definition utf8_error_msg :: "nat \<Rightarrow> byte \<Rightarrow> nat \<Rightarrow> string \<Rightarrow> string" where
  "utf8_error_msg i b k reason =
     [CHR 0x27] @ ''utf-8'' @ [CHR 0x27] @ '' codec can'' @ [CHR 0x27] @ ''t decode ''
     @ (if k = 1 then ''byte 0x'' @ hex2 b @ '' in position '' @ nat_str i
        else ''bytes in position '' @ nat_str i @ ''-'' @ nat_str (i + k - 1))
     @ '': '' @ reason"

text \<open>\<open>bytes.decode('utf-8')\<close>, strict.\<close>

definition utf8_decode :: "byte list \<Rightarrow> exc + string" where
  "utf8_decode bs =
     (case utf8_check bs 0 of
        None \<Rightarrow> Inr (map (\<lambda>b. char_of (unat b)) bs)
      | Some (i, b, k, reason) \<Rightarrow> Inl (UnicodeDecodeError (utf8_error_msg i b k reason)))"

end
