(* ===== verification/FileAgent.thy ===== *)
theory FileAgent
  imports Auth History Codecs
begin

text \<open>
  The file agent, \<open>src/file-agent/file_agent.py\<close>: a FastAPI route that replays the
  session's recent history to the OpenAI chat-completion API together with the new
  query, with the text of attached files (base64, UTF-8) prepended as context, and
  records the exchange in the Supabase \<open>messages\<close> table.

  \<^item> \<open>process_files_to_string\<close>, \<open>convert_history\<close> (the loop of lines 116--128)
    and \<open>current_message\<close> are pure and may raise (a missing key, a non-string
    payload, undecodable base64 or UTF-8);
  \<^item> \<open>file_agent_body\<close> is the \<open>try\<close> block of the route, \<open>file_agent\<close> the whole
    handler with its \<open>except\<close> branch, \<open>file_agent_endpoint\<close> the route behind
    the token gate.
  The chat-completion call is an input of the model, \<open>chat\<close>: it maps the message
  list sent to the API to the text of the top completion or to the exception the client
  raised.
\<close>

record agent_request =
  query :: string
  user_id :: string
  request_id :: string
  session_id :: string
  files :: "dict list option"

type_synonym chat_api = "(string \<times> string) list \<Rightarrow> exc + string"

section \<open>File context\<close>

text \<open>One attachment: \<open>base64.b64decode(file['base64']).decode('utf-8')\<close>.\<close>

definition decode_file :: "json \<Rightarrow> exc + string" where
  "decode_file f =
     (case json_index f ''base64'' of
        Inl e \<Rightarrow> Inl e
      | Inr (JStr b) \<Rightarrow> (case b64decode b of Inl e \<Rightarrow> Inl e | Inr bs \<Rightarrow> utf8_decode bs)
      | Inr v \<Rightarrow> Inl (TypeError (''argument should be a bytes-like object or ASCII string, not ''
                               @ [CHR 0x27] @ py_type_name v @ [CHR 0x27])))"

text \<open>The loop body: \<open>f"{i}. {file['name']}:\n\n{decoded_content}\n\n"\<close>.\<close>

definition file_entry :: "nat \<Rightarrow> json \<Rightarrow> exc + string" where
  "file_entry i f =
     (case decode_file f of
        Inl e \<Rightarrow> Inl e
      | Inr content \<Rightarrow>
          (case json_index f ''name'' of
             Inl e \<Rightarrow> Inl e
           | Inr name \<Rightarrow> Inr (nat_str i @ ''. '' @ py_str name @ '':\<newline>\<newline>'' @ content @ ''\<newline>\<newline>'')))"

fun files_loop :: "json list \<Rightarrow> nat \<Rightarrow> string \<Rightarrow> exc + string" where
  "files_loop [] i acc = Inr acc"
| "files_loop (f # fs) i acc =
     (case file_entry i f of Inl e \<Rightarrow> Inl e | Inr s \<Rightarrow> files_loop fs (Suc i) (acc @ s))"

definition file_context_header :: string where
  "file_context_header = ''File content to use as context:\<newline>\<newline>''"

definition process_files_to_string :: "json \<Rightarrow> exc + string" where
  "process_files_to_string fs =
     (if \<not> json_truthy fs then Inr []
      else case py_iter fs of
             Inl e \<Rightarrow> Inl e
           | Inr items \<Rightarrow> files_loop items 1 file_context_header)"

section \<open>Replaying the history\<close>

text \<open>One stored message as an OpenAI message \<open>{"role", "content"}\<close>.\<close>

definition convert_message :: "message row \<Rightarrow> exc + (string \<times> string)" where
  "convert_message r =
     (let m = row_message r;
          role = (if msg_type m = ''human'' then ''user'' else ''assistant'');
          content = msg_content m
      in if role = ''user'' then
           (case msg_data m of
              None \<Rightarrow> Inr (role, content)
            | Some d \<Rightarrow>
                (case map_of d ''files'' of
                   None \<Rightarrow> Inr (role, content)
                 | Some fs \<Rightarrow>
                     (case process_files_to_string fs of
                        Inl e \<Rightarrow> Inl e
                      | Inr fc \<Rightarrow> Inr (role, if fc \<noteq> [] then fc @ ''\<newline>\<newline>'' @ content else content))))
         else Inr (role, content))"

fun convert_history :: "message row list \<Rightarrow> exc + (string \<times> string) list" where
  "convert_history [] = Inr []"
| "convert_history (r # rs) =
     (case convert_message r of
        Inl e \<Rightarrow> Inl e
      | Inr m \<Rightarrow> (case convert_history rs of Inl e \<Rightarrow> Inl e | Inr ms \<Rightarrow> Inr (m # ms)))"

section \<open>The handler\<close>

definition files_truthy :: "dict list option \<Rightarrow> bool" where
  "files_truthy fs = (case fs of None \<Rightarrow> False | Some xs \<Rightarrow> xs \<noteq> [])"

definition files_json :: "dict list \<Rightarrow> json" where
  "files_json fs = JArr (map JObj fs)"

text \<open>The \<open>data\<close> stored with the user's message.\<close>

definition message_data :: "agent_request \<Rightarrow> dict" where
  "message_data req =
     [(''request_id'', JStr (request_id req))]
     @ (if files_truthy (files req) then [(''files'', files_json (the (files req)))] else [])"

text \<open>The query as sent to the provider, with the files' text in front.\<close>

definition current_message :: "agent_request \<Rightarrow> exc + string" where
  "current_message req =
     (if files_truthy (files req) then
        (case process_files_to_string (files_json (the (files req))) of
           Inl e \<Rightarrow> Inl e
         | Inr fc \<Rightarrow> Inr (fc @ ''\<newline>\<newline>'' @ query req))
      else Inr (query req))"

definition apology_text :: string where
  "apology_text = ''I apologize, but I encountered an error processing your request.''"

text \<open>The \<open>try\<close> block of \<open>file_agent\<close> (lines 112--168).\<close>

definition file_agent_body :: "chat_api \<Rightarrow> agent_request \<Rightarrow> (world, exc, bool) eff" where
  "file_agent_body chat req =
     ebind (fetch_conversation_history (session_id req) 10) (\<lambda>hist.
     ebind (elift (convert_history hist)) (\<lambda>messages.
     ebind (store_message (session_id req) ''human'' (query req) (Some (message_data req))) (\<lambda>_.
     ebind (elift (current_message req)) (\<lambda>current.
     ebind (elift (chat (messages @ [(''user'', current)]))) (\<lambda>agent_response.
     ebind (store_message (session_id req) ''ai'' agent_response
              (Some [(''request_id'', JStr (request_id req))])) (\<lambda>_.
     ereturn True))))))"

text \<open>The \<open>except\<close> branch (lines 170--179): log, store the apology, report failure.\<close>

definition file_agent_recover :: "agent_request \<Rightarrow> exc \<Rightarrow> (world, exc, bool) eff" where
  "file_agent_recover req e =
     ebind (print_line (''Error processing request: '' @ str_exc e)) (\<lambda>_.
     ebind (store_message (session_id req) ''ai'' apology_text
              (Some [(''error'', JStr (str_exc e)), (''request_id'', JStr (request_id req))])) (\<lambda>_.
     ereturn False))"

definition file_agent :: "chat_api \<Rightarrow> agent_request \<Rightarrow> (world, exc, bool) eff" where
  "file_agent chat req = try_except (file_agent_body chat req) (file_agent_recover req)"

definition file_agent_endpoint ::
  "string option \<Rightarrow> string \<Rightarrow> chat_api \<Rightarrow> agent_request \<Rightarrow> world \<Rightarrow> http_response \<times> world" where
  "file_agent_endpoint expected credentials chat req = serve expected credentials (file_agent chat req)"

section \<open>Lemmas\<close>

abbreviation human_message :: "agent_request \<Rightarrow> message" where
  "human_message req \<equiv> make_message ''human'' (query req) (Some (message_data req))"

abbreviation reply_message :: "agent_request \<Rightarrow> string \<Rightarrow> message" where
  "reply_message req resp \<equiv> make_message ''ai'' resp (Some [(''request_id'', JStr (request_id req))])"

abbreviation apology_message :: "agent_request \<Rightarrow> exc \<Rightarrow> message" where
  "apology_message req e \<equiv> make_message ''ai'' apology_text
      (Some [(''error'', JStr (str_exc e)), (''request_id'', JStr (request_id req))])"

text \<open>What the \<open>try\<close> block can have done to the store when it returns or raises.\<close>

lemma file_agent_body_effects:
  assumes "file_agent_body chat req w = (r, w1)"
  shows "(\<exists>resp. r = Inr True
            \<and> db w1 = insert_row (session_id req) (reply_message req resp)
                         (insert_row (session_id req) (human_message req) (db w)))
       \<or> (\<exists>e. r = Inl e \<and> (db w1 = db w \<or> db w1 = insert_row (session_id req) (human_message req) (db w)))"
  using assms unfolding file_agent_body_def
  by (fastforce dest!: ebind_result elift_result fetch_cases store_message_cases)

lemma file_agent_recover_effects:
  assumes "file_agent_recover req e w1 = (r, w2)"
  shows "(r = Inr False \<and> fst (next_fault w1) = None
          \<and> db w2 = insert_row (session_id req) (apology_message req e) (db w1))
       \<or> (\<exists>err. r = Inl (HTTPException 500 (''Failed to store message: '' @ err))
          \<and> fst (next_fault w1) = Some err \<and> db w2 = db w1)"
  using assms unfolding file_agent_recover_def
  by (auto dest!: ebind_result print_line_frame store_message_cases simp: next_fault_def
      split: list.splits)

text \<open>The \<open>try\<close> block on a store that does not fail and a provider that answers.\<close>

lemma file_agent_body_ok:
  assumes inv: "store_inv (db w)" and nf: "db_faults w = []"
    and hist: "convert_history (recent 10 (session_rows (db w) (session_id req))) = Inr msgs"
    and cur: "current_message req = Inr cur"
    and resp: "chat (msgs @ [(''user'', cur)]) = Inr resp"
  shows "file_agent_body chat req w =
           (Inr True, w\<lparr>db := insert_row (session_id req) (reply_message req resp)
                           (insert_row (session_id req) (human_message req) (db w))\<rparr>)"
proof -
  let ?sid = "session_id req"
  let ?w1 = "w\<lparr>db := insert_row ?sid (human_message req) (db w)\<rparr>"
  have f: "fetch_conversation_history ?sid 10 w = (Inr (recent 10 (session_rows (db w) ?sid)), w)"
    using fetch_window [OF inv] nf by simp
  have s1: "store_message ?sid ''human'' (query req) (Some (message_data req)) w = (Inr (), ?w1)"
    using store_message_success [of w] nf by simp
  have s2: "store_message ?sid ''ai'' resp (Some [(''request_id'', JStr (request_id req))]) ?w1
      = (Inr (), w\<lparr>db := insert_row ?sid (reply_message req resp)
                         (insert_row ?sid (human_message req) (db w))\<rparr>)"
    using store_message_success [of ?w1] nf by simp
  show ?thesis
    by (simp add: file_agent_body_def f hist s1 cur resp s2 elift_def)
qed

lemma session_log_two:
  "session_log (insert_row sid m2 (insert_row sid m1 s)) =
     (session_log s)(sid := session_log s sid @ [m1, m2])"
  by (simp add: fun_eq_iff session_log_insert_row)

lemma session_log_one:
  "session_log (insert_row sid m s) = (session_log s)(sid := session_log s sid @ [m])"
  by (simp add: fun_eq_iff session_log_insert_row)

lemma files_loop_prefix: "files_loop xs i acc = Inr r \<Longrightarrow> \<exists>s. r = acc @ s"
proof (induction xs arbitrary: i acc)
  case Nil
  then show ?case by simp
next
  case (Cons f fs)
  then obtain s1 where "file_entry i f = Inr s1" and "files_loop fs (Suc i) (acc @ s1) = Inr r"
    by (auto split: sum.splits)
  with Cons.IH obtain s2 where "r = (acc @ s1) @ s2" by blast
  then show ?case by simp
qed

text \<open>A non-empty file list yields text that starts with the context header.\<close>

lemma process_files_header:
  assumes "process_files_to_string (files_json fs) = Inr fc" and "fs \<noteq> []"
  shows "\<exists>s. fc = file_context_header @ s"
  using assms files_loop_prefix [of "map JObj fs" 1 file_context_header fc]
  by (simp add: process_files_to_string_def files_json_def)

lemma file_context_header_nonempty: "file_context_header \<noteq> []"
  by (simp add: file_context_header_def)

lemma file_agent_recover_ok:
  assumes "fst (next_fault w1) = None"
  shows "file_agent_recover req e w1 =
           (Inr False, (snd (next_fault w1))\<lparr>db := insert_row (session_id req) (apology_message req e) (db w1),
                                              log := log w1 @ [''Error processing request: '' @ str_exc e]\<rparr>)"
proof -
  let ?w = "w1\<lparr>log := log w1 @ [''Error processing request: '' @ str_exc e]\<rparr>"
  have p: "print_line (''Error processing request: '' @ str_exc e) w1 = (Inr (), ?w)"
    by (simp add: print_line_def)
  have nf: "fst (next_fault ?w) = None" using assms by (simp add: next_fault_def split: list.splits)
  have "snd (next_fault ?w) = (snd (next_fault w1))\<lparr>log := log w1 @ [''Error processing request: '' @ str_exc e]\<rparr>"
    by (simp add: next_fault_def split: list.splits)
  with store_message_success [OF nf] p show ?thesis
    by (simp add: file_agent_recover_def)
qed

text \<open>Concrete requests and providers for the witnesses.\<close>

definition demo_request :: agent_request where
  "demo_request = \<lparr>query = ''What is in the file?'', user_id = ''u1'', request_id = ''r1'',
                   session_id = ''s'',
                   files = Some [[(''name'', JStr ''a.txt''),
                                  (''base64'', JStr (b64encode (utf8_encode ''hello'')))]]\<rparr>"

definition echo_chat :: chat_api where
  "echo_chat ms = Inr (concat (map snd ms))"

definition failing_chat :: chat_api where
  "failing_chat ms = Inl (ProviderError ''upstream unavailable'')"

section \<open>Properties\<close>

text \<open>
  C5. Every run of the file agent's handler leaves the session's log extended by one of
  five suffixes, and by nothing else: the user message and the reply (response
  \<open>success=True\<close>); the apology, alone or after the user message (response
  \<open>success=False\<close>); nothing or the user message alone, when the apology itself
  could not be stored, and then the handler raises a 500 \<open>HTTPException\<close>. Other
  sessions are untouched.
\<close>

theorem file_agent_outcomes:
  assumes "file_agent chat req w = (r, w')"
  shows "\<exists>new. session_log (db w') =
                 (session_log (db w))(session_id req := session_log (db w) (session_id req) @ new)
     \<and> ((\<exists>resp. r = Inr True \<and> new = [human_message req, reply_message req resp])
      \<or> (\<exists>e. r = Inr False \<and> (new = [apology_message req e]
                                  \<or> new = [human_message req, apology_message req e]))
      \<or> (\<exists>err. r = Inl (HTTPException 500 (''Failed to store message: '' @ err))
              \<and> (new = [] \<or> new = [human_message req])))"
proof (cases "file_agent_body chat req w")
  case (Pair r1 w1)
  show ?thesis
  proof (cases r1)
    case (Inr b)
    with Pair assms have "r = r1" "w' = w1"
      by (simp_all add: file_agent_def)
    with Pair Inr file_agent_body_effects [OF Pair] show ?thesis
      by (auto simp: session_log_two)
  next
    case (Inl e)
    with Pair assms have rec: "file_agent_recover req e w1 = (r, w')"
      by (simp add: file_agent_def)
    from Pair Inl file_agent_body_effects [OF Pair]
    have body: "db w1 = db w \<or> db w1 = insert_row (session_id req) (human_message req) (db w)"
      by simp
    from file_agent_recover_effects [OF rec] show ?thesis
    proof (elim disjE conjE exE)
      assume r: "r = Inr False"
        and w': "db w' = insert_row (session_id req) (apology_message req e) (db w1)"
      from body show ?thesis
      proof
        assume "db w1 = db w"
        with r w' show ?thesis
          by (intro exI [of _ "[apology_message req e]"]) (auto simp: session_log_one)
      next
        assume "db w1 = insert_row (session_id req) (human_message req) (db w)"
        with r w' show ?thesis
          by (intro exI [of _ "[human_message req, apology_message req e]"])
            (auto simp: session_log_two)
      qed
    next
      fix err
      assume r: "r = Inl (HTTPException 500 (''Failed to store message: '' @ err))"
        and w': "db w' = db w1"
      from body show ?thesis
      proof
        assume "db w1 = db w"
        with r w' show ?thesis by (intro exI [of _ "[]"]) auto
      next
        assume "db w1 = insert_row (session_id req) (human_message req) (db w)"
        with r w' show ?thesis
          by (intro exI [of _ "[human_message req]"]) (auto simp: session_log_one)
      qed
    qed
  qed
qed

theorem file_agent_outcomes_witness:
  "\<exists>new. session_log (db (snd (file_agent failing_chat demo_request demo_world))) =
      (session_log (db demo_world))(''s'' := session_log (db demo_world) ''s'' @ new)"
proof -
  obtain r w' where run: "file_agent failing_chat demo_request demo_world = (r, w')"
    by (metis prod.exhaust)
  from file_agent_outcomes [OF run] obtain new where
    "session_log (db w') = (session_log (db demo_world))
       (session_id demo_request := session_log (db demo_world) (session_id demo_request) @ new)"
    by blast
  moreover have "session_id demo_request = ''s''" by (simp add: demo_request_def)
  ultimately show ?thesis using run by auto
qed

text \<open>
  C6. The successful path, end to end: with a valid token, a store that does not fail
  and a provider that answers, the endpoint responds \<open>success=True\<close>; the provider
  receives the newest ten messages of the session in chronological order (converted
  to its roles) followed by the new query; and the session's log grows by exactly the
  user's message (with the request id and the attached files in its data) and the
  provider's reply, in that order, keeping the store invariant.
\<close>

theorem file_agent_success:
  assumes "verify_token expected cred = Inr True"
    and "store_inv (db w)" and "db_faults w = []"
    and "convert_history (recent 10 (session_rows (db w) (session_id req))) = Inr msgs"
    and "current_message req = Inr cur"
    and "chat (msgs @ [(''user'', cur)]) = Inr resp"
  shows "\<exists>w'. file_agent_endpoint expected cred chat req w = (Http200 True, w')
           \<and> session_log (db w') = (session_log (db w))
                 (session_id req := session_log (db w) (session_id req)
                                    @ [human_message req, reply_message req resp])
           \<and> store_inv (db w')"
proof -
  let ?w' = "w\<lparr>db := insert_row (session_id req) (reply_message req resp)
                         (insert_row (session_id req) (human_message req) (db w))\<rparr>"
  have "file_agent chat req w = (Inr True, ?w')"
    using file_agent_body_ok [where chat = chat and req = req and w = w and msgs = msgs
        and cur = cur and resp = resp, OF assms(2-6)]
    by (simp add: file_agent_def)
  from serve_accepted [where h = "file_agent chat req", OF assms(1) this]
  have "file_agent_endpoint expected cred chat req w = (Http200 True, ?w')"
    by (simp add: file_agent_endpoint_def)
  moreover have "store_inv (db ?w')" using assms(2) by (simp add: store_inv_insert_row)
  ultimately show ?thesis by (auto simp: session_log_two)
qed

theorem file_agent_success_witness:
  "\<exists>w'. file_agent_endpoint (Some ''tok'') ''tok'' echo_chat demo_request empty_world
          = (Http200 True, w')"
proof -
  have tok: "verify_token (Some ''tok'') ''tok'' = Inr True" by (simp add: verify_token_def)
  have inv: "store_inv (db empty_world)" by (simp add: empty_world_def world_of_def store_inv_empty)
  have nf: "db_faults empty_world = []" by (simp add: empty_world_def world_of_def)
  have h: "convert_history (recent 10 (session_rows (db empty_world) (session_id demo_request))) = Inr []"
    by (simp add: empty_world_def world_of_def empty_store_def session_rows_def recent_def)
  have c: "current_message demo_request = Inr (file_context_header
             @ ''1. a.txt:\<newline>\<newline>hello\<newline>\<newline>\<newline>\<newline>What is in the file?'')"
    by code_simp
  have r: "echo_chat ([] @ [(''user'', file_context_header
             @ ''1. a.txt:\<newline>\<newline>hello\<newline>\<newline>\<newline>\<newline>What is in the file?'')])
           = Inr (file_context_header
             @ ''1. a.txt:\<newline>\<newline>hello\<newline>\<newline>\<newline>\<newline>What is in the file?'')"
    by (simp add: echo_chat_def)
  from file_agent_success [where chat = echo_chat, OF tok inv nf h c r] show ?thesis by blast
qed

text \<open>
  C7. Fault tolerance: whatever raises inside the handler's \<open>try\<close> block (a store
  fault, an undecodable attachment, a provider error), if the store accepts the next
  write the endpoint answers \<open>success=False\<close> with status 200, logs the error, and
  the session's last message is the fixed apology whose data carries the error text and
  the original request id.
\<close>

theorem file_agent_failure_apology:
  assumes "verify_token expected cred = Inr True"
    and "file_agent_body chat req w = (Inl e, w1)"
    and "fst (next_fault w1) = None"
  shows "\<exists>w2. file_agent_endpoint expected cred chat req w = (Http200 False, w2)
           \<and> last (session_log (db w2) (session_id req)) = apology_message req e
           \<and> msg_data (apology_message req e)
                = Some [(''error'', JStr (str_exc e)), (''request_id'', JStr (request_id req))]
           \<and> log w2 = log w1 @ [''Error processing request: '' @ str_exc e]"
proof -
  let ?w2 = "(snd (next_fault w1))\<lparr>db := insert_row (session_id req) (apology_message req e) (db w1),
                                    log := log w1 @ [''Error processing request: '' @ str_exc e]\<rparr>"
  have "file_agent chat req w = (Inr False, ?w2)"
    using assms(2) file_agent_recover_ok [OF assms(3)] by (simp add: file_agent_def)
  from serve_accepted [where h = "file_agent chat req", OF assms(1) this]
  have "file_agent_endpoint expected cred chat req w = (Http200 False, ?w2)"
    by (simp add: file_agent_endpoint_def)
  then show ?thesis
    by (simp add: session_log_insert_row make_message_def)
qed

theorem file_agent_failure_apology_witness:
  "\<exists>w2. file_agent_endpoint (Some ''tok'') ''tok'' failing_chat demo_request empty_world
          = (Http200 False, w2)
        \<and> last (session_log (db w2) ''s'') = apology_message demo_request (ProviderError ''upstream unavailable'')"
proof -
  have tok: "verify_token (Some ''tok'') ''tok'' = Inr True" by (simp add: verify_token_def)
  obtain w1 where body: "file_agent_body failing_chat demo_request empty_world
                   = (Inl (ProviderError ''upstream unavailable''), w1)"
    and nf: "fst (next_fault w1) = None"
  proof -
    let ?w1 = "empty_world\<lparr>db := insert_row ''s'' (human_message demo_request) (db empty_world)\<rparr>"
    have "file_agent_body failing_chat demo_request empty_world
            = (Inl (ProviderError ''upstream unavailable''), ?w1)"
      by code_simp
    moreover have "fst (next_fault ?w1) = None" by (simp add: empty_world_def world_of_def next_fault_def)
    ultimately show ?thesis using that by blast
  qed
  from file_agent_failure_apology [where chat = failing_chat, OF tok body nf] show ?thesis
    unfolding demo_request_def by (elim exE conjE) (intro exI conjI, simp_all)
qed

text \<open>
  C8. The apology is not best-effort: whatever raised inside the \<open>try\<close> block, if
  the store then fails on the apology, the exception of that \<open>store_message\<close>
  escapes the \<open>except\<close> branch and the endpoint answers HTTP 500 with its detail,
  not \<open>success=False\<close>; nothing more is stored.
\<close>

theorem apology_store_failure_escapes:
  assumes "verify_token expected cred = Inr True"
    and "file_agent_body chat req w = (Inl e, w1)"
    and "fst (next_fault w1) = Some err"
  shows "\<exists>w2. file_agent_endpoint expected cred chat req w
                = (HttpError 500 (''Failed to store message: '' @ err), w2)
           \<and> db w2 = db w1"
proof -
  obtain r w2 where rec: "file_agent_recover req e w1 = (r, w2)" by (metis prod.exhaust)
  with file_agent_recover_effects [OF rec] assms(3)
  have r: "r = Inl (HTTPException 500 (''Failed to store message: '' @ err))" and d: "db w2 = db w1"
    by auto
  have "file_agent chat req w = (r, w2)" using assms(2) rec by (simp add: file_agent_def)
  from serve_accepted [where h = "file_agent chat req", OF assms(1) this] r d show ?thesis
    by (simp add: file_agent_endpoint_def)
qed

theorem apology_store_failure_escapes_witness:
  "\<exists>w2. file_agent_endpoint (Some ''tok'') ''tok'' echo_chat demo_request
          (world_of empty_store [Some ''timeout'', Some ''connection refused''])
        = (HttpError 500 ''Failed to store message: connection refused'', w2)"
proof -
  have tok: "verify_token (Some ''tok'') ''tok'' = Inr True" by (simp add: verify_token_def)
  have body: "file_agent_body echo_chat demo_request (world_of empty_store [Some ''timeout'', Some ''connection refused''])
      = (Inl (HTTPException 500 ''Failed to fetch conversation history: timeout''),
         world_of empty_store [Some ''connection refused''])"
    by (simp add: file_agent_body_def fetch_conversation_history_def next_fault_def world_of_def ebind_def)
  have nf: "fst (next_fault (world_of (empty_store :: message store) [Some ''connection refused''])) = Some ''connection refused''"
    by (simp add: next_fault_def world_of_def)
  from apology_store_failure_escapes [where chat = echo_chat, OF tok body nf] show ?thesis by auto
qed

text \<open>
  C9. Authentication short-circuits: a request whose token the gate rejects gets 401
  or 500 and runs nothing else; the world (store, pending store outcomes, log) is
  exactly as before, so no history was read or written.
\<close>

theorem file_agent_auth_short_circuit:
  assumes "verify_token expected cred = Inl x"
  shows "file_agent_endpoint expected cred chat req w = (error_response x, w)
         \<and> (error_response x = HttpError 401 ''Invalid authentication token''
            \<or> error_response x = HttpError 500 ''API_BEARER_TOKEN environment variable not set'')"
  using serve_rejected [OF assms] verify_token_failures [OF assms]
  by (auto simp: file_agent_endpoint_def)

theorem file_agent_auth_short_circuit_witness:
  "file_agent_endpoint (Some ''tok'') ''nope'' echo_chat demo_request demo_world
     = (HttpError 401 ''Invalid authentication token'', demo_world)"
proof -
  have "verify_token (Some ''tok'') ''nope'' = Inl (HTTPException 401 ''Invalid authentication token'')"
    by (simp add: verify_token_def)
  from file_agent_auth_short_circuit [OF this] show ?thesis by simp
qed

text \<open>
  C10. Replay consistency: when a stored user message is replayed from the history, the
  content sent to the provider is exactly what was sent when that message was live
  (the files stored in its data are decoded and prepended again in the same way).
\<close>

theorem replay_matches_live:
  assumes "current_message req = Inr cur"
  shows "convert_message \<lparr>row_id = i, row_created = t, row_session = session_id req,
                          row_message = human_message req\<rparr> = Inr (''user'', cur)"
proof (cases "files_truthy (files req)")
  case True
  then obtain fs where fs: "files req = Some fs" "fs \<noteq> []"
    by (auto simp: files_truthy_def split: option.splits)
  with assms True obtain fc where fc: "process_files_to_string (files_json fs) = Inr fc"
    and cur: "cur = fc @ ''\<newline>\<newline>'' @ query req"
    by (auto simp: current_message_def split: sum.splits)
  from process_files_header [OF fc fs(2)] file_context_header_nonempty have "fc \<noteq> []" by auto
  with fs fc cur True show ?thesis
    by (simp add: convert_message_def make_message_def message_data_def)
next
  case False
  with assms show ?thesis
    by (simp add: convert_message_def make_message_def message_data_def current_message_def)
qed

theorem replay_matches_live_witness:
  "convert_message \<lparr>row_id = 1, row_created = 0, row_session = ''s'',
                     row_message = human_message demo_request\<rparr>
   = Inr (''user'', file_context_header
             @ ''1. a.txt:\<newline>\<newline>hello\<newline>\<newline>\<newline>\<newline>What is in the file?'')"
proof -
  have c: "current_message demo_request = Inr (file_context_header
             @ ''1. a.txt:\<newline>\<newline>hello\<newline>\<newline>\<newline>\<newline>What is in the file?'')"
    by code_simp
  from replay_matches_live [OF c, of 1 0] show ?thesis by (simp add: demo_request_def)
qed

end
