(* ===== verification/Json.thy ===== *)
theory Json
  imports Codecs
begin

text \<open>
  Python's \<open>json.dumps\<close> and \<open>json.loads\<close> with their default arguments, which the
  crawler (\<open>src/n8n-expert/ingest-n8n-workflows.py\<close>) and the Voiceflow service
  (\<open>src/~voiceflow-dialog-api-integration~/voiceflow_integration.py\<close>) call. They are
  standard-library functions, modelled after CPython's pure-Python implementation
  (\<open>json.encoder.py_encode_basestring_ascii\<close>, \<open>json.scanner\<close>,
  \<open>json.decoder.py_scanstring\<close>):
  \<^item> \<open>json_dumps\<close>: separators \<open>", "\<close> and \<open>": "\<close>, \<open>ensure_ascii=True\<close>
    (every character outside space to tilde, and the quote and backslash, escaped;
    code points above U+FFFF as surrogate pairs);
  \<^item> \<open>json_loads\<close>: whitespace around the value, strict strings (no raw control
    characters), the escapes of RFC 8259 including surrogate pairs, integers, \<open>true\<close>,
    \<open>false\<close>, \<open>null\<close>, arrays and objects (a repeated key keeps its first position
    and its last value, as a Python \<open>dict\<close> does); anything else, and trailing data,
    is a \<open>JSONDecodeError\<close> (\<open>None\<close>).
  Numbers with a fraction or an exponent and the extensions \<open>NaN\<close>/\<open>Infinity\<close>
  are Python floats, which the JSON model of the prelude does not have: the parser
  rejects them.

  The parser is a recursive descent over the characters with a fuel argument: every
  call spends one unit, and \<open>json_loads\<close> gives it twice the input length plus
  three, which is enough (each second call consumes a character).
\<close>

section \<open>Code points\<close>

text \<open>The code points of a \<open>str\<close> held as UTF-8 (well-formed, see the prelude).\<close>

fun utf8_cps :: "nat list \<Rightarrow> nat list" where
  "utf8_cps [] = []"
| "utf8_cps (b # bs) =
     (if b < 0x80 then b # utf8_cps bs
      else if b < 0xE0 then
        (case bs of c1 # r \<Rightarrow> ((b mod 32) * 64 + c1 mod 64) # utf8_cps r | [] \<Rightarrow> [b])
      else if b < 0xF0 then
        (case bs of c1 # c2 # r \<Rightarrow> ((b mod 16) * 4096 + (c1 mod 64) * 64 + c2 mod 64) # utf8_cps r
         | _ \<Rightarrow> b # utf8_cps bs)
      else
        (case bs of c1 # c2 # c3 # r \<Rightarrow>
            ((b mod 8) * 262144 + (c1 mod 64) * 4096 + (c2 mod 64) * 64 + c3 mod 64) # utf8_cps r
         | _ \<Rightarrow> b # utf8_cps bs))"

definition code_points :: "string \<Rightarrow> nat list" where
  "code_points s = utf8_cps (map of_char s)"

text \<open>UTF-8 encoding of one code point (lone surrogates encoded as three bytes).\<close>

definition cp_utf8 :: "nat \<Rightarrow> string" where
  "cp_utf8 c =
     map char_of
       (if c < 0x80 then [c]
        else if c < 0x800 then [0xC0 + c div 64, 0x80 + c mod 64]
        else if c < 0x10000 then [0xE0 + c div 4096, 0x80 + (c div 64) mod 64, 0x80 + c mod 64]
        else [0xF0 + c div 262144, 0x80 + (c div 4096) mod 64, 0x80 + (c div 64) mod 64,
              0x80 + c mod 64])"

section \<open>json.dumps\<close>

definition hex4 :: "nat \<Rightarrow> string" where
  "hex4 n = [hex_digit (n div 4096 mod 16), hex_digit (n div 256 mod 16),
             hex_digit (n div 16 mod 16), hex_digit (n mod 16)]"

text \<open>\<open>py_encode_basestring_ascii\<close>, one code point at a time.\<close>

definition escape_cp :: "nat \<Rightarrow> string" where
  "escape_cp n =
     (if n = 0x5C then [CHR 0x5C, CHR 0x5C]
      else if n = 0x22 then [CHR 0x5C, CHR 0x22]
      else if n = 0x08 then [CHR 0x5C, CHR ''b''] else if n = 0x0C then [CHR 0x5C, CHR ''f'']
      else if n = 0x0A then [CHR 0x5C, CHR ''n''] else if n = 0x0D then [CHR 0x5C, CHR ''r'']
      else if n = 0x09 then [CHR 0x5C, CHR ''t'']
      else if 0x20 \<le> n \<and> n \<le> 0x7E then [char_of n]
      else if n < 0x10000 then [CHR 0x5C, CHR ''u''] @ hex4 n
      else (let m = n - 0x10000 in
            [CHR 0x5C, CHR ''u''] @ hex4 (0xD800 + m div 1024)
            @ [CHR 0x5C, CHR ''u''] @ hex4 (0xDC00 + m mod 1024)))"

definition json_quote :: "string \<Rightarrow> string" where
  "json_quote s = CHR 0x22 # concat (map escape_cp (code_points s)) @ [CHR 0x22]"

fun json_dumps :: "json \<Rightarrow> string" where
  "json_dumps JNull = ''null''"
| "json_dumps (JBool b) = (if b then ''true'' else ''false'')"
| "json_dumps (JInt i) = int_str i"
| "json_dumps (JStr s) = json_quote s"
| "json_dumps (JArr xs) = ''['' @ py_join '', '' (map json_dumps xs) @ '']''"
| "json_dumps (JObj kvs) =
     ''{'' @ py_join '', '' (map (\<lambda>(k, v). json_quote k @ '': '' @ json_dumps v) kvs) @ ''}''"

section \<open>json.loads\<close>

definition is_ws :: "char \<Rightarrow> bool" where
  "is_ws c \<longleftrightarrow> c = CHR '' '' \<or> c = CHR 0x09 \<or> c = CHR 0x0A \<or> c = CHR 0x0D"

definition skip_ws :: "string \<Rightarrow> string" where
  "skip_ws s = dropWhile is_ws s"

definition hex_val :: "char \<Rightarrow> nat option" where
  "hex_val c =
     (let n = of_char c :: nat in
      if 48 \<le> n \<and> n \<le> 57 then Some (n - 48)
      else if 97 \<le> n \<and> n \<le> 102 then Some (n - 87)
      else if 65 \<le> n \<and> n \<le> 70 then Some (n - 55)
      else None)"

definition hex4_val :: "string \<Rightarrow> nat option" where
  "hex4_val s =
     (if length s < 4 then None
      else case (hex_val (s ! 0), hex_val (s ! 1), hex_val (s ! 2), hex_val (s ! 3)) of
             (Some a, Some b, Some c, Some d) \<Rightarrow> Some (a * 4096 + b * 256 + c * 16 + d)
           | _ \<Rightarrow> None)"

text \<open>
  One escape after a backslash (the body of \<open>py_scanstring\<close>'s escape branch with
  \<open>_decode_uXXXX\<close>): the decoded text (as UTF-8) and the rest. A high surrogate
  followed by \<open>\u\<close> needs four hex digits there too and is combined with a low
  surrogate; a lone surrogate is kept.
\<close>

definition scan_escape :: "string \<Rightarrow> (string \<times> string) option" where
  "scan_escape cs =
     (case cs of
        [] \<Rightarrow> None
      | e # r \<Rightarrow>
          (if e = CHR 0x22 then Some ([CHR 0x22], r)
           else if e = CHR 0x5C then Some ([CHR 0x5C], r)
           else if e = CHR ''/'' then Some ([CHR ''/''], r)
           else if e = CHR ''b'' then Some ([CHR 0x08], r)
           else if e = CHR ''f'' then Some ([CHR 0x0C], r)
           else if e = CHR ''n'' then Some ([CHR 0x0A], r)
           else if e = CHR ''r'' then Some ([CHR 0x0D], r)
           else if e = CHR ''t'' then Some ([CHR 0x09], r)
           else if e = CHR ''u'' then
             (case hex4_val r of
                None \<Rightarrow> None
              | Some u \<Rightarrow>
                  (let r1 = drop 4 r in
                   if 0xD800 \<le> u \<and> u \<le> 0xDBFF \<and> take 2 r1 = [CHR 0x5C, CHR ''u'']
                   then (case hex4_val (drop 2 r1) of
                           None \<Rightarrow> None
                         | Some u2 \<Rightarrow>
                             if 0xDC00 \<le> u2 \<and> u2 \<le> 0xDFFF
                             then Some (cp_utf8 (0x10000 + (u - 0xD800) * 1024 + (u2 - 0xDC00)), drop 6 r1)
                             else Some (cp_utf8 u, r1))
                   else Some (cp_utf8 u, r1)))
           else None))"

text \<open>
  \<open>py_scanstring\<close> after the opening quote: the decoded text (as UTF-8) and the
  rest after the closing quote; raw control characters are rejected (strict mode).
\<close>

function scan_string :: "string \<Rightarrow> string \<Rightarrow> (string \<times> string) option" where
  "scan_string [] acc = None"
| "scan_string (c # cs) acc =
     (if c = CHR 0x22 then Some (acc, cs)
      else if of_char c < (0x20::nat) then None
      else if c \<noteq> CHR 0x5C then scan_string cs (acc @ [c])
      else (case scan_escape cs of None \<Rightarrow> None | Some (d, r) \<Rightarrow> scan_string r (acc @ d)))"
  by pat_completeness auto
termination
  by (relation "measure (\<lambda>(s, acc). length s)")
     (auto simp: scan_escape_def Let_def hex4_val_def split: list.splits if_splits option.splits)

text \<open>\<open>NUMBER_RE\<close> for an integer: \<open>-?(0|[1-9][0-9]*)\<close>, not followed by a fraction or exponent.\<close>

definition is_digit :: "char \<Rightarrow> bool" where
  "is_digit c \<longleftrightarrow> (48::nat) \<le> of_char c \<and> of_char c \<le> (57::nat)"

definition digits_val :: "string \<Rightarrow> nat" where
  "digits_val ds = foldl (\<lambda>n d. 10 * n + (of_char d - 48)) (0::nat) ds"

definition scan_int :: "string \<Rightarrow> (json \<times> string) option" where
  "scan_int s =
     (let neg = (take 1 s = ''-''); s1 = (if neg then drop 1 s else s);
          ds = (if take 1 s1 = ''0'' then ''0'' else takeWhile is_digit s1);
          r = drop (length ds) s1
      in if ds = [] then None
         else if take 1 r = ''.'' \<or> take 1 r = ''e'' \<or> take 1 r = ''E'' then None
         else Some (JInt (if neg then - int (digits_val ds) else int (digits_val ds)), r))"

datatype 'a presult = POk 'a | PFail | PNoFuel

text \<open>Setting a key of a dictionary being built: the first position, the last value.\<close>

definition dict_set :: "dict \<Rightarrow> string \<Rightarrow> json \<Rightarrow> dict" where
  "dict_set d k v = (if k \<in> set (map fst d) then map (\<lambda>(k', v'). if k' = k then (k, v) else (k', v')) d
                     else d @ [(k, v)])"

text \<open>
  \<open>parse_value\<close> at the start of a value (whitespace skipped);
  \<open>parse_array f acc s\<close> at the start of an element, \<open>parse_object f acc s\<close> at the
  start of a key; both after at least one element or at the first one.
\<close>

fun parse_value :: "nat \<Rightarrow> string \<Rightarrow> (json \<times> string) presult"
and parse_array :: "nat \<Rightarrow> json list \<Rightarrow> string \<Rightarrow> (json \<times> string) presult"
and parse_object :: "nat \<Rightarrow> dict \<Rightarrow> string \<Rightarrow> (json \<times> string) presult" where
  "parse_value 0 s = PNoFuel"
| "parse_value (Suc f) s =
     (case s of
        [] \<Rightarrow> PFail
      | c # r \<Rightarrow>
          if c = CHR 0x22 then (case scan_string r [] of None \<Rightarrow> PFail | Some (t, r') \<Rightarrow> POk (JStr t, r'))
          else if c = CHR ''{'' then
            (case skip_ws r of
               c2 # r2 \<Rightarrow> if c2 = CHR ''}'' then POk (JObj [], r2) else parse_object f [] (c2 # r2)
             | [] \<Rightarrow> PFail)
          else if c = CHR ''['' then
            (case skip_ws r of
               c2 # r2 \<Rightarrow> if c2 = CHR '']'' then POk (JArr [], r2) else parse_array f [] (c2 # r2)
             | [] \<Rightarrow> PFail)
          else if take 4 s = ''null'' then POk (JNull, drop 4 s)
          else if take 4 s = ''true'' then POk (JBool True, drop 4 s)
          else if take 5 s = ''false'' then POk (JBool False, drop 5 s)
          else (case scan_int s of None \<Rightarrow> PFail | Some (v, r') \<Rightarrow> POk (v, r')))"
| "parse_array 0 acc s = PNoFuel"
| "parse_array (Suc f) acc s =
     (case parse_value f s of
        POk (v, r) \<Rightarrow>
          (case skip_ws r of
             c # r' \<Rightarrow>
               if c = CHR '','' then parse_array f (acc @ [v]) (skip_ws r')
               else if c = CHR '']'' then POk (JArr (acc @ [v]), r')
               else PFail
           | [] \<Rightarrow> PFail)
      | PFail \<Rightarrow> PFail
      | PNoFuel \<Rightarrow> PNoFuel)"
| "parse_object 0 acc s = PNoFuel"
| "parse_object (Suc f) acc s =
     (case s of
        c # r \<Rightarrow>
          if c \<noteq> CHR 0x22 then PFail
          else (case scan_string r [] of
                  None \<Rightarrow> PFail
                | Some (k, r1) \<Rightarrow>
                    (case skip_ws r1 of
                       c1 # r2 \<Rightarrow>
                         if c1 \<noteq> CHR '':'' then PFail
                         else (case parse_value f (skip_ws r2) of
                                 POk (v, r3) \<Rightarrow>
                                   (case skip_ws r3 of
                                      c3 # r4 \<Rightarrow>
                                        if c3 = CHR '','' then parse_object f (dict_set acc k v) (skip_ws r4)
                                        else if c3 = CHR ''}'' then POk (JObj (dict_set acc k v), r4)
                                        else PFail
                                    | [] \<Rightarrow> PFail)
                               | PFail \<Rightarrow> PFail
                               | PNoFuel \<Rightarrow> PNoFuel)
                     | [] \<Rightarrow> PFail))
      | [] \<Rightarrow> PFail)"

text \<open>\<open>json.loads(s)\<close>: \<open>None\<close> is a \<open>JSONDecodeError\<close>.\<close>

definition json_loads :: "string \<Rightarrow> json option" where
  "json_loads s =
     (case parse_value (2 * length s + 3) (skip_ws s) of
        POk (v, r) \<Rightarrow> if skip_ws r = [] then Some v else None
      | _ \<Rightarrow> None)"

section \<open>Lemmas: consumption and fuel\<close>

text \<open>Every successful scan or parse consumes input.\<close>

lemma scan_escape_shorter: "scan_escape cs = Some (d, r) \<Longrightarrow> length r < length cs"
  by (auto simp: scan_escape_def Let_def hex4_val_def split: list.splits if_splits option.splits)

lemma scan_string_shorter: "scan_string s acc = Some (t, r) \<Longrightarrow> length r < length s"
proof (induction s acc rule: scan_string.induct)
  case (1 acc)
  then show ?case by simp
next
  case (2 c cs acc)
  then show ?case
    by (auto split: if_splits option.splits)
       (metis less_SucI order.strict_trans scan_escape_shorter)
qed

lemma scan_int_shorter: "scan_int s = Some (v, r) \<Longrightarrow> length r < length s"
  by (cases s) (auto simp: scan_int_def Let_def split: if_splits)

lemma length_skip_ws: "length (skip_ws s) \<le> length s"
  by (simp add: skip_ws_def length_dropWhile_le)

lemma skip_ws_Cons_shorter: "skip_ws s = c # r \<Longrightarrow> length r < length s"
  using length_skip_ws [of s] by simp

lemma parse_shorter:
  "parse_value f s = POk (v, r) \<Longrightarrow> length r < length s"
  "parse_array f acc s = POk (v, r) \<Longrightarrow> length r < length s"
  "parse_object f d s = POk (v, r) \<Longrightarrow> length r < length s"
proof (induction f s and f acc s and f d s arbitrary: v r and v r and v r
       rule: parse_value_parse_array_parse_object.induct)
  case (2 f s)
  obtain c s' where s: "s = c # s'" using "2.prems" by (cases s) auto
  consider (obj) c2 r2 where "c = CHR ''{''" "skip_ws s' = c2 # r2" "c2 \<noteq> CHR ''}''"
      "parse_object f [] (c2 # r2) = POk (v, r)"
    | (arr) c2 r2 where "c = CHR ''[''" "skip_ws s' = c2 # r2" "c2 \<noteq> CHR '']''"
      "parse_array f [] (c2 # r2) = POk (v, r)"
    | (leaf) "length r < length s"
    using "2.prems" s
    by (auto split: list.splits if_splits option.splits prod.splits
        dest!: scan_string_shorter scan_int_shorter skip_ws_Cons_shorter)
  then show ?case
  proof cases
    case obj
    then have "length r < length (c2 # r2)" using "2.IH"(1) s by auto
    then show ?thesis using obj(2) s skip_ws_Cons_shorter [OF obj(2)] by simp
  next
    case arr
    then have "length r < length (c2 # r2)" using "2.IH"(2) s by auto
    then show ?thesis using arr(2) s skip_ws_Cons_shorter [OF arr(2)] by simp
  qed
next
  case (4 f acc s)
  obtain v1 r1 where pv: "parse_value f s = POk (v1, r1)"
    using "4.prems" by (auto split: presult.splits)
  have l1: "length r1 < length s" using "4.IH"(1) [OF pv] .
  obtain c r' where sk: "skip_ws r1 = c # r'"
    using "4.prems" pv by (auto split: list.splits)
  show ?case
  proof (cases "c = CHR '',''")
    case True
    then have "parse_array f (acc @ [v1]) (skip_ws r') = POk (v, r)"
      using "4.prems" pv sk by simp
    then have "length r < length (skip_ws r')"
      using "4.IH"(2) pv sk True by blast
    with length_skip_ws [of r'] skip_ws_Cons_shorter [OF sk] l1 show ?thesis by linarith
  next
    case False
    then have "r = r'" using "4.prems" pv sk by (auto split: if_splits)
    with skip_ws_Cons_shorter [OF sk] l1 show ?thesis by simp
  qed
next
  case (6 f d s)
  obtain k r1 where s: "s = CHR 0x22 # tl s" and sc: "scan_string (tl s) [] = Some (k, r1)"
    using "6.prems" by (cases s) (auto split: if_splits option.splits)
  then have l1: "length r1 < length s" using scan_string_shorter [OF sc] by (cases s) auto
  obtain c1 r2 where sk1: "skip_ws r1 = c1 # r2" and colon: "c1 = CHR '':''"
    using "6.prems" s sc by (cases s) (auto split: list.splits if_splits)
  obtain v1 r3 where pv: "parse_value f (skip_ws r2) = POk (v1, r3)"
    using "6.prems" s sc sk1 colon by (cases s) (auto split: presult.splits)
  have l3: "length r3 < length (skip_ws r2)"
    using "6.IH"(1) s sc sk1 colon pv by blast
  obtain c3 r4 where sk3: "skip_ws r3 = c3 # r4"
    using "6.prems" s sc sk1 colon pv by (cases s) (auto split: list.splits)
  have chain: "length r4 < length s"
    using skip_ws_Cons_shorter [OF sk3] l3 length_skip_ws [of r2] skip_ws_Cons_shorter [OF sk1] l1
    by linarith
  show ?case
  proof (cases "c3 = CHR '',''")
    case True
    then have "parse_object f (dict_set d k v1) (skip_ws r4) = POk (v, r)"
      using "6.prems" s sc sk1 colon pv sk3 by (cases s) auto
    then have "length r < length (skip_ws r4)"
      using "6.IH"(2) s sc sk1 colon pv sk3 True by blast
    with length_skip_ws [of r4] chain show ?thesis by linarith
  next
    case False
    then have "r = r4" using "6.prems" s sc sk1 colon pv sk3 by (cases s) (auto split: if_splits)
    with chain show ?thesis by simp
  qed
qed simp_all

lemma parse_enough:
  "2 * length s < f \<Longrightarrow> parse_value f s \<noteq> PNoFuel"
  "2 * length s + 1 < f \<Longrightarrow> parse_array f acc s \<noteq> PNoFuel"
  "2 * length s + 1 < f \<Longrightarrow> parse_object f d s \<noteq> PNoFuel"
proof (induction f s and f acc s and f d s rule: parse_value_parse_array_parse_object.induct)
  case (2 f s)
  show ?case
  proof (cases s)
    case Nil
    then show ?thesis by simp
  next
    case (Cons c s')
    show ?thesis
    proof (cases "c = CHR ''{'' \<or> c = CHR ''[''")
      case False
      then show ?thesis using Cons by (simp split: option.split prod.split)
    next
      case True
      show ?thesis
      proof (cases "skip_ws s'")
        case Nil
        then show ?thesis using Cons True by auto
      next
        case Cons2: (Cons c2 r2)
        have len: "2 * length (c2 # r2) + 1 < f"
          using "2.prems" Cons skip_ws_Cons_shorter [OF Cons2] length_skip_ws [of s'] Cons2 by simp
        show ?thesis
        proof (cases "c = CHR ''{''")
          case obj: True
          show ?thesis
          proof (cases "c2 = CHR ''}''")
            case False
            then have "parse_object f [] (c2 # r2) \<noteq> PNoFuel" using "2.IH"(1) [of c s' c2 r2] Cons Cons2 len obj False by blast
            then show ?thesis using Cons Cons2 obj False by simp
          qed (use Cons Cons2 obj in simp)
        next
          case False
          with True have arr: "c = CHR ''[''" by simp
          show ?thesis
          proof (cases "c2 = CHR '']''")
            case c2: False
            then have "parse_array f [] (c2 # r2) \<noteq> PNoFuel" using "2.IH"(2) [of c s' c2 r2] Cons Cons2 len arr False c2 by blast
            then show ?thesis using Cons Cons2 arr False c2 by simp
          qed (use Cons Cons2 arr False in simp)
        qed
      qed
    qed
  qed
next
  case (4 f acc s)
  have "parse_value f s \<noteq> PNoFuel" using "4.IH"(1) "4.prems" by simp
  then consider (fail) "parse_value f s = PFail" | (ok) v1 r1 where "parse_value f s = POk (v1, r1)"
    by (cases "parse_value f s") auto
  then show ?case
  proof cases
    case fail
    then show ?thesis by simp
  next
    case ok
    have l1: "length r1 < length s" using parse_shorter(1) [OF ok] .
    show ?thesis
    proof (cases "skip_ws r1")
      case Nil
      then show ?thesis using ok by simp
    next
      case (Cons c r')
      have "2 * length (skip_ws r') + 1 < f"
        using "4.prems" l1 skip_ws_Cons_shorter [OF Cons] length_skip_ws [of r'] by linarith
      show ?thesis
      proof (cases "c = CHR '',''")
        case True
        with \<open>2 * length (skip_ws r') + 1 < f\<close>
        have "parse_array f (acc @ [v1]) (skip_ws r') \<noteq> PNoFuel"
          using "4.IH"(2) ok Cons by blast
        then show ?thesis using ok Cons True by simp
      qed (use ok Cons in simp)
    qed
  qed
next
  case (6 f d s)
  show ?case
  proof (cases "parse_object (Suc f) d s = PNoFuel")
    case True
    then obtain k r1 where s: "s = CHR 0x22 # tl s" and sc: "scan_string (tl s) [] = Some (k, r1)"
      by (cases s) (auto split: if_splits option.splits)
    then have l1: "length r1 < length s" using scan_string_shorter [OF sc] by (cases s) auto
    obtain c1 r2 where sk1: "skip_ws r1 = c1 # r2" and colon: "c1 = CHR '':''"
      using True s sc by (cases s) (auto split: list.splits if_splits)
    have "2 * length (skip_ws r2) < f"
      using "6.prems" l1 skip_ws_Cons_shorter [OF sk1] length_skip_ws [of r2] by linarith
    then have pv: "parse_value f (skip_ws r2) \<noteq> PNoFuel"
      using "6.IH"(1) s sc sk1 colon by blast
    have "\<exists>v1 r3 c3 r4. parse_value f (skip_ws r2) = POk (v1, r3) \<and> skip_ws r3 = c3 # r4
            \<and> c3 = CHR '','' \<and> parse_object f (dict_set d k v1) (skip_ws r4) = PNoFuel"
      using True s sc sk1 colon pv by (cases s) (auto split: presult.splits list.splits if_splits)
    then obtain v1 r3 c3 r4 where ok: "parse_value f (skip_ws r2) = POk (v1, r3)"
      and sk3: "skip_ws r3 = c3 # r4" and comma: "c3 = CHR '',''"
      and nf: "parse_object f (dict_set d k v1) (skip_ws r4) = PNoFuel" by blast
    have "2 * length (skip_ws r4) + 1 < f"
      using "6.prems" l1 skip_ws_Cons_shorter [OF sk1] length_skip_ws [of r2] parse_shorter(1) [OF ok]
            skip_ws_Cons_shorter [OF sk3] length_skip_ws [of r4] by linarith
    then have "parse_object f (dict_set d k v1) (skip_ws r4) \<noteq> PNoFuel"
      using "6.IH"(2) s sc sk1 colon ok sk3 comma by blast
    with nf show ?thesis by simp
  qed
qed simp_all

text \<open>The fuel of \<open>json_loads\<close> is enough: its parse is never cut short.\<close>

lemma json_loads_fuel_enough: "parse_value (2 * length s + 3) (skip_ws s) \<noteq> PNoFuel"
proof -
  have "2 * length (skip_ws s) < 2 * length s + 3" using length_skip_ws [of s] by simp
  then show ?thesis by (rule parse_enough(1))
qed

end
