(* ===== verification/Crawler.thy ===== *)
theory Crawler
  imports Json
begin

text \<open>
  The catalog crawler, \<open>src/n8n-expert/ingest-n8n-workflows.py\<close>: a batch loop over
  the template ids \<open>1..2500\<close> of the public n8n API that asks an LLM whether each
  fetched template is legitimate, summarises the legitimate ones three times, embeds
  the summaries and inserts one row per template into the \<open>workflows\<close> table.

  The external services are inputs of the model, collected in \<open>crawl_api\<close>: the
  template API (\<open>fetch_workflow\<close>: the decoded body of a 200 answer, \<open>None\<close> for
  any other status, or the exception \<open>requests\<close> raised), the LLM (\<open>llm\<close>: prompt
  to completion text, or an exception), the embedding model, and whether the insert of
  a given row raises. \<open>crawl_state\<close> holds the loop's counter
  \<open>consecutive_failures\<close>, the rows inserted, the ids fetched, the delays slept and
  the printed lines. An exception that escapes \<open>main\<close> ends the run (\<open>Inl\<close>).
\<close>

record 'v crawl_api =
  fetch_workflow :: "nat \<Rightarrow> exc + json option"
  llm :: "string \<Rightarrow> exc + string"
  embed_query :: "string \<Rightarrow> exc + 'v list"
  insert_fault :: "nat \<Rightarrow> string option"

text \<open>One row of the \<open>workflows\<close> table, as \<open>store_in_supabase\<close> builds it.\<close>

record 'v catalog_row =
  workflow_id :: nat
  workflow_name :: string
  workflow_description :: string
  workflow_json :: string
  n8n_demo :: "string option"
  summary_accomplishment :: string
  summary_nodes :: string
  summary_suggestions :: string
  embedding :: "'v list"
  content :: string
  metadata :: json

record 'v crawl_state =
  consecutive_failures :: nat
  catalog :: "'v catalog_row list"
  fetched :: "nat list"
  sleeps :: nat
  printed :: "string list"

definition crawl_init :: "'v crawl_state" where
  "crawl_init = \<lparr>consecutive_failures = 0, catalog = [], fetched = [], sleeps = 0, printed = []\<rparr>"

definition max_id :: nat where "max_id = 2500"
definition max_consecutive_failures :: nat where "max_consecutive_failures = 1000"

section \<open>Prompts\<close>

definition apos :: string where "apos = [CHR 0x27]"

definition legitimacy_prompt :: "string \<Rightarrow> string" where
  "legitimacy_prompt wj =
     ''\<newline>    You are an expert in n8n workflows. Analyze the following workflow JSON and determine if it''
     @ apos @ ''s a legitimate workflow or a test/spam one.\<newline>    Output only GOOD if it''
     @ apos @ ''s a legitimate workflow, or BAD if it'' @ apos @ ''s a test/spam workflow.\<newline>\<newline>''
     @ ''    Workflow JSON:\<newline>    '' @ wj @ ''\<newline>\<newline>    Output (GOOD/BAD):\<newline>    ''"

definition summary_prompts :: "string \<Rightarrow> string list" where
  "summary_prompts wj =
     [''\<newline>        Summarize what the following n8n workflow is accomplishing:\<newline>        ''
        @ wj @ ''\<newline>        Summary:\<newline>        '',
      ''\<newline>        Summarize all the nodes used in the following n8n workflow and how they are connected:\<newline>        ''
        @ wj @ ''\<newline>        Summary:\<newline>        '',
      ''\<newline>        Based on the following n8n workflow, suggest similar workflows that could be made using this as an example. \<newline>''
        @ ''        Consider different services but similar setups, and ways the workflow could be expanded:\<newline>        ''
        @ wj @ ''\<newline>        Suggestions:\<newline>        '']"

section \<open>The helper functions\<close>

text \<open>\<open>check_workflow_legitimacy\<close>: the completion, stripped.\<close>

definition check_workflow_legitimacy :: "'v crawl_api \<Rightarrow> string \<Rightarrow> exc + string" where
  "check_workflow_legitimacy api info =
     (case llm api (legitimacy_prompt info) of Inl e \<Rightarrow> Inl e | Inr out \<Rightarrow> Inr (py_strip out))"

text \<open>\<open>analyze_workflow\<close>: the three summaries, in order; the first exception escapes.\<close>

fun llm_all :: "'v crawl_api \<Rightarrow> string list \<Rightarrow> exc + string list" where
  "llm_all api [] = Inr []"
| "llm_all api (p # ps) =
     (case llm api p of
        Inl e \<Rightarrow> Inl e
      | Inr r \<Rightarrow> (case llm_all api ps of Inl e \<Rightarrow> Inl e | Inr rs \<Rightarrow> Inr (r # rs)))"

definition analyze_workflow :: "'v crawl_api \<Rightarrow> string \<Rightarrow> exc + string list" where
  "analyze_workflow api info = llm_all api (summary_prompts info)"

text \<open>
  \<open>process_workflow\<close>: the embeddable snippet, or \<open>None\<close> when the data does not hold
  \<open>['workflow']['workflow']\<close>.
\<close>

definition n8n_demo_snippet :: "json \<Rightarrow> string" where
  "n8n_demo_snippet w =
     ''<n8n-demo workflow='' @ apos @ py_replace (json_dumps w) apos ([CHR 0x5C] @ apos) @ apos
     @ ''></n8n-demo>''"

definition process_workflow :: "json \<Rightarrow> exc + string option" where
  "process_workflow data =
     (if \<not> json_truthy data then Inr None
      else case py_contains data ''workflow'' of
        Inl e \<Rightarrow> Inl e
      | Inr False \<Rightarrow> Inr None
      | Inr True \<Rightarrow>
          (case json_index data ''workflow'' of
             Inl e \<Rightarrow> Inl e
           | Inr inner \<Rightarrow>
               (case py_contains inner ''workflow'' of
                  Inl e \<Rightarrow> Inl e
                | Inr False \<Rightarrow> Inr None
                | Inr True \<Rightarrow>
                    (case json_index inner ''workflow'' of
                       Inl e \<Rightarrow> Inl e
                     | Inr w \<Rightarrow> Inr (Some (n8n_demo_snippet w))))))"

text \<open>\<open>store_in_supabase\<close>: the row, built around the embedding of the joined summaries.\<close>

definition build_row ::
  "nat \<Rightarrow> string \<Rightarrow> string \<Rightarrow> string \<Rightarrow> string option \<Rightarrow> string list \<Rightarrow> 'v list \<Rightarrow> json
   \<Rightarrow> 'v catalog_row" where
  "build_row wid name descr wj demo summaries emb loaded =
     \<lparr>workflow_id = wid, workflow_name = name, workflow_description = descr,
      workflow_json = wj, n8n_demo = demo,
      summary_accomplishment = summaries ! 0, summary_nodes = summaries ! 1,
      summary_suggestions = summaries ! 2, embedding = emb,
      content = py_join ''\<newline>\<newline>'' summaries,
      metadata = JObj [(''workflow_id'', JInt (int wid)), (''workflow_name'', JStr name),
                       (''workflow_description'', JStr descr),
                       (''n8n_demo'', case demo of None \<Rightarrow> JNull | Some d \<Rightarrow> JStr d),
                       (''workflow_json'', loaded)]\<rparr>"

definition store_in_supabase ::
  "'v crawl_api \<Rightarrow> nat \<Rightarrow> string \<Rightarrow> string \<Rightarrow> string \<Rightarrow> string option \<Rightarrow> string list
   \<Rightarrow> ('v crawl_state, exc, unit) eff" where
  "store_in_supabase api wid name descr wj demo summaries s =
     (case embed_query api (py_join ''\<newline>\<newline>'' summaries) of
        Inl e \<Rightarrow> (Inl e, s)
      | Inr emb \<Rightarrow>
          if length summaries < 3 then (Inl (IndexError ''list index out of range''), s)
          else (case json_loads wj of
             None \<Rightarrow> (Inl (JSONDecodeError ''Expecting value''), s)
           | Some loaded \<Rightarrow>
               (case insert_fault api wid of
                  Some err \<Rightarrow> (Inl (ProviderError err), s)
                | None \<Rightarrow> (Inr (), s\<lparr>catalog := catalog s @ [build_row wid name descr wj demo summaries emb loaded]\<rparr>))))"

section \<open>The main loop\<close>

definition say :: "string \<Rightarrow> ('v crawl_state, exc, unit) eff" where
  "say line s = (Inr (), s\<lparr>printed := printed s @ [line]\<rparr>)"

definition sleep_half_second :: "('v crawl_state, exc, unit) eff" where
  "sleep_half_second s = (Inr (), s\<lparr>sleeps := Suc (sleeps s)\<rparr>)"

text \<open>Lines 221--231: a template judged \<open>GOOD\<close> is processed, summarised and stored.\<close>

definition store_legitimate ::
  "'v crawl_api \<Rightarrow> nat \<Rightarrow> json \<Rightarrow> string \<Rightarrow> string \<Rightarrow> string \<Rightarrow> string
   \<Rightarrow> ('v crawl_state, exc, unit) eff" where
  "store_legitimate api wid d name descr wj info =
     ebind (elift (process_workflow d)) (\<lambda>demo.
     ebind (elift (analyze_workflow api info)) (\<lambda>summaries.
     ebind (say (''ID: '' @ nat_str wid)) (\<lambda>_.
     ebind (say (case demo of None \<Rightarrow> ''None'' | Some x \<Rightarrow> x)) (\<lambda>_.
     ebind (\<lambda>s. (Inr (), s\<lparr>printed := printed s @ summaries @ [[]]\<rparr>)) (\<lambda>_.
     store_in_supabase api wid name descr wj demo summaries)))))"

text \<open>
  Lines 206--208: \<open>workflow_data['workflow']\<close> and its \<open>name\<close>,
  \<open>description\<close> and \<open>workflow\<close>, in the order the source reads them.
\<close>

definition extract_fields :: "json \<Rightarrow> exc + json \<times> json \<times> json" where
  "extract_fields d =
     (case json_index d ''workflow'' of
        Inl e \<Rightarrow> Inl e
      | Inr wfo \<Rightarrow>
          (case json_index wfo ''name'' of
             Inl e \<Rightarrow> Inl e
           | Inr nm \<Rightarrow>
               (case json_index wfo ''description'' of
                  Inl e \<Rightarrow> Inl e
                | Inr ds \<Rightarrow>
                    (case json_index wfo ''workflow'' of
                       Inl e \<Rightarrow> Inl e
                     | Inr graph \<Rightarrow> Inr (nm, ds, graph)))))"

text \<open>Line 209, over the JSON texts of the three fields.\<close>

definition workflow_info :: "string \<Rightarrow> string \<Rightarrow> string \<Rightarrow> string" where
  "workflow_info name descr wj =
     ''Name: '' @ name @ ''\<newline>Description: '' @ descr @ ''\<newline>\<newline>JSON:\<newline>'' @ wj"

text \<open>The judgement of a fetched template, as line 216 asks it.\<close>

definition judge_template :: "'v crawl_api \<Rightarrow> json \<times> json \<times> json \<Rightarrow> exc + string" where
  "judge_template api f =
     (case f of (nm, ds, graph) \<Rightarrow>
        check_workflow_legitimacy api (workflow_info (json_dumps nm) (json_dumps ds) (json_dumps graph)))"

text \<open>
  Lines 206--233 for a fetched template: the fields, the judgement, the processing of a
  legitimate one, the reset of the counter. An exception of the judgement takes the
  \<open>continue\<close> of line 218: neither the reset of line 233 nor the delay of line 240
  happens, and the loop goes on.
\<close>

definition judged_step ::
  "'v crawl_api \<Rightarrow> nat \<Rightarrow> json \<Rightarrow> string \<Rightarrow> string \<Rightarrow> string \<Rightarrow> string \<Rightarrow> string
   \<Rightarrow> ('v crawl_state, exc, bool) eff" where
  "judged_step api wid d name descr wj info legitimacy =
     ebind (say legitimacy) (\<lambda>_.
     ebind (if legitimacy = ''GOOD'' then store_legitimate api wid d name descr wj info
            else ereturn ()) (\<lambda>_.
     ebind (\<lambda>s. (Inr (), s\<lparr>consecutive_failures := 0\<rparr>)) (\<lambda>_.
     ebind sleep_half_second (\<lambda>_. ereturn False))))"

definition fetched_step :: "'v crawl_api \<Rightarrow> nat \<Rightarrow> json \<Rightarrow> ('v crawl_state, exc, bool) eff" where
  "fetched_step api wid d =
     ebind (elift (extract_fields d)) (\<lambda>(nm, ds, graph).
       let name = json_dumps nm; descr = json_dumps ds; wj = json_dumps graph;
           info = workflow_info name descr wj
       in case check_workflow_legitimacy api info of
            Inl _ \<Rightarrow> ereturn False
          | Inr legitimacy \<Rightarrow> judged_step api wid d name descr wj info legitimacy)"

text \<open>Lines 234--240 for a failed fetch: count, and stop at the threshold.\<close>

definition failed_step :: "('v crawl_state, exc, bool) eff" where
  "failed_step =
     ebind (\<lambda>s. (Inr (), s\<lparr>consecutive_failures := Suc (consecutive_failures s)\<rparr>)) (\<lambda>_ s.
       if max_consecutive_failures \<le> consecutive_failures s then
         ebind (say (''Reached '' @ nat_str max_consecutive_failures
                     @ '' consecutive failures. Stopping.'')) (\<lambda>_. ereturn True) s
       else ebind sleep_half_second (\<lambda>_. ereturn False) s)"

text \<open>
  One iteration of the \<open>for\<close> loop of \<open>main\<close> (lines 203--240), returning whether
  the loop stops (\<open>break\<close>).
\<close>

definition crawl_step :: "'v crawl_api \<Rightarrow> nat \<Rightarrow> ('v crawl_state, exc, bool) eff" where
  "crawl_step api wid s =
     (let s' = s\<lparr>fetched := fetched s @ [wid]\<rparr> in
      case fetch_workflow api wid of
        Inl e \<Rightarrow> (Inl e, s')
      | Inr None \<Rightarrow> failed_step s'
      | Inr (Some d) \<Rightarrow> if json_truthy d then fetched_step api wid d s' else failed_step s')"

text \<open>The loop over a list of ids: \<open>Inr True\<close> when it left by \<open>break\<close>.\<close>

fun crawl_loop :: "'v crawl_api \<Rightarrow> nat list \<Rightarrow> ('v crawl_state, exc, bool) eff" where
  "crawl_loop api [] s = (Inr False, s)"
| "crawl_loop api (i # is) s =
     (case crawl_step api i s of
        (Inl e, s') \<Rightarrow> (Inl e, s')
      | (Inr True, s') \<Rightarrow> (Inr True, s')
      | (Inr False, s') \<Rightarrow> crawl_loop api is s')"

definition crawl_main :: "'v crawl_api \<Rightarrow> (exc + bool) \<times> 'v crawl_state" where
  "crawl_main api = crawl_loop api [1..<Suc max_id] crawl_init"

text \<open>The property the safety claim is about: the template with this id was judged \<open>GOOD\<close>.\<close>

definition judged_good :: "'v crawl_api \<Rightarrow> nat \<Rightarrow> bool" where
  "judged_good api wid =
     (case fetch_workflow api wid of
        Inr (Some d) \<Rightarrow> json_truthy d \<and>
          (case extract_fields d of Inr f \<Rightarrow> judge_template api f = Inr ''GOOD'' | Inl _ \<Rightarrow> False)
      | _ \<Rightarrow> False)"

section \<open>Lemmas\<close>

lemma crawl_loop_append:
  "crawl_loop api (xs @ ys) s =
     (case crawl_loop api xs s of (Inr False, s') \<Rightarrow> crawl_loop api ys s' | r \<Rightarrow> r)"
  by (induction xs arbitrary: s) (auto split: prod.splits sum.splits bool.splits)

lemma failed_step_eq:
  "failed_step s =
     (if max_consecutive_failures \<le> Suc (consecutive_failures s)
      then (Inr True, s\<lparr>consecutive_failures := Suc (consecutive_failures s),
                        printed := printed s @ [''Reached '' @ nat_str max_consecutive_failures
                                                @ '' consecutive failures. Stopping.'']\<rparr>)
      else (Inr False, s\<lparr>consecutive_failures := Suc (consecutive_failures s),
                         sleeps := Suc (sleeps s)\<rparr>))"
  by (simp add: failed_step_def say_def sleep_half_second_def ebind_def)

lemma crawl_step_not_fetched:
  "fetch_workflow api wid = Inr None \<Longrightarrow>
   crawl_step api wid s = failed_step (s\<lparr>fetched := fetched s @ [wid]\<rparr>)"
  by (simp add: crawl_step_def)

lemma crawl_loop_all_fail:
  assumes "\<forall>i \<in> set xs. fetch_workflow api i = Inr None"
    and "consecutive_failures s + length xs < max_consecutive_failures"
  shows "crawl_loop api xs s =
           (Inr False, s\<lparr>consecutive_failures := consecutive_failures s + length xs,
                          fetched := fetched s @ xs, sleeps := sleeps s + length xs\<rparr>)"
  using assms
proof (induction xs arbitrary: s)
  case Nil
  then show ?case by simp
next
  case (Cons i xs)
  let ?s1 = "s\<lparr>consecutive_failures := Suc (consecutive_failures s), fetched := fetched s @ [i],
              sleeps := Suc (sleeps s)\<rparr>"
  have "crawl_step api i s = (Inr False, ?s1)"
    using Cons.prems by (simp add: crawl_step_not_fetched failed_step_eq)
  moreover have "crawl_loop api xs ?s1 =
      (Inr False, ?s1\<lparr>consecutive_failures := consecutive_failures ?s1 + length xs,
                     fetched := fetched ?s1 @ xs, sleeps := sleeps ?s1 + length xs\<rparr>)"
    using Cons.prems by (intro Cons.IH) auto
  ultimately show ?case by simp
qed

text \<open>What one iteration can do to the catalog: nothing, or one row for a \<open>GOOD\<close> template.\<close>

abbreviation row_fields :: "'v catalog_row \<Rightarrow> nat \<Rightarrow> string \<Rightarrow> string \<Rightarrow> string \<Rightarrow> bool" where
  "row_fields row wid name descr wj \<equiv>
     workflow_id row = wid \<and> workflow_name row = name \<and> workflow_description row = descr
     \<and> workflow_json row = wj"

lemma store_in_supabase_catalog:
  "store_in_supabase api wid name descr wj demo summaries s = (r, s') \<Longrightarrow>
     catalog s' = catalog s \<or> (\<exists>row. catalog s' = catalog s @ [row] \<and> row_fields row wid name descr wj)"
  by (auto simp: store_in_supabase_def build_row_def split: if_splits sum.splits option.splits)

lemma say_frame: "say l s = (r, s') \<Longrightarrow> catalog s' = catalog s \<and> fetched s' = fetched s"
  by (auto simp: say_def)

lemma store_legitimate_catalog:
  "store_legitimate api wid d name descr wj info s = (r, s') \<Longrightarrow>
     catalog s' = catalog s \<or> (\<exists>row. catalog s' = catalog s @ [row] \<and> row_fields row wid name descr wj)"
  unfolding store_legitimate_def
  by (fastforce dest!: ebind_result elift_result say_frame store_in_supabase_catalog)

lemma store_legitimate_fetched:
  "store_legitimate api wid d name descr wj info s = (r, s') \<Longrightarrow> fetched s' = fetched s"
  unfolding store_legitimate_def
  by (auto dest!: ebind_result elift_result say_frame
      simp: store_in_supabase_def split: if_splits sum.splits option.splits)

lemma judged_step_catalog:
  assumes run: "judged_step api wid d name descr wj info leg s = (r, s')"
  shows "fetched s' = fetched s
         \<and> (catalog s' = catalog s
            \<or> (\<exists>row. catalog s' = catalog s @ [row] \<and> row_fields row wid name descr wj \<and> leg = ''GOOD''))"
proof -
  let ?s1 = "s\<lparr>printed := printed s @ [leg]\<rparr>"
  have j: "judged_step api wid d name descr wj info leg s =
      ebind (if leg = ''GOOD'' then store_legitimate api wid d name descr wj info else ereturn ())
        (\<lambda>_. ebind (\<lambda>s. (Inr (), s\<lparr>consecutive_failures := 0\<rparr>))
               (\<lambda>_. ebind sleep_half_second (\<lambda>_. ereturn False))) ?s1"
    by (simp add: judged_step_def say_def)
  show ?thesis
  proof (cases "leg = ''GOOD''")
    case True
    obtain r2 s2 where st: "store_legitimate api wid d name descr wj info ?s1 = (r2, s2)"
      by (metis prod.exhaust)
    from store_legitimate_catalog [OF st] store_legitimate_fetched [OF st] run j True st
    show ?thesis
      by (cases r2) (auto simp: ebind_def sleep_half_second_def)
  next
    case False
    with run j show ?thesis by (auto simp: ebind_def sleep_half_second_def)
  qed
qed

lemma fetched_step_catalog:
  assumes "fetched_step api wid d s = (r, s')"
  shows "fetched s' = fetched s
         \<and> (catalog s' = catalog s
            \<or> (\<exists>row nm ds g. catalog s' = catalog s @ [row]
                   \<and> row_fields row wid (json_dumps nm) (json_dumps ds) (json_dumps g)
                   \<and> extract_fields d = Inr (nm, ds, g) \<and> judge_template api (nm, ds, g) = Inr ''GOOD''))"
proof (cases "extract_fields d")
  case (Inl e)
  with assms show ?thesis by (simp add: fetched_step_def)
next
  case (Inr f)
  obtain nm ds g where f: "f = (nm, ds, g)" by (cases f) auto
  let ?info = "workflow_info (json_dumps nm) (json_dumps ds) (json_dumps g)"
  show ?thesis
  proof (cases "check_workflow_legitimacy api ?info")
    case (Inl e)
    with assms Inr f show ?thesis by (simp add: fetched_step_def)
  next
    case (Inr leg)
    with assms \<open>extract_fields d = Inr f\<close> f
    have "judged_step api wid d (json_dumps nm) (json_dumps ds) (json_dumps g) ?info leg s = (r, s')"
      by (simp add: fetched_step_def Let_def)
    from judged_step_catalog [OF this] Inr \<open>extract_fields d = Inr f\<close> f show ?thesis
      by (auto simp: judge_template_def)
  qed
qed

lemma failed_step_frame: "failed_step s = (r, s') \<Longrightarrow> catalog s' = catalog s \<and> fetched s' = fetched s"
  by (auto simp: failed_step_eq split: if_splits)

lemma crawl_step_effects:
  assumes "crawl_step api wid s = (r, s')"
  shows "fetched s' = fetched s @ [wid]
         \<and> (catalog s' = catalog s
            \<or> (\<exists>row. catalog s' = catalog s @ [row] \<and> workflow_id row = wid \<and> judged_good api wid))"
  using assms
  by (auto simp: crawl_step_def judged_good_def Let_def dest!: failed_step_frame fetched_step_catalog
      split: sum.splits option.splits if_splits)

lemma crawl_loop_effects:
  assumes "crawl_loop api xs s = (r, s')"
  shows "\<exists>k \<le> length xs. fetched s' = fetched s @ take k xs
           \<and> length (catalog s') \<le> length (catalog s) + k
           \<and> (\<forall>row \<in> set (catalog s'). row \<in> set (catalog s) \<or> judged_good api (workflow_id row))"
  using assms
proof (induction xs arbitrary: s)
  case Nil
  then show ?case by simp
next
  case (Cons i xs)
  obtain r1 s1 where st: "crawl_step api i s = (r1, s1)" by (metis prod.exhaust)
  from crawl_step_effects [OF st] have f1: "fetched s1 = fetched s @ [i]"
    and c1: "catalog s1 = catalog s \<or>
             (\<exists>row. catalog s1 = catalog s @ [row] \<and> workflow_id row = i \<and> judged_good api i)"
    by auto
  have c1': "length (catalog s1) \<le> Suc (length (catalog s))
      \<and> (\<forall>row \<in> set (catalog s1). row \<in> set (catalog s) \<or> judged_good api (workflow_id row))"
    using c1 by auto
  show ?case
  proof (cases "r1 = Inr False")
    case True
    with st Cons.prems have "crawl_loop api xs s1 = (r, s')" by simp
    from Cons.IH [OF this] obtain k where "k \<le> length xs" and "fetched s' = fetched s1 @ take k xs"
      and "length (catalog s') \<le> length (catalog s1) + k"
      and "\<forall>row \<in> set (catalog s'). row \<in> set (catalog s1) \<or> judged_good api (workflow_id row)"
      by blast
    with f1 c1' show ?thesis
      by (intro exI [of _ "Suc k"]) auto
  next
    case False
    with st Cons.prems have "s' = s1"
      by (auto split: sum.splits bool.splits)
    with f1 c1' show ?thesis
      by (intro exI [of _ 1]) auto
  qed
qed

text \<open>A fetched template whose judgement raises: the iteration only records the fetch.\<close>

lemma crawl_step_judge_exception:
  assumes "fetch_workflow api wid = Inr (Some d)" and "json_truthy d"
    and "extract_fields d = Inr f" and "judge_template api f = Inl e"
  shows "crawl_step api wid s = (Inr False, s\<lparr>fetched := fetched s @ [wid]\<rparr>)"
proof -
  obtain nm ds g where f: "f = (nm, ds, g)" by (cases f) auto
  with assms show ?thesis
    by (simp add: crawl_step_def fetched_step_def judge_template_def Let_def)
qed

lemma upt_1000_split: "[1..<Suc max_id] = [1..<1000] @ [1000, 1001] @ [1002..<Suc max_id]"
proof -
  have a: "[1..<Suc max_id] = [1..<1000] @ [1000..<Suc max_id]"
    using upt_add_eq_append [of 1 1000 1501] by (simp add: max_id_def)
  have b: "[1000..<Suc max_id] = 1000 # [1001..<Suc max_id]"
    using upt_conv_Cons [of 1000 "Suc max_id"] by (simp add: max_id_def)
  have c: "[1001..<Suc max_id] = 1001 # [1002..<Suc max_id]"
    using upt_conv_Cons [of 1001 "Suc max_id"] by (simp add: max_id_def)
  show ?thesis by (simp only: a b c append_Cons append_Nil)
qed

lemma upt_1001: "[Suc 0..<1001] = [Suc 0..<1000] @ [1000::nat]"
  using upt_Suc_append [of "Suc 0" 1000] by simp

definition failing_api :: "nat crawl_api" where
  "failing_api = \<lparr>fetch_workflow = (\<lambda>i. Inr None), llm = (\<lambda>p. Inr ''GOOD''),
                  embed_query = (\<lambda>t. Inr []), insert_fault = (\<lambda>i. None)\<rparr>"

definition demo_template :: "string \<Rightarrow> json" where
  "demo_template n = JObj [(''workflow'', JObj [(''name'', JStr n), (''description'', JStr ''Sends mail''),
                      (''workflow'', JObj [(''nodes'', JArr [JStr ''Gmail''])])])]"

text \<open>An API whose only template (id 1000) makes the LLM client raise.\<close>

definition flaky_judge_api :: "nat crawl_api" where
  "flaky_judge_api = \<lparr>fetch_workflow = (\<lambda>i. if i = 1000 then Inr (Some (demo_template ''Flow'')) else Inr None),
                      llm = (\<lambda>p. Inl (ProviderError ''rate limited'')),
                      embed_query = (\<lambda>t. Inr []), insert_fault = (\<lambda>i. None)\<rparr>"

definition good_api :: "nat crawl_api" where
  "good_api = \<lparr>fetch_workflow = (\<lambda>i. Inr (Some (demo_template ''Send email''))),
               llm = (\<lambda>p. Inr '' GOOD''), embed_query = (\<lambda>t. Inr [length t]),
               insert_fault = (\<lambda>i. None)\<rparr>"

lemma upt_split_at:
  assumes "1 \<le> k" and "k \<le> max_id"
  shows "[1..<Suc max_id] = [1..<k] @ [k] @ [Suc k..<Suc max_id]"
proof -
  have "[1..<Suc max_id] = [1..<k] @ [k..<Suc max_id]"
    using assms upt_add_eq_append [of 1 k "Suc max_id - k"] by simp
  moreover have "[k..<Suc max_id] = k # [Suc k..<Suc max_id]"
    using assms by (simp add: upt_conv_Cons)
  ultimately show ?thesis by simp
qed

lemma crawl_loop_catalog_prefix:
  "crawl_loop api xs s = (r, s') \<Longrightarrow> \<exists>ys. catalog s' = catalog s @ ys"
proof (induction xs arbitrary: s)
  case Nil
  then show ?case by simp
next
  case (Cons i xs)
  obtain r1 s1 where st: "crawl_step api i s = (r1, s1)" by (metis prod.exhaust)
  from crawl_step_effects [OF st] obtain zs where c1: "catalog s1 = catalog s @ zs"
    by (metis append.right_neutral)
  show ?case
  proof (cases "r1 = Inr False")
    case True
    with st Cons.prems have "crawl_loop api xs s1 = (r, s')" by simp
    from Cons.IH [OF this] c1 show ?thesis by auto
  next
    case False
    with st Cons.prems have "s' = s1" by (auto split: sum.splits bool.splits)
    with c1 show ?thesis by blast
  qed
qed

lemma crawl_main_trace:
  assumes "crawl_main api = (r, s)"
  shows "\<exists>k \<le> max_id. fetched s = [1..<Suc k] \<and> length (catalog s) \<le> k
           \<and> (\<forall>row \<in> set (catalog s). judged_good api (workflow_id row))"
proof -
  have "crawl_loop api [1..<Suc max_id] crawl_init = (r, s)"
    using assms by (simp only: crawl_main_def)
  from crawl_loop_effects [OF this]
  obtain k where k: "k \<le> max_id" and f: "fetched s = take k [1..<Suc max_id]"
    and c: "length (catalog s) \<le> k"
    and g: "\<forall>row \<in> set (catalog s). judged_good api (workflow_id row)"
    by (auto simp: crawl_init_def simp del: upt_Suc)
  from k have "take k [1..<Suc max_id] = [1..<Suc k]" by (simp add: take_upt del: upt_Suc)
  with k f c g show ?thesis by auto
qed

text \<open>The counter after one iteration: a judged template resets it, a judgement that raises keeps it.\<close>

lemma judged_step_counter:
  assumes run: "judged_step api wid d name descr wj info leg s = (Inr b, s')"
  shows "\<not> b \<and> consecutive_failures s' = 0"
proof -
  let ?s1 = "s\<lparr>printed := printed s @ [leg]\<rparr>"
  have j: "judged_step api wid d name descr wj info leg s =
      ebind (if leg = ''GOOD'' then store_legitimate api wid d name descr wj info else ereturn ())
        (\<lambda>_. ebind (\<lambda>s. (Inr (), s\<lparr>consecutive_failures := 0\<rparr>))
               (\<lambda>_. ebind sleep_half_second (\<lambda>_. ereturn False))) ?s1"
    by (simp add: judged_step_def say_def)
  show ?thesis
  proof (cases "leg = ''GOOD''")
    case True
    obtain r2 s2 where st: "store_legitimate api wid d name descr wj info ?s1 = (r2, s2)"
      by (metis prod.exhaust)
    with run j True show ?thesis
      by (cases r2) (auto simp: ebind_def sleep_half_second_def ereturn_def)
  next
    case False
    with run j show ?thesis by (auto simp: ebind_def sleep_half_second_def ereturn_def)
  qed
qed

lemma fetched_step_counter:
  assumes "fetched_step api wid d s = (Inr b, s')"
  shows "\<not> b \<and> (consecutive_failures s' = 0 \<or> consecutive_failures s' = consecutive_failures s)"
proof (cases "extract_fields d")
  case (Inl e)
  with assms show ?thesis by (simp add: fetched_step_def)
next
  case (Inr f)
  obtain nm ds g where f: "f = (nm, ds, g)" by (cases f) auto
  let ?info = "workflow_info (json_dumps nm) (json_dumps ds) (json_dumps g)"
  show ?thesis
  proof (cases "check_workflow_legitimacy api ?info")
    case (Inl e)
    with assms Inr f show ?thesis by (simp add: fetched_step_def ereturn_def)
  next
    case (Inr leg)
    with assms \<open>extract_fields d = Inr f\<close> f
    have "judged_step api wid d (json_dumps nm) (json_dumps ds) (json_dumps g) ?info leg s = (Inr b, s')"
      by (simp add: fetched_step_def Let_def)
    from judged_step_counter [OF this] show ?thesis by simp
  qed
qed

lemma crawl_step_counter:
  assumes "crawl_step api wid s = (Inr b, s')"
    and "consecutive_failures s < max_consecutive_failures"
  shows "if b then consecutive_failures s' = max_consecutive_failures
         else consecutive_failures s' < max_consecutive_failures"
proof -
  let ?s = "s\<lparr>fetched := fetched s @ [wid]\<rparr>"
  have fail: "failed_step ?s = (Inr b, s') \<Longrightarrow> ?thesis"
    using assms(2) by (auto simp: failed_step_eq split: if_splits)
  have fetch: "\<And>d. fetched_step api wid d ?s = (Inr b, s') \<Longrightarrow> ?thesis"
    using assms(2) by (auto dest: fetched_step_counter)
  show ?thesis
    using assms(1) fail fetch by (auto simp: crawl_step_def Let_def split: sum.splits option.splits if_splits)
qed

lemma crawl_loop_outcome:
  "crawl_loop api xs s = (Inr b, s') \<Longrightarrow> consecutive_failures s < max_consecutive_failures \<Longrightarrow>
   if b then consecutive_failures s' = max_consecutive_failures else fetched s' = fetched s @ xs"
proof (induction xs arbitrary: s)
  case Nil
  then show ?case by simp
next
  case (Cons i xs)
  obtain r1 s1 where st: "crawl_step api i s = (r1, s1)" by (metis prod.exhaust)
  have f1: "fetched s1 = fetched s @ [i]" using crawl_step_effects [OF st] by simp
  show ?case
  proof (cases r1)
    case (Inl e)
    with st Cons.prems(1) show ?thesis by simp
  next
    case (Inr b1)
    note c1 = crawl_step_counter [OF st [unfolded Inr] Cons.prems(2)]
    show ?thesis
    proof (cases b1)
      case True
      with st Cons.prems(1) Inr c1 show ?thesis by auto
    next
      case False
      with st Cons.prems(1) Inr have "crawl_loop api xs s1 = (Inr b, s')" by simp
      from Cons.IH [OF this] c1 False f1 show ?thesis by simp
    qed
  qed
qed

text \<open>The run of \<open>main\<close> when the fetches of the ids 1 to 1000 all fail.\<close>

lemma crawl_main_all_fail_1000:
  assumes "\<forall>i \<in> {1..1000}. fetch_workflow api i = Inr None"
  shows "\<exists>s. crawl_main api = (Inr True, s) \<and> fetched s = [1..<1001]
             \<and> catalog s = [] \<and> consecutive_failures s = 1000"
proof -
  let ?s = "crawl_init\<lparr>consecutive_failures := 999, fetched := [1..<1000], sleeps := 999\<rparr>"
  have "crawl_loop api [1..<1000] crawl_init = (Inr False, ?s)"
    using crawl_loop_all_fail [of "[1..<1000]" api crawl_init] assms
    by (simp add: crawl_init_def max_consecutive_failures_def)
  moreover have "crawl_step api 1000 ?s =
      (Inr True, ?s\<lparr>fetched := [1..<1001], consecutive_failures := 1000,
                   printed := [''Reached '' @ nat_str max_consecutive_failures
                               @ '' consecutive failures. Stopping.'']\<rparr>)"
    using assms by (simp add: crawl_step_not_fetched failed_step_eq max_consecutive_failures_def
        crawl_init_def upt_1001)
  moreover have "crawl_main api = crawl_loop api ([1..<1000] @ [1000, 1001] @ [1002..<Suc max_id]) crawl_init"
    by (simp only: crawl_main_def upt_1000_split)
  ultimately show ?thesis
    by (simp add: crawl_loop_append upt_1001 crawl_init_def)
qed

text \<open>The ids of the stored rows stay strictly increasing and among the ids fetched.\<close>

lemma crawl_loop_row_ids:
  assumes "crawl_loop api xs s = (r, s')" and "sorted_wrt (<) (fetched s @ xs)"
    and "sorted_wrt (<) (map workflow_id (catalog s))" and "set (map workflow_id (catalog s)) \<subseteq> set (fetched s)"
  shows "sorted_wrt (<) (map workflow_id (catalog s')) \<and> set (map workflow_id (catalog s')) \<subseteq> set (fetched s')"
  using assms
proof (induction xs arbitrary: s)
  case Nil
  then show ?case by simp
next
  case (Cons i xs)
  obtain r1 s1 where st: "crawl_step api i s = (r1, s1)" by (metis prod.exhaust)
  from crawl_step_effects [OF st] have f1: "fetched s1 = fetched s @ [i]"
    and c1: "catalog s1 = catalog s \<or> (\<exists>row. catalog s1 = catalog s @ [row] \<and> workflow_id row = i)"
    by auto
  have lt: "\<forall>j \<in> set (fetched s). j < i" using Cons.prems(2) by (simp add: sorted_wrt_append)
  have inv1: "sorted_wrt (<) (map workflow_id (catalog s1)) \<and> set (map workflow_id (catalog s1)) \<subseteq> set (fetched s1)"
    using c1
  proof
    assume "catalog s1 = catalog s"
    then show ?thesis using Cons.prems(3,4) f1 by auto
  next
    assume "\<exists>row. catalog s1 = catalog s @ [row] \<and> workflow_id row = i"
    then obtain row where row: "catalog s1 = catalog s @ [row]" "workflow_id row = i" by blast
    have "\<forall>j \<in> set (map workflow_id (catalog s)). j < i" using Cons.prems(4) lt by blast
    then show ?thesis using row Cons.prems(3,4) f1 by (auto simp: sorted_wrt_append)
  qed
  show ?case
  proof (cases "r1 = Inr False")
    case True
    with st Cons.prems(1) have "crawl_loop api xs s1 = (r, s')" by simp
    moreover have "sorted_wrt (<) (fetched s1 @ xs)" using Cons.prems(2) f1 by simp
    ultimately show ?thesis using Cons.IH inv1 by blast
  next
    case False
    with st Cons.prems(1) have "s' = s1" by (auto split: sum.splits bool.splits)
    with inv1 show ?thesis by simp
  qed
qed

text \<open>An id whose fetch raises ends the loop with that exception: it is the last id fetched.\<close>

lemma crawl_loop_fetch_raises:
  assumes "crawl_loop api xs s = (r, s')" and "distinct (fetched s @ xs)"
    and "k \<in> set (fetched s')" and "k \<notin> set (fetched s)" and "fetch_workflow api k = Inl e"
  shows "r = Inl e \<and> last (fetched s') = k"
  using assms
proof (induction xs arbitrary: s)
  case Nil
  then show ?case by simp
next
  case (Cons i xs)
  obtain r1 s1 where st: "crawl_step api i s = (r1, s1)" by (metis prod.exhaust)
  from crawl_step_effects [OF st] have f1: "fetched s1 = fetched s @ [i]" by simp
  show ?case
  proof (cases "i = k")
    case True
    with st Cons.prems(5) have "r1 = Inl e" by (simp add: crawl_step_def Let_def)
    with st Cons.prems(1) True f1 show ?thesis by simp
  next
    case False
    show ?thesis
    proof (cases "r1 = Inr False")
      case True
      with st Cons.prems(1) have "crawl_loop api xs s1 = (r, s')" by simp
      moreover have "distinct (fetched s1 @ xs)" using Cons.prems(2) f1 by simp
      moreover have "k \<notin> set (fetched s1)" using Cons.prems(4) False f1 by simp
      ultimately show ?thesis using Cons.IH Cons.prems(3,5) by blast
    next
      case r1: False
      with st Cons.prems(1) have "s' = s1" by (auto split: sum.splits bool.splits)
      with Cons.prems(3,4) False f1 show ?thesis by simp
    qed
  qed
qed

text \<open>The run when the fetches of the ids before \<open>k\<close> fail and that of \<open>k\<close> raises.\<close>

lemma crawl_main_raises_at:
  assumes "\<forall>i \<in> {1..<k}. fetch_workflow api i = Inr None" and "fetch_workflow api k = Inl e"
    and "1 \<le> k" and "k \<le> 1000"
  shows "\<exists>s. crawl_main api = (Inl e, s) \<and> fetched s = [1..<Suc k]"
proof -
  let ?s = "crawl_init\<lparr>consecutive_failures := k - 1, fetched := [1..<k], sleeps := k - 1\<rparr>"
  have l: "crawl_loop api [1..<k] crawl_init = (Inr False, ?s)"
    using crawl_loop_all_fail [of "[1..<k]" api crawl_init] assms
    by (simp add: crawl_init_def max_consecutive_failures_def)
  have st: "crawl_step api k ?s = (Inl e, ?s\<lparr>fetched := [1..<k] @ [k]\<rparr>)"
    using assms(2) by (simp add: crawl_step_def)
  have "crawl_main api = crawl_loop api ([1..<k] @ [k] @ [Suc k..<Suc max_id]) crawl_init"
    using upt_split_at [of k] assms(3,4) by (simp add: crawl_main_def max_id_def)
  with l st assms(3) show ?thesis
    by (simp add: crawl_loop_append)
qed

section \<open>Properties\<close>

text \<open>
  C12. The abort threshold, on the specification's example: when every fetch of the ids
  1 to 1000 fails, the run stops by \<open>break\<close> right after fetching id 1000, never
  fetching id 1001, with the counter at 1000 and nothing stored.
\<close>

theorem crawl_stops_after_1000_failures:
  assumes "\<forall>i \<in> {1..1000}. fetch_workflow api i = Inr None"
  shows "\<exists>s. crawl_main api = (Inr True, s) \<and> fetched s = [1..<1001]
             \<and> catalog s = [] \<and> consecutive_failures s = 1000"
  using assms by (rule crawl_main_all_fail_1000)

theorem crawl_stops_after_1000_failures_witness:
  "\<exists>s. crawl_main failing_api = (Inr True, s) \<and> fetched s = [1..<1001]"
  using crawl_stops_after_1000_failures [of failing_api] by (auto simp: failing_api_def)

text \<open>
  C13. A fetched template that is judged (with any verdict) resets the consecutive
  failure counter and is followed by the delay; a verdict other than \<open>GOOD\<close>
  stores nothing and only prints the verdict.
\<close>

theorem judged_fetch_resets_counter:
  assumes "fetch_workflow api wid = Inr (Some d)" and "json_truthy d"
    and "extract_fields d = Inr f" and "judge_template api f = Inr leg" and "leg \<noteq> ''GOOD''"
  shows "crawl_step api wid s =
           (Inr False, s\<lparr>fetched := fetched s @ [wid], printed := printed s @ [leg],
                          consecutive_failures := 0, sleeps := Suc (sleeps s)\<rparr>)"
proof -
  obtain nm ds g where f: "f = (nm, ds, g)" by (cases f) auto
  with assms show ?thesis
    by (simp add: crawl_step_def fetched_step_def judged_step_def judge_template_def Let_def
        say_def sleep_half_second_def ebind_def)
qed

theorem judged_fetch_resets_counter_witness:
  "crawl_step (good_api\<lparr>llm := (\<lambda>p. Inr ''BAD'')\<rparr>) 7 crawl_init =
     (Inr False, crawl_init\<lparr>fetched := [7], printed := [''BAD''], consecutive_failures := 0,
                             sleeps := 1\<rparr>)"
proof -
  let ?api = "good_api\<lparr>llm := (\<lambda>p. Inr ''BAD'')\<rparr>"
  have f: "fetch_workflow ?api 7 = Inr (Some (demo_template ''Send email''))"
    by (simp add: good_api_def)
  have t: "json_truthy (demo_template ''Send email'')" by (simp add: demo_template_def)
  have e: "extract_fields (demo_template ''Send email'') =
      Inr (JStr ''Send email'', JStr ''Sends mail'', JObj [(''nodes'', JArr [JStr ''Gmail''])])"
    by (simp add: extract_fields_def demo_template_def dict_get_def)
  have j: "judge_template ?api (JStr ''Send email'', JStr ''Sends mail'', JObj [(''nodes'', JArr [JStr ''Gmail''])])
      = Inr ''BAD''"
    by (simp add: judge_template_def check_workflow_legitimacy_def good_api_def) code_simp
  from judged_fetch_resets_counter [OF f t e j] show ?thesis
    by (simp add: crawl_init_def)
qed

text \<open>
  C14. A fetched template whose judgement raises does not reset the failure counter
  (nor sleep): after 999 failed fetches, a template fetched at id 1000 whose LLM call
  raises, and a failed fetch at id 1001, the run stops at id 1001 with the counter at
  1000, although a fetch succeeded in between.
\<close>

theorem judge_exception_keeps_counter:
  "\<exists>s. crawl_main flaky_judge_api = (Inr True, s) \<and> fetched s = [1..<1002]
       \<and> consecutive_failures s = 1000 \<and> sleeps s = 999"
proof -
  let ?s = "crawl_init\<lparr>consecutive_failures := 999, fetched := [1..<1000], sleeps := 999\<rparr> :: nat crawl_state"
  have l: "crawl_loop flaky_judge_api [1..<1000] crawl_init = (Inr False, ?s)"
    using crawl_loop_all_fail [of "[1..<1000]" flaky_judge_api crawl_init]
    by (simp add: crawl_init_def max_consecutive_failures_def flaky_judge_api_def)
  have e: "extract_fields (demo_template ''Flow'') =
      Inr (JStr ''Flow'', JStr ''Sends mail'', JObj [(''nodes'', JArr [JStr ''Gmail''])])"
    by (simp add: extract_fields_def demo_template_def dict_get_def)
  have s1000: "crawl_step flaky_judge_api 1000 ?s = (Inr False, ?s\<lparr>fetched := fetched ?s @ [1000]\<rparr>)"
    by (rule crawl_step_judge_exception [OF _ _ e])
       (simp_all add: flaky_judge_api_def demo_template_def judge_template_def
         check_workflow_legitimacy_def)
  have s1001: "crawl_step flaky_judge_api 1001 (?s\<lparr>fetched := fetched ?s @ [1000]\<rparr>) =
      (Inr True, ?s\<lparr>fetched := [1..<1000] @ [1000, 1001], consecutive_failures := 1000,
                    printed := [''Reached '' @ nat_str max_consecutive_failures
                                @ '' consecutive failures. Stopping.'']\<rparr>)"
    by (simp add: crawl_step_not_fetched flaky_judge_api_def failed_step_eq
        max_consecutive_failures_def crawl_init_def)
  have m: "crawl_main flaky_judge_api =
      crawl_loop flaky_judge_api ([1..<1000] @ [1000, 1001] @ [1002..<Suc max_id]) crawl_init"
    by (simp only: crawl_main_def upt_1000_split)
  have u: "[Suc 0..<1002] = [Suc 0..<1000] @ [1000, 1001::nat]"
    using upt_Suc_append [of "Suc 0" 1001] upt_1001 by simp
  from m l s1000 s1001 u show ?thesis
    by (simp add: crawl_loop_append crawl_init_def)
qed

text \<open>
  C15. Only templates judged \<open>GOOD\<close> are stored: every row of the catalog after a
  run (whether it ended normally, by \<open>break\<close> or by an exception) belongs to an id
  whose template was fetched, was truthy, had its fields, and was judged \<open>GOOD\<close>.
\<close>

theorem catalog_rows_judged_good:
  "crawl_main api = (r, s) \<Longrightarrow> \<forall>row \<in> set (catalog s). judged_good api (workflow_id row)"
  using crawl_main_trace by blast

theorem catalog_rows_judged_good_witness:
  "(\<exists>row \<in> set (catalog (snd (crawl_main good_api))). workflow_id row = 1)
   \<and> judged_good good_api 1"
proof -
  obtain r1 s1 where st: "crawl_step good_api 1 crawl_init = (r1, s1)" by (metis prod.exhaust)
  have "fst (crawl_step good_api 1 crawl_init) = Inr False
        \<and> map workflow_id (catalog (snd (crawl_step good_api 1 crawl_init))) = [1]"
    by code_simp
  then have ev: "r1 = Inr False \<and> map workflow_id (catalog s1) = [1]"
    using st by simp
  have "(1::nat) \<le> max_id" by (simp add: max_id_def)
  then have "[1..<Suc max_id] = 1 # [Suc 1..<Suc max_id]"
    using upt_split_at [of 1] by simp
  then have "crawl_main good_api = crawl_loop good_api (1 # [Suc 1..<Suc max_id]) crawl_init"
    by (simp only: crawl_main_def)
  then have "crawl_loop good_api [Suc 1..<Suc max_id] s1
      = (fst (crawl_main good_api), snd (crawl_main good_api))"
    using st ev by simp
  from crawl_loop_catalog_prefix [OF this] ev
  have in1: "\<exists>row \<in> set (catalog (snd (crawl_main good_api))). workflow_id row = 1"
    by (cases "catalog s1") auto
  then obtain row where "row \<in> set (catalog (snd (crawl_main good_api)))" and "workflow_id row = 1"
    by blast
  with catalog_rows_judged_good [of good_api "fst (crawl_main good_api)" "snd (crawl_main good_api)"]
  show ?thesis using in1 by auto
qed

text \<open>
  C16. The loop visits the ids in order, each at most once, and stops only by
  \<open>break\<close>, an exception or the end of the range: the ids fetched are exactly
  \<open>1..k\<close> for some \<open>k \<le> 2500\<close>; the ids of the stored rows are strictly increasing,
  so at most one row is stored per id, and each of them was fetched.
\<close>

theorem crawl_trace_prefix:
  assumes "crawl_main api = (r, s)"
  shows "\<exists>k \<le> max_id. fetched s = [1..<Suc k]
           \<and> sorted_wrt (<) (map workflow_id (catalog s))
           \<and> set (map workflow_id (catalog s)) \<subseteq> set (fetched s)"
proof -
  have "crawl_loop api [1..<Suc max_id] crawl_init = (r, s)"
    using assms by (simp only: crawl_main_def)
  from crawl_loop_row_ids [OF this] have "sorted_wrt (<) (map workflow_id (catalog s))
      \<and> set (map workflow_id (catalog s)) \<subseteq> set (fetched s)"
    by (simp add: crawl_init_def sorted_wrt_iff_nth_less del: upt_Suc)
  with crawl_main_trace [OF assms] show ?thesis by blast
qed

theorem crawl_trace_prefix_witness:
  "\<exists>k \<le> max_id. fetched (snd (crawl_main failing_api)) = [1..<Suc k]
     \<and> sorted_wrt (<) (map workflow_id (catalog (snd (crawl_main failing_api))))"
  using crawl_trace_prefix [of failing_api "fst (crawl_main failing_api)" "snd (crawl_main failing_api)"]
  by auto

text \<open>
  C17. What an iteration stores is the JSON encoding of the fetched fields (lines
  206--208 apply \<open>json.dumps\<close> to each): whenever an iteration adds a row, the
  template of that id was fetched with its fields, and the row's
  \<open>workflow_name\<close>, \<open>workflow_description\<close> and \<open>workflow_json\<close> are
  \<open>json.dumps\<close> of them, so a name is stored with its double quotes.
\<close>

theorem stored_name_is_json_encoded:
  assumes "crawl_step api wid s = (r, s')" and "catalog s' \<noteq> catalog s"
  shows "\<exists>d nm ds g row. fetch_workflow api wid = Inr (Some d) \<and> extract_fields d = Inr (nm, ds, g)
           \<and> catalog s' = catalog s @ [row]
           \<and> row_fields row wid (json_dumps nm) (json_dumps ds) (json_dumps g)"
proof -
  let ?s = "s\<lparr>fetched := fetched s @ [wid]\<rparr>"
  obtain d where d: "fetch_workflow api wid = Inr (Some d)" and t: "json_truthy d"
    and f: "fetched_step api wid d ?s = (r, s')"
    using assms failed_step_frame [of ?s r s']
    by (auto simp: crawl_step_def Let_def split: sum.splits option.splits if_splits)
  from fetched_step_catalog [OF f] assms(2) d show ?thesis by auto
qed

theorem stored_name_is_json_encoded_witness:
  "catalog (snd (crawl_step good_api 7 crawl_init)) \<noteq> catalog (crawl_init :: nat crawl_state)
   \<and> workflow_name (last (catalog (snd (crawl_step good_api 7 crawl_init))))
       = json_dumps (JStr ''Send email'')"
proof -
  have c: "map workflow_name (catalog (snd (crawl_step good_api 7 crawl_init))) = [json_dumps (JStr ''Send email'')]"
    by code_simp
  then have ne: "catalog (snd (crawl_step good_api 7 crawl_init)) \<noteq> catalog (crawl_init :: nat crawl_state)"
    by (auto simp: crawl_init_def)
  from stored_name_is_json_encoded [OF prod.collapse [symmetric] ne] c show ?thesis
    by (auto simp: good_api_def demo_template_def extract_fields_def dict_get_def)
qed

text \<open>
  C18. A fetch that raises (a network error, a body that is not JSON) is neither
  skipped nor counted, whatever happened before it: if the run fetched an id whose
  fetch raises, the run ended with that exception and that id was the last one
  fetched.
\<close>

theorem fetch_exception_aborts_run:
  assumes "crawl_main api = (r, s)" and "k \<in> set (fetched s)" and "fetch_workflow api k = Inl e"
  shows "r = Inl e \<and> fetched s = [1..<Suc k]"
proof -
  have l: "crawl_loop api [1..<Suc max_id] crawl_init = (r, s)"
    using assms(1) by (simp only: crawl_main_def)
  have "r = Inl e \<and> last (fetched s) = k"
    using crawl_loop_fetch_raises [OF l _ assms(2) _ assms(3)] by (simp add: crawl_init_def del: upt_Suc)
  moreover obtain k' where "fetched s = [1..<Suc k']" using crawl_main_trace [OF assms(1)] by blast
  moreover have "1 \<le> k'" using calculation(2) assms(2) by (cases k') auto
  ultimately show ?thesis by simp
qed

theorem fetch_exception_aborts_run_witness:
  "fst (crawl_main (failing_api\<lparr>fetch_workflow := (\<lambda>i. if i = 3 then Inl (ProviderError ''ConnectionError'')
                                                       else Inr None)\<rparr>))
     = Inl (ProviderError ''ConnectionError'')"
proof -
  let ?api = "failing_api\<lparr>fetch_workflow := (\<lambda>i. if i = 3 then Inl (ProviderError ''ConnectionError'')
                                                  else Inr None)\<rparr>"
  obtain s where run: "crawl_main ?api = (Inl (ProviderError ''ConnectionError''), s)" and f: "fetched s = [1..<4]"
    using crawl_main_raises_at [of 3 ?api "ProviderError ''ConnectionError''"] by (auto simp: failing_api_def)
  have "3 \<in> set (fetched s)" using f by simp
  from fetch_exception_aborts_run [OF run this] run show ?thesis by simp
qed

text \<open>
  C29. Progress of the crawl: a run of \<open>main\<close> that ends without an exception has
  either fetched every id of \<open>range(1, max_id + 1)\<close>, in order, or left the loop by
  \<open>break\<close> with the counter at the threshold; no id is skipped in between.
\<close>

theorem crawl_visits_every_id:
  assumes "crawl_main api = (Inr b, s)"
  shows "if b then consecutive_failures s = max_consecutive_failures else fetched s = [1..<Suc max_id]"
proof -
  have c0: "consecutive_failures (crawl_init :: 'v crawl_state) < max_consecutive_failures"
    by (simp add: crawl_init_def max_consecutive_failures_def)
  have "crawl_loop api [1..<Suc max_id] crawl_init = (Inr b, s)"
    using assms by (simp only: crawl_main_def)
  from crawl_loop_outcome [OF this c0] show ?thesis
    by (simp add: crawl_init_def del: upt_Suc)
qed

theorem crawl_visits_every_id_witness:
  "crawl_main failing_api = (Inr True, snd (crawl_main failing_api))
   \<and> consecutive_failures (snd (crawl_main failing_api)) = max_consecutive_failures"
proof -
  obtain s where s: "crawl_main failing_api = (Inr True, s)"
    using crawl_main_all_fail_1000 [of failing_api] by (auto simp: failing_api_def)
  then show ?thesis using crawl_visits_every_id [OF s] by simp
qed

end
