(* ===== verification/JsonRoundtrip.thy ===== *)
theory JsonRoundtrip
  imports Json
begin

text \<open>
  The round trip of the JSON model: \<open>json.loads(json.dumps(v)) == v\<close> for every value
  \<open>v\<close> a Python program can hold (\<open>json_wf\<close>: strings are well-formed UTF-8, dictionaries
  have distinct keys). The proof goes through the layers of the encoder and the scanner:
  \<^item> UTF-8: decoding the bytes of a well-formed \<open>str\<close> into code points and encoding them
    again gives the string back, and every code point is a Unicode scalar value
    (\<open>code_points_roundtrip\<close>);
  \<^item> escapes: \<open>_decode_uXXXX\<close> reads back \<open>hex4\<close> (\<open>hex4_val_hex4\<close>), \<open>py_scanstring\<close>
    reads back \<open>py_encode_basestring_ascii\<close> (\<open>json_quote_scan\<close>), surrogate pairs included;
  \<^item> integers: \<open>NUMBER_RE\<close> reads back \<open>int.__repr__\<close> (\<open>scan_int_int_str\<close>);
  \<^item> values: by induction on the fuel, \<open>parse_value\<close>, \<open>parse_array\<close> and
    \<open>parse_object\<close> read back what \<open>json_dumps\<close> printed, followed by any text that
    starts with a separator or a closing bracket (\<open>rt_fuel\<close>); with the fuel of
    \<open>json_loads\<close> the result is never cut short (\<open>json_loads_fuel_enough\<close>).
\<close>

section \<open>Definitions\<close>

text \<open>A Unicode scalar value: a code point that is not a surrogate.\<close>

definition scalar :: "nat \<Rightarrow> bool" where
  "scalar c \<longleftrightarrow> c < 0x110000 \<and> \<not> (0xD800 \<le> c \<and> c \<le> 0xDFFF)"

text \<open>A text that may follow a value inside a document: the end, or a separator or closing bracket.\<close>

definition safe_rest :: "string \<Rightarrow> bool" where
  "safe_rest r \<longleftrightarrow> r = [] \<or> hd r = CHR '','' \<or> hd r = CHR '']'' \<or> hd r = CHR ''}''"

text \<open>
  The values a Python program can pass to \<open>json.dumps\<close>: every \<open>str\<close> is well-formed
  UTF-8 (the model holds strings as their UTF-8 bytes), and a \<open>dict\<close> has each key once.
\<close>

fun json_wf :: "json \<Rightarrow> bool" where
  "json_wf (JStr s) = (utf8_check (utf8_encode s) 0 = None)"
| "json_wf (JArr xs) = list_all json_wf xs"
| "json_wf (JObj kvs) =
     (distinct (map fst kvs) \<and> list_all (\<lambda>kv. utf8_check (utf8_encode (fst kv)) 0 = None \<and> json_wf (snd kv)) kvs)"
| "json_wf JNull = True"
| "json_wf (JBool b) = True"
| "json_wf (JInt i) = True"

text \<open>One \<open>key: value\<close> item of an encoded object.\<close>

abbreviation kv_dumps :: "string \<times> json \<Rightarrow> string" where
  "kv_dumps \<equiv> \<lambda>(k, v). json_quote k @ '': '' @ json_dumps v"

section \<open>UTF-8 arithmetic\<close>

lemma digit_div: "y < (k::nat) \<Longrightarrow> (x * k + y) div k = x"
  by simp

lemma digit_mod: "y < (k::nat) \<Longrightarrow> (x * k + y) mod k = y"
  by simp

lemma utf8_2_arith:
  assumes "0xC2 \<le> b" "b \<le> (0xDF::nat)" "0x80 \<le> c" "c \<le> (0xBF::nat)"
  defines "cp \<equiv> (b mod 32) * 64 + c mod 64"
  shows "0x80 \<le> cp \<and> cp < 0x800 \<and> 0xC0 + cp div 64 = b \<and> 0x80 + cp mod 64 = c"
proof -
  define x y where "x = b - 0xC0" and "y = c - 0x80"
  have bx: "b = x + 6 * 32" and cy: "c = y + 2 * 64" and x: "2 \<le> x" "x < 32" and y: "y < 64"
    using assms by (simp_all add: x_def y_def)
  have "b mod 32 = x" using digit_mod [of x 32 6] bx x by (simp add: add.commute)
  moreover have "c mod 64 = y" using digit_mod [of y 64 2] cy y by (simp add: add.commute)
  ultimately have cp: "cp = x * 64 + y" by (simp add: cp_def)
  show ?thesis using x y bx cy by (simp add: cp digit_div digit_mod)
qed


lemma utf8_3_arith:
  assumes "0xE0 \<le> b" "b \<le> (0xEF::nat)" "fst (cont_range b) \<le> c1" "c1 \<le> snd (cont_range b)"
    "0x80 \<le> c2" "c2 \<le> (0xBF::nat)"
  defines "cp \<equiv> (b mod 16) * 4096 + (c1 mod 64) * 64 + c2 mod 64"
  shows "0x800 \<le> cp \<and> cp < 0x10000 \<and> \<not> (0xD800 \<le> cp \<and> cp \<le> 0xDFFF)
         \<and> 0xE0 + cp div 4096 = b \<and> 0x80 + (cp div 64) mod 64 = c1 \<and> 0x80 + cp mod 64 = c2"
proof -
  define x y1 y2 where "x = b - 0xE0" and "y1 = c1 - 0x80" and "y2 = c2 - 0x80"
  have r: "0x80 \<le> c1" "c1 \<le> 0xBF" "b = 0xE0 \<Longrightarrow> 0xA0 \<le> c1" "b = 0xED \<Longrightarrow> c1 \<le> 0x9F"
    using assms(3,4) by (auto simp: cont_range_def split: if_splits)
  have bx: "b = x + 14 * 16" and x: "x < 16" using assms(1,2) by (simp_all add: x_def)
  have c1y: "c1 = y1 + 2 * 64" and y1: "y1 < 64" using r(1,2) by (simp_all add: y1_def)
  have c2y: "c2 = y2 + 2 * 64" and y2: "y2 < 64" using assms(5,6) by (simp_all add: y2_def)
  have "b mod 16 = x" using digit_mod [of x 16 14] bx x by (simp add: add.commute)
  moreover have "c1 mod 64 = y1" using digit_mod [of y1 64 2] c1y y1 by (simp add: add.commute)
  moreover have "c2 mod 64 = y2" using digit_mod [of y2 64 2] c2y y2 by (simp add: add.commute)
  ultimately have cp: "cp = (x * 64 + y1) * 64 + y2" by (simp add: cp_def algebra_simps)
  have d64: "cp div 64 = x * 64 + y1" unfolding cp by (rule digit_div [OF y2])
  have m64: "cp mod 64 = y2" unfolding cp by (rule digit_mod [OF y2])
  have "cp div 4096 = x" using d64 y1 by (simp add: div_mult2_eq [of cp 64 64, simplified])
  moreover have "(cp div 64) mod 64 = y1" using d64 y1 by simp
  moreover have "0x800 \<le> cp" using r(3) x y1 bx c1y by (cases "x = 0") (simp_all add: cp)
  moreover have "cp < 0x10000" using x y1 y2 by (simp add: cp)
  moreover have "\<not> (0xD800 \<le> cp \<and> cp \<le> 0xDFFF)"
    using r(4) x y1 y2 bx c1y by (cases "x = 13") (simp_all add: cp)
  ultimately show ?thesis using m64 bx c1y c2y by simp
qed

lemma utf8_4_arith:
  assumes "0xF0 \<le> b" "b \<le> (0xF4::nat)" "fst (cont_range b) \<le> c1" "c1 \<le> snd (cont_range b)"
    "0x80 \<le> c2" "c2 \<le> (0xBF::nat)" "0x80 \<le> c3" "c3 \<le> (0xBF::nat)"
  defines "cp \<equiv> (b mod 8) * 262144 + (c1 mod 64) * 4096 + (c2 mod 64) * 64 + c3 mod 64"
  shows "0x10000 \<le> cp \<and> cp < 0x110000
         \<and> 0xF0 + cp div 262144 = b \<and> 0x80 + (cp div 4096) mod 64 = c1
         \<and> 0x80 + (cp div 64) mod 64 = c2 \<and> 0x80 + cp mod 64 = c3"
proof -
  define x y1 y2 y3 where "x = b - 0xF0" and "y1 = c1 - 0x80" and "y2 = c2 - 0x80" and "y3 = c3 - 0x80"
  have r: "0x80 \<le> c1" "c1 \<le> 0xBF" "b = 0xF0 \<Longrightarrow> 0x90 \<le> c1" "b = 0xF4 \<Longrightarrow> c1 \<le> 0x8F"
    using assms(3,4) by (auto simp: cont_range_def split: if_splits)
  have bx: "b = x + 30 * 8" and x: "x \<le> 4" using assms(1,2) by (simp_all add: x_def)
  have c1y: "c1 = y1 + 2 * 64" and y1: "y1 < 64" using r(1,2) by (simp_all add: y1_def)
  have c2y: "c2 = y2 + 2 * 64" and y2: "y2 < 64" using assms(5,6) by (simp_all add: y2_def)
  have c3y: "c3 = y3 + 2 * 64" and y3: "y3 < 64" using assms(7,8) by (simp_all add: y3_def)
  have "b mod 8 = x" using digit_mod [of x 8 30] bx x by (simp add: add.commute)
  moreover have "c1 mod 64 = y1" using digit_mod [of y1 64 2] c1y y1 by (simp add: add.commute)
  moreover have "c2 mod 64 = y2" using digit_mod [of y2 64 2] c2y y2 by (simp add: add.commute)
  moreover have "c3 mod 64 = y3" using digit_mod [of y3 64 2] c3y y3 by (simp add: add.commute)
  ultimately have cp: "cp = ((x * 64 + y1) * 64 + y2) * 64 + y3" by (simp add: cp_def algebra_simps)
  have d1: "cp div 64 = (x * 64 + y1) * 64 + y2" unfolding cp by (rule digit_div [OF y3])
  have m1: "cp mod 64 = y3" unfolding cp by (rule digit_mod [OF y3])
  have d2: "cp div 4096 = x * 64 + y1"
    using d1 y2 by (simp add: div_mult2_eq [of cp 64 64, simplified])
  have d3: "cp div 262144 = x"
    using d2 y1 by (simp add: div_mult2_eq [of cp 4096 64, simplified])
  have "0x10000 \<le> cp" using r(3) x y1 bx c1y by (cases "x = 0") (simp_all add: cp)
  moreover have "cp < 0x110000" using r(4) x y1 y2 y3 bx c1y by (cases "x = 4") (simp_all add: cp)
  moreover have "(cp div 64) mod 64 = y2" unfolding d1 by (rule digit_mod [OF y2])
  moreover have "(cp div 4096) mod 64 = y1" unfolding d2 by (rule digit_mod [OF y1])
  ultimately show ?thesis using d3 m1 bx c1y c2y c3y by simp
qed

section \<open>UTF-8 decoding and encoding\<close>

lemma unat_byte: "n < 256 \<Longrightarrow> unat (of_nat n :: byte) = n"
  by (simp add: unat_of_nat)

lemma cont_valid_full:
  "Suc (length cs) \<le> cont_valid b0 (c1 # cs) \<Longrightarrow>
     fst (cont_range b0) \<le> unat c1 \<and> unat c1 \<le> snd (cont_range b0) \<and> (\<forall>c \<in> set cs. is_cont c)"
proof -
  assume a: "Suc (length cs) \<le> cont_valid b0 (c1 # cs)"
  then have r: "fst (cont_range b0) \<le> unat c1 \<and> unat c1 \<le> snd (cont_range b0)"
    by (auto simp: cont_valid_def split: if_splits)
  with a have "length cs \<le> length (takeWhile is_cont cs)" by (simp add: cont_valid_def)
  moreover have "length (takeWhile is_cont cs) + length (dropWhile is_cont cs) = length cs"
    by (metis length_append takeWhile_dropWhile_id)
  ultimately have "length (dropWhile is_cont cs) = 0" by linarith
  then have "\<forall>c \<in> set cs. is_cont c" by (simp add: dropWhile_eq_Nil_conv)
  then show ?thesis using r by simp
qed

lemma cp_utf8_ascii: "b < 0x80 \<Longrightarrow> cp_utf8 b = [char_of b]"
  by (simp add: cp_utf8_def)

lemma utf8_cps_roundtrip:
  "(\<forall>b \<in> set bs. b < 256) \<Longrightarrow> utf8_check (map of_nat bs) i = None \<Longrightarrow>
   concat (map cp_utf8 (utf8_cps bs)) = map char_of bs \<and> (\<forall>c \<in> set (utf8_cps bs). scalar c)"
proof (induction bs arbitrary: i rule: utf8_cps.induct)
  case 1
  then show ?case by simp
next
  case (2 b bs)
  have ub: "unat (of_nat b :: byte) = b" using "2.prems"(1) by (simp add: unat_byte)
  have bs256: "\<forall>x \<in> set bs. x < 256" using "2.prems"(1) by simp
  let ?n = "seq_len b"
  have chk: "utf8_check (of_nat b # map of_nat bs) i = None" using "2.prems"(2) by simp
  have n0: "?n \<noteq> 0" using chk by (simp add: ub Let_def split: if_splits)
  show ?case
  proof (cases "b < 0x80")
    case True
    then have "utf8_check (map of_nat bs) (Suc i) = None"
      using chk by (simp add: ub seq_len_def Let_def)
    with "2.IH"(1) [OF True bs256] True show ?thesis
      by (simp add: cp_utf8_ascii scalar_def)
  next
    case nA: False
    have n1: "?n \<noteq> 1" using nA by (simp add: seq_len_def)
    have len: "?n - 1 \<le> length bs"
      and rest: "utf8_check (drop (?n - 1) (map of_nat bs)) (i + ?n) = None"
      using chk n1 n0 by (simp_all add: ub Let_def not_less split: if_splits)
    have "min (?n - 1) (length bs) \<le> cont_valid b (take (?n - 1) (map of_nat bs))"
      using chk n1 n0 by (simp add: ub Let_def not_less min_def split: if_splits)
    with len have full: "?n - 1 \<le> cont_valid b (take (?n - 1) (map of_nat bs))"
      by (simp add: min_def)
    have ub1: "\<And>c. c \<in> set bs \<Longrightarrow> unat (of_nat c :: byte) = c" using bs256 by (simp add: unat_byte)
    have "0xC2 \<le> b \<and> b \<le> 0xDF \<or> 0xE0 \<le> b \<and> b \<le> 0xEF \<or> 0xF0 \<le> b \<and> b \<le> 0xF4"
      using nA n0 unfolding seq_len_def by (simp split: if_splits)
    then consider (two) "0xC2 \<le> b" "b \<le> 0xDF" | (three) "0xE0 \<le> b" "b \<le> 0xEF"
      | (four) "0xF0 \<le> b" "b \<le> 0xF4" by blast
    then show ?thesis
    proof cases
      case two
      then have n: "?n = 2" by (simp add: seq_len_def)
      obtain c1 r where bs: "bs = c1 # r" using len n by (cases bs) auto
      have "fst (cont_range b) \<le> c1 \<and> c1 \<le> snd (cont_range b)"
        using cont_valid_full [of "[]" b "of_nat c1"] full n bs ub1 by simp
      then have c1: "0x80 \<le> c1" "c1 \<le> 0xBF" using two by (auto simp: cont_range_def)
      have "utf8_check (map of_nat r) (i + 2) = None" using rest n bs by simp
      then have ih: "concat (map cp_utf8 (utf8_cps r)) = map char_of r \<and> (\<forall>c \<in> set (utf8_cps r). scalar c)"
        using "2.IH"(2) [of c1 r] nA two bs bs256 by simp
      have a: "0x80 \<le> (b mod 32) * 64 + c1 mod 64 \<and> (b mod 32) * 64 + c1 mod 64 < 0x800
          \<and> 0xC0 + ((b mod 32) * 64 + c1 mod 64) div 64 = b \<and> 0x80 + ((b mod 32) * 64 + c1 mod 64) mod 64 = c1"
        using utf8_2_arith [OF two c1] .
      then have "cp_utf8 ((b mod 32) * 64 + c1 mod 64) = [char_of b, char_of c1]"
        by (simp add: cp_utf8_def)
      then show ?thesis using a ih nA two bs by (simp add: scalar_def)
    next
      case three
      then have n: "?n = 3" by (simp add: seq_len_def)
      obtain c1 c2 r where bs: "bs = c1 # c2 # r" using len n by (cases bs; cases "tl bs") auto
      have "fst (cont_range b) \<le> c1 \<and> c1 \<le> snd (cont_range b) \<and> is_cont (of_nat c2)"
        using cont_valid_full [of "[of_nat c2]" b "of_nat c1"] full n bs ub1 by simp
      then have c1: "fst (cont_range b) \<le> c1" "c1 \<le> snd (cont_range b)" and c2: "0x80 \<le> c2" "c2 \<le> 0xBF"
        using ub1 bs by (auto simp: is_cont_def)
      have "utf8_check (map of_nat r) (i + 3) = None" using rest n bs by simp
      then have ih: "concat (map cp_utf8 (utf8_cps r)) = map char_of r \<and> (\<forall>c \<in> set (utf8_cps r). scalar c)"
        using "2.IH"(5) [of c1 "c2 # r" c2 r] nA three bs bs256 by simp
      note a = utf8_3_arith [OF three c1 c2]
      then have "cp_utf8 ((b mod 16) * 4096 + (c1 mod 64) * 64 + c2 mod 64) = [char_of b, char_of c1, char_of c2]"
        by (simp add: cp_utf8_def)
      then show ?thesis using a ih nA three bs by (simp add: scalar_def)
    next
      case four
      then have n: "?n = 4" by (simp add: seq_len_def)
      obtain c1 c2 c3 r where bs: "bs = c1 # c2 # c3 # r"
        using len n by (cases bs; cases "tl bs"; cases "tl (tl bs)") auto
      have "fst (cont_range b) \<le> c1 \<and> c1 \<le> snd (cont_range b) \<and> is_cont (of_nat c2) \<and> is_cont (of_nat c3)"
        using cont_valid_full [of "[of_nat c2, of_nat c3]" b "of_nat c1"] full n bs ub1 by simp
      then have c1: "fst (cont_range b) \<le> c1" "c1 \<le> snd (cont_range b)"
        and c2: "0x80 \<le> c2" "c2 \<le> 0xBF" and c3: "0x80 \<le> c3" "c3 \<le> 0xBF"
        using ub1 bs by (auto simp: is_cont_def)
      have "utf8_check (map of_nat r) (i + 4) = None" using rest n bs by simp
      then have ih: "concat (map cp_utf8 (utf8_cps r)) = map char_of r \<and> (\<forall>c \<in> set (utf8_cps r). scalar c)"
        using "2.IH"(9) [of c1 "c2 # c3 # r" c2 "c3 # r" c3 r] nA four bs bs256 by simp
      note a = utf8_4_arith [OF four c1 c2 c3]
      then have "cp_utf8 ((b mod 8) * 262144 + (c1 mod 64) * 4096 + (c2 mod 64) * 64 + c3 mod 64)
          = [char_of b, char_of c1, char_of c2, char_of c3]"
        by (simp add: cp_utf8_def)
      then show ?thesis using a ih nA four bs by (simp add: scalar_def)
    qed
  qed
qed

section \<open>Escapes\<close>

lemma hex_val_hex_digit: "d < 16 \<Longrightarrow> hex_val (hex_digit d) = Some d"
proof -
  assume "d < 16"
  then have "d \<in> {0..<16}" by simp
  moreover have "\<forall>d \<in> {0..<16::nat}. hex_val (hex_digit d) = Some d"
    by (simp add: atLeastLessThan_nat_numeral hex_digit_def hex_val_def)
  ultimately show ?thesis by blast
qed

lemma hex4_val_hex4: "n < 0x10000 \<Longrightarrow> hex4_val (hex4 n @ r) = Some n"
proof -
  assume n: "n < 0x10000"
  have d: "n div 4096 mod 16 < 16" "n div 256 mod 16 < 16" "n div 16 mod 16 < 16" "n mod 16 < 16"
    by simp_all
  have e1: "n = n mod 16 + 16 * (n div 16)" by simp
  have e2: "n div 16 = n div 16 mod 16 + 16 * (n div 256)"
    using div_mult2_eq [of n 16 16] by simp
  have e3: "n div 256 = n div 256 mod 16 + 16 * (n div 4096)"
    using div_mult2_eq [of n 256 16] by simp
  have e4: "n div 4096 mod 16 = n div 4096" and d0: "n div 4096 < 16" using n by simp_all
  have "(n div 4096 mod 16) * 4096 + (n div 256 mod 16) * 256 + (n div 16 mod 16) * 16 + n mod 16 = n"
    using e1 e2 e3 e4 by linarith
  then show ?thesis
    by (simp add: hex4_val_def hex4_def hex_val_hex_digit d d0 nth_append e4)
qed

lemma code_points_roundtrip:
  "utf8_check (utf8_encode s) i = None \<Longrightarrow>
   concat (map cp_utf8 (code_points s)) = s \<and> (\<forall>c \<in> set (code_points s). scalar c)"
  using utf8_cps_roundtrip [of "map of_char s" i]
  by (simp add: code_points_def utf8_encode_def comp_def nat_of_char_less_256)

lemma char_of_nat_lit: "of_char c = (n::nat) \<Longrightarrow> char_of n = c"
  by (metis char_of_char)

lemma char_of_escapes:
  "char_of (92::nat) = CHR 0x5C" "char_of (34::nat) = CHR 0x22" "char_of (8::nat) = CHR 0x08"
  "char_of (12::nat) = CHR 0x0C" "char_of (10::nat) = CHR 0x0A" "char_of (13::nat) = CHR 0x0D"
  "char_of (9::nat) = CHR 0x09"
  by (rule char_of_nat_lit, simp)+

lemma of_char_char_of_small: "n < 256 \<Longrightarrow> of_char (char_of n :: char) = (n::nat)"
  by simp

lemma length_hex4 [simp]: "length (hex4 n) = 4"
  by (simp add: hex4_def)

lemma scan_string_escape:
  "scan_escape cs = Some (d, r) \<Longrightarrow> scan_string (CHR 0x5C # cs) acc = scan_string r (acc @ d)"
  by simp

lemma scan_escape_bmp:
  assumes "scalar n" and "n < 0x10000"
  shows "scan_string (escape_cp n @ X) acc = scan_string X (acc @ cp_utf8 n)"
proof (cases "n = 0x5C \<or> n = 0x22 \<or> n = 0x08 \<or> n = 0x0C \<or> n = 0x0A \<or> n = 0x0D \<or> n = 0x09")
  case True
  then show ?thesis by (auto simp: escape_cp_def scan_escape_def cp_utf8_def char_of_escapes)
next
  case nspec: False
  show ?thesis
  proof (cases "0x20 \<le> n \<and> n \<le> 0x7E")
    case True
    then have oc: "of_char (char_of n :: char) = (n::nat)" by simp
    have "char_of n \<noteq> CHR 0x22" "char_of n \<noteq> CHR 0x5C" "\<not> of_char (char_of n :: char) < (0x20::nat)"
      using nspec True oc by (auto dest: arg_cong [where f = "of_char :: char \<Rightarrow> nat"])
    then show ?thesis using True nspec by (simp add: escape_cp_def cp_utf8_def)
  next
    case False
    have nh: "\<not> (0xD800 \<le> n \<and> n \<le> 0xDBFF)" using assms(1) by (auto simp: scalar_def)
    have "escape_cp n = [CHR 0x5C, CHR ''u''] @ hex4 n"
      using nspec False assms(2) by (simp add: escape_cp_def)
    then show ?thesis
      using hex4_val_hex4 [OF assms(2), of X] nh by (auto simp: scan_escape_def)
  qed
qed

lemma scan_escape_pair:
  assumes "scalar n" and "0x10000 \<le> n"
  shows "scan_string (escape_cp n @ X) acc = scan_string X (acc @ cp_utf8 n)"
proof -
  define m where "m = n - 0x10000"
  have m: "m < 0x100000" using assms by (simp add: scalar_def m_def)
  define hi lo where "hi = 0xD800 + m div 1024" and "lo = 0xDC00 + m mod 1024"
  have hi: "0xD800 \<le> hi" "hi \<le> 0xDBFF" "hi < 0x10000" using m by (simp_all add: hi_def)
  have lo: "0xDC00 \<le> lo" "lo \<le> 0xDFFF" "lo < 0x10000" by (simp_all add: lo_def)
  have val: "0x10000 + (hi - 0xD800) * 1024 + (lo - 0xDC00) = n"
    using assms(2) by (simp add: hi_def lo_def m_def)
  have e: "escape_cp n = [CHR 0x5C, CHR ''u''] @ hex4 hi @ [CHR 0x5C, CHR ''u''] @ hex4 lo"
    using assms(2) by (simp add: escape_cp_def Let_def m_def hi_def lo_def)
  have "scan_escape (CHR ''u'' # hex4 hi @ CHR 0x5C # CHR ''u'' # hex4 lo @ X) = Some (cp_utf8 n, X)"
    using hex4_val_hex4 [OF hi(3), of "CHR 0x5C # CHR ''u'' # hex4 lo @ X"]
          hex4_val_hex4 [OF lo(3), of X] hi lo val
    by (simp add: scan_escape_def)
  then show ?thesis by (simp add: e)
qed

lemma scan_escape_cp:
  "scalar n \<Longrightarrow> scan_string (escape_cp n @ X) acc = scan_string X (acc @ cp_utf8 n)"
  by (cases "n < 0x10000") (simp_all add: scan_escape_bmp scan_escape_pair)

lemma scan_escaped:
  "\<forall>c \<in> set cps. scalar c \<Longrightarrow>
   scan_string (concat (map escape_cp cps) @ CHR 0x22 # rest) acc = Some (acc @ concat (map cp_utf8 cps), rest)"
proof (induction cps arbitrary: acc)
  case Nil
  then show ?case by simp
next
  case (Cons c cps)
  then show ?case using scan_escape_cp [of c "concat (map escape_cp cps) @ CHR 0x22 # rest" acc] by simp
qed

lemma json_quote_scan:
  "utf8_check (utf8_encode s) 0 = None \<Longrightarrow> json_quote s @ rest = CHR 0x22 # t \<Longrightarrow> scan_string t [] = Some (s, rest)"
  using code_points_roundtrip [of s 0] scan_escaped [of "code_points s" rest "[]"]
  by (auto simp: json_quote_def)

section \<open>Integers\<close>

lemma of_char_digit: "d < 10 \<Longrightarrow> of_char (char_of (48 + d) :: char) = (48 + d :: nat)"
  by simp

lemma nat_str_digits: "\<forall>c \<in> set (nat_str n). is_digit c"
proof (induction n rule: nat_str.induct)
  case (1 n)
  then show ?case
    by (subst nat_str.simps) (auto simp: is_digit_def)
qed

lemma digits_val_snoc: "digits_val (xs @ [c]) = 10 * digits_val xs + (of_char c - 48)"
  by (simp add: digits_val_def)

lemma digits_val_nat_str: "digits_val (nat_str n) = n"
proof (induction n rule: nat_str.induct)
  case (1 n)
  show ?case
  proof (cases "n < 10")
    case True
    then show ?thesis by (subst nat_str.simps) (simp add: digits_val_def)
  next
    case False
    then have "digits_val (nat_str n) = 10 * (n div 10) + n mod 10"
      using "1.IH" by (subst nat_str.simps) (simp add: digits_val_snoc)
    then show ?thesis by simp
  qed
qed

lemma nat_str_nonempty: "nat_str n \<noteq> []"
  by (subst nat_str.simps) simp

lemma nat_str_lead_zero: "take 1 (nat_str n) = ''0'' \<Longrightarrow> n = 0"
proof (induction n rule: nat_str.induct)
  case (1 n)
  show ?case
  proof (cases "n < 10")
    case True
    then have "[char_of (48 + n)] = ''0''" using "1.prems" by (subst (asm) nat_str.simps) simp
    then have "of_char (char_of (48 + n) :: char) = (48 :: nat)" by simp
    with True show ?thesis by simp
  next
    case False
    then have "take 1 (nat_str (n div 10)) = ''0''"
      using "1.prems" nat_str_nonempty [of "n div 10"] by (subst (asm) nat_str.simps) (simp add: Suc_le_eq)
    then have "n div 10 = 0" using "1.IH" False by blast
    with False show ?thesis by simp
  qed
qed

lemma safe_rest_take1:
  "safe_rest r \<Longrightarrow> take 1 r \<noteq> ''.'' \<and> take 1 r \<noteq> ''e'' \<and> take 1 r \<noteq> ''E'' \<and> takeWhile is_digit r = []"
  by (cases r) (auto simp: safe_rest_def is_digit_def)

lemma nat_str_hd_digit: "take 1 (nat_str n) \<noteq> ''-''"
proof
  assume "take 1 (nat_str n) = ''-''"
  then have "hd (nat_str n) = CHR ''-''" using nat_str_nonempty [of n] by (cases "nat_str n") auto
  moreover have "is_digit (hd (nat_str n))" using nat_str_digits [of n] nat_str_nonempty [of n] by simp
  ultimately show False by (simp add: is_digit_def)
qed

lemma take1_nat_str_append: "take 1 (nat_str n @ r) = take 1 (nat_str n)"
  using nat_str_nonempty [of n] by (cases "nat_str n") auto

lemma char_of_48: "char_of (48::nat) = CHR ''0''"
  by (rule char_of_nat_lit) simp

lemma scan_digits:
  assumes "safe_rest rest"
  shows "(if take 1 (nat_str n @ rest) = ''0'' then ''0'' else takeWhile is_digit (nat_str n @ rest)) = nat_str n"
proof (cases "n = 0")
  case True
  then show ?thesis by (simp add: nat_str.simps char_of_48)
next
  case False
  have "takeWhile is_digit (nat_str n @ rest) = nat_str n"
    using nat_str_digits [of n] safe_rest_take1 [OF assms] by (simp add: takeWhile_append2)
  moreover have "take 1 (nat_str n @ rest) \<noteq> ''0''"
    unfolding take1_nat_str_append using nat_str_lead_zero [of n] False by blast
  ultimately show ?thesis by simp
qed

lemma scan_int_nat_str:
  assumes "safe_rest rest"
  shows "scan_int (nat_str m @ rest) = Some (JInt (int m), rest)"
    and "scan_int (CHR ''-'' # nat_str m @ rest) = Some (JInt (- int m), rest)"
proof -
  have neg: "(take 1 (nat_str m @ rest) = ''-'') = False"
    unfolding take1_nat_str_append using nat_str_hd_digit [of m] nat_str_nonempty [of m] by simp
  note ds = scan_digits [OF assms, of m]
  have dr: "drop (length (nat_str m)) (nat_str m @ rest) = rest" by simp
  show "scan_int (nat_str m @ rest) = Some (JInt (int m), rest)"
    unfolding scan_int_def Let_def neg if_False ds dr
    using nat_str_nonempty [of m] safe_rest_take1 [OF assms] by (simp add: digits_val_nat_str)
  have m1: "(take 1 (CHR ''-'' # nat_str m @ rest) = ''-'') = True" "drop 1 (CHR ''-'' # nat_str m @ rest) = nat_str m @ rest"
    by simp_all
  show "scan_int (CHR ''-'' # nat_str m @ rest) = Some (JInt (- int m), rest)"
    unfolding scan_int_def Let_def m1 if_True ds dr
    using nat_str_nonempty [of m] safe_rest_take1 [OF assms] by (simp add: digits_val_nat_str)
qed

lemma scan_int_int_str:
  "safe_rest rest \<Longrightarrow> scan_int (int_str i @ rest) = Some (JInt i, rest)"
  using scan_int_nat_str [of rest "nat (- i)"] scan_int_nat_str [of rest "nat i"]
  by (auto simp: int_str_def)

lemma safe_rest_simps [simp]:
  "safe_rest []" "safe_rest (CHR '','' # r)" "safe_rest (CHR '']'' # r)" "safe_rest (CHR ''}'' # r)"
  by (simp_all add: safe_rest_def)

section \<open>Values\<close>

lemma int_str_head: "\<exists>c r. int_str i = c # r \<and> (c = CHR ''-'' \<or> is_digit c)"
proof -
  obtain c r where "nat_str (nat \<bar>i\<bar>) = c # r" using nat_str_nonempty by (cases "nat_str (nat \<bar>i\<bar>)") auto
  moreover have "is_digit c" using calculation nat_str_digits [of "nat \<bar>i\<bar>"] by simp
  ultimately show ?thesis by (auto simp: int_str_def)
qed

lemma json_dumps_head:
  "\<exists>c r. json_dumps v = c # r \<and> \<not> is_ws c \<and> c \<noteq> CHR '','' \<and> c \<noteq> CHR '']'' \<and> c \<noteq> CHR ''}''"
proof (cases v)
  case (JInt i)
  then show ?thesis using int_str_head [of i] by (auto simp: is_ws_def is_digit_def)
qed (simp_all add: json_quote_def is_ws_def)

lemma skip_ws_dumps: "skip_ws (json_dumps v @ r) = json_dumps v @ r"
  using json_dumps_head [of v] by (auto simp: skip_ws_def)

lemma py_join_Cons: "py_join sep (x # xs) = x @ (if xs = [] then [] else sep @ py_join sep xs)"
  by (cases xs) simp_all

lemma parse_value_num:
  "c \<noteq> CHR 0x22 \<Longrightarrow> c \<noteq> CHR ''{'' \<Longrightarrow> c \<noteq> CHR ''['' \<Longrightarrow> c \<noteq> CHR ''n'' \<Longrightarrow> c \<noteq> CHR ''t'' \<Longrightarrow>
   c \<noteq> CHR ''f'' \<Longrightarrow> parse_value (Suc f) (c # r) = (case scan_int (c # r) of None \<Rightarrow> PFail | Some (v, r') \<Rightarrow> POk (v, r'))"
  by simp

lemma parse_value_int: "safe_rest rest \<Longrightarrow> parse_value (Suc f) (int_str i @ rest) = POk (JInt i, rest)"
proof -
  assume sr: "safe_rest rest"
  obtain c r where cr: "int_str i = c # r" and c: "c = CHR ''-'' \<or> is_digit c" using int_str_head [of i] by blast
  have c6: "c \<noteq> CHR 0x22 \<and> c \<noteq> CHR ''{'' \<and> c \<noteq> CHR ''['' \<and> c \<noteq> CHR ''n'' \<and> c \<noteq> CHR ''t'' \<and> c \<noteq> CHR ''f''"
    using c by (auto simp: is_digit_def)
  have e: "int_str i @ rest = c # (r @ rest)" by (simp add: cr)
  have "parse_value (Suc f) (int_str i @ rest) = (case scan_int (int_str i @ rest) of None \<Rightarrow> PFail | Some (v, r') \<Rightarrow> POk (v, r'))"
    unfolding e using c6 by (intro parse_value_num) simp_all
  also have "\<dots> = POk (JInt i, rest)" by (simp add: scan_int_int_str [OF sr])
  finally show ?thesis .
qed

lemma parse_value_str:
  "utf8_check (utf8_encode s) 0 = None \<Longrightarrow> parse_value (Suc f) (json_quote s @ rest) = POk (JStr s, rest)"
proof -
  assume u: "utf8_check (utf8_encode s) 0 = None"
  obtain t where t: "json_quote s @ rest = CHR 0x22 # t" by (simp add: json_quote_def)
  show ?thesis using json_quote_scan [OF u t] by (simp add: t)
qed

lemma parse_value_leaf:
  "safe_rest rest \<Longrightarrow> parse_value (Suc f) (json_dumps JNull @ rest) = POk (JNull, rest)"
  "safe_rest rest \<Longrightarrow> parse_value (Suc f) (json_dumps (JBool b) @ rest) = POk (JBool b, rest)"
  by (simp_all)

lemma skip_ws_join:
  "xs \<noteq> [] \<Longrightarrow> skip_ws (py_join sep (map json_dumps xs) @ r) = py_join sep (map json_dumps xs) @ r"
  using skip_ws_dumps [of "hd xs"] by (cases xs) (simp_all add: py_join_Cons)

lemma join_head:
  "xs \<noteq> [] \<Longrightarrow> \<exists>c r'. py_join sep (map json_dumps xs) @ r = c # r' \<and> c \<noteq> CHR '']'' \<and> c \<noteq> CHR ''}''"
  using json_dumps_head [of "hd xs"] by (cases xs) (auto simp: py_join_Cons)

lemma skip_ws_kv_join:
  "kvs \<noteq> [] \<Longrightarrow> skip_ws (py_join sep (map kv_dumps kvs) @ r) = py_join sep (map kv_dumps kvs) @ r"
  by (cases kvs) (auto simp: py_join_Cons json_quote_def skip_ws_def is_ws_def)

lemma kv_join_head:
  "kvs \<noteq> [] \<Longrightarrow> \<exists>r'. py_join sep (map kv_dumps kvs) @ r = CHR 0x22 # r'"
  by (cases kvs) (auto simp: py_join_Cons json_quote_def)

lemma rt_value_step:
  assumes arr: "\<And>xs acc rest. xs \<noteq> [] \<Longrightarrow> list_all json_wf xs \<Longrightarrow> safe_rest rest \<Longrightarrow>
      parse_array f acc (py_join '', '' (map json_dumps xs) @ CHR '']'' # rest) \<in> {POk (JArr (acc @ xs), rest), PNoFuel}"
    and obj: "\<And>kvs acc rest. kvs \<noteq> [] \<Longrightarrow> distinct (map fst (acc @ kvs)) \<Longrightarrow>
      list_all (\<lambda>kv. utf8_check (utf8_encode (fst kv)) 0 = None \<and> json_wf (snd kv)) kvs \<Longrightarrow> safe_rest rest \<Longrightarrow>
      parse_object f acc (py_join '', '' (map kv_dumps kvs) @ CHR ''}'' # rest) \<in> {POk (JObj (acc @ kvs), rest), PNoFuel}"
    and wf: "json_wf v" and sr: "safe_rest rest"
  shows "parse_value (Suc f) (json_dumps v @ rest) \<in> {POk (v, rest), PNoFuel}"
proof (cases v)
  case (JArr xs)
  show ?thesis
  proof (cases "xs = []")
    case True
    then show ?thesis using JArr by (simp add: skip_ws_def is_ws_def)
  next
    case False
    obtain c r' where cr: "py_join '', '' (map json_dumps xs) @ CHR '']'' # rest = c # r'" and c: "c \<noteq> CHR '']''"
      using join_head [OF False] by blast
    have "parse_value (Suc f) (json_dumps v @ rest) = parse_array f [] (py_join '', '' (map json_dumps xs) @ CHR '']'' # rest)"
      using skip_ws_join [OF False, of "'', ''" "CHR '']'' # rest"] c by (simp add: JArr cr)
    then show ?thesis using arr [OF False _ sr, of "[]"] wf JArr by simp
  qed
next
  case (JObj kvs)
  show ?thesis
  proof (cases "kvs = []")
    case True
    then show ?thesis using JObj by (simp add: skip_ws_def is_ws_def)
  next
    case False
    obtain r' where cr: "py_join '', '' (map kv_dumps kvs) @ CHR ''}'' # rest = CHR 0x22 # r'"
      using kv_join_head [OF False] by blast
    have "parse_value (Suc f) (json_dumps v @ rest) = parse_object f [] (py_join '', '' (map kv_dumps kvs) @ CHR ''}'' # rest)"
      using skip_ws_kv_join [OF False, of "'', ''" "CHR ''}'' # rest"] cr by (simp add: JObj)
    then show ?thesis using obj [OF False _ _ sr, of "[]"] wf JObj by simp
  qed
next
  case (JStr s)
  then show ?thesis using parse_value_str [of s f rest] wf by simp
next
  case (JInt i)
  then show ?thesis using parse_value_int [OF sr, of f i] by simp
qed (use sr parse_value_leaf in simp_all)

lemma rt_array_step:
  assumes val: "\<And>v rest. json_wf v \<Longrightarrow> safe_rest rest \<Longrightarrow> parse_value f (json_dumps v @ rest) \<in> {POk (v, rest), PNoFuel}"
    and arr: "\<And>xs acc rest. xs \<noteq> [] \<Longrightarrow> list_all json_wf xs \<Longrightarrow> safe_rest rest \<Longrightarrow>
      parse_array f acc (py_join '', '' (map json_dumps xs) @ CHR '']'' # rest) \<in> {POk (JArr (acc @ xs), rest), PNoFuel}"
    and wf: "list_all json_wf (x # xs)" and sr: "safe_rest rest"
  shows "parse_array (Suc f) acc (py_join '', '' (map json_dumps (x # xs)) @ CHR '']'' # rest)
           \<in> {POk (JArr (acc @ x # xs), rest), PNoFuel}"
proof (cases "xs = []")
  case True
  have "parse_value f (json_dumps x @ CHR '']'' # rest) \<in> {POk (x, CHR '']'' # rest), PNoFuel}"
    using val wf by simp
  then show ?thesis using True by (auto simp: skip_ws_def is_ws_def)
next
  case False
  let ?t = "py_join '', '' (map json_dumps xs) @ CHR '']'' # rest"
  have "parse_value f (json_dumps x @ CHR '','' # CHR '' '' # ?t) \<in> {POk (x, CHR '','' # CHR '' '' # ?t), PNoFuel}"
    using val wf by simp
  moreover have "skip_ws (CHR '' '' # ?t) = ?t" using skip_ws_join [OF False] by (simp add: skip_ws_def is_ws_def)
  moreover have "parse_array f (acc @ [x]) ?t \<in> {POk (JArr (acc @ x # xs), rest), PNoFuel}"
    using arr [OF False _ sr, of "acc @ [x]"] wf by simp
  ultimately show ?thesis using False by (auto simp: py_join_Cons skip_ws_def is_ws_def)
qed

lemma dict_set_new: "k \<notin> set (map fst d) \<Longrightarrow> dict_set d k v = d @ [(k, v)]"
  by (simp add: dict_set_def)

lemma rt_object_step:
  assumes val: "\<And>v rest. json_wf v \<Longrightarrow> safe_rest rest \<Longrightarrow> parse_value f (json_dumps v @ rest) \<in> {POk (v, rest), PNoFuel}"
    and obj: "\<And>kvs acc rest. kvs \<noteq> [] \<Longrightarrow> distinct (map fst (acc @ kvs)) \<Longrightarrow>
      list_all (\<lambda>kv. utf8_check (utf8_encode (fst kv)) 0 = None \<and> json_wf (snd kv)) kvs \<Longrightarrow> safe_rest rest \<Longrightarrow>
      parse_object f acc (py_join '', '' (map kv_dumps kvs) @ CHR ''}'' # rest) \<in> {POk (JObj (acc @ kvs), rest), PNoFuel}"
    and d: "distinct (map fst (acc @ (k, v) # kvs))"
    and wf: "list_all (\<lambda>kv. utf8_check (utf8_encode (fst kv)) 0 = None \<and> json_wf (snd kv)) ((k, v) # kvs)"
    and sr: "safe_rest rest"
  shows "parse_object (Suc f) acc (py_join '', '' (map kv_dumps ((k, v) # kvs)) @ CHR ''}'' # rest)
           \<in> {POk (JObj (acc @ (k, v) # kvs), rest), PNoFuel}"
proof -
  let ?t = "if kvs = [] then CHR ''}'' # rest else CHR '','' # CHR '' '' # py_join '', '' (map kv_dumps kvs) @ CHR ''}'' # rest"
  have s: "py_join '', '' (map kv_dumps ((k, v) # kvs)) @ CHR ''}'' # rest = json_quote k @ CHR '':'' # CHR '' '' # json_dumps v @ ?t"
    by (simp add: py_join_Cons)
  obtain t where t: "json_quote k @ CHR '':'' # CHR '' '' # json_dumps v @ ?t = CHR 0x22 # t" by (simp add: json_quote_def)
  have sc: "scan_string t [] = Some (k, CHR '':'' # CHR '' '' # json_dumps v @ ?t)"
    using json_quote_scan t wf by simp
  have sv: "skip_ws (CHR '' '' # json_dumps v @ ?t) = json_dumps v @ ?t"
    using skip_ws_dumps [of v] by (simp add: skip_ws_def is_ws_def)
  have ds: "dict_set acc k v = acc @ [(k, v)]" using d by (simp add: dict_set_new)
  have pv: "parse_value f (json_dumps v @ ?t) \<in> {POk (v, ?t), PNoFuel}" using val wf by simp
  show ?thesis
  proof (cases "kvs = []")
    case True
    then show ?thesis using pv unfolding s t using sc sv ds by (auto simp: skip_ws_def is_ws_def)
  next
    case False
    have "skip_ws (CHR '' '' # py_join '', '' (map kv_dumps kvs) @ CHR ''}'' # rest) = py_join '', '' (map kv_dumps kvs) @ CHR ''}'' # rest"
      using skip_ws_kv_join [OF False] by (simp add: skip_ws_def is_ws_def)
    moreover have "parse_object f (acc @ [(k, v)]) (py_join '', '' (map kv_dumps kvs) @ CHR ''}'' # rest)
        \<in> {POk (JObj (acc @ (k, v) # kvs), rest), PNoFuel}"
      using obj [OF False _ _ sr, of "acc @ [(k, v)]"] d wf by simp
    ultimately show ?thesis using pv False unfolding s t using sc sv ds by (auto simp: skip_ws_def is_ws_def)
  qed
qed

lemma rt_fuel:
  "(\<forall>v rest. json_wf v \<longrightarrow> safe_rest rest \<longrightarrow> parse_value f (json_dumps v @ rest) \<in> {POk (v, rest), PNoFuel}) \<and>
   (\<forall>xs acc rest. xs \<noteq> [] \<longrightarrow> list_all json_wf xs \<longrightarrow> safe_rest rest \<longrightarrow>
      parse_array f acc (py_join '', '' (map json_dumps xs) @ CHR '']'' # rest) \<in> {POk (JArr (acc @ xs), rest), PNoFuel}) \<and>
   (\<forall>kvs acc rest. kvs \<noteq> [] \<longrightarrow> distinct (map fst (acc @ kvs)) \<longrightarrow>
      list_all (\<lambda>kv. utf8_check (utf8_encode (fst kv)) 0 = None \<and> json_wf (snd kv)) kvs \<longrightarrow> safe_rest rest \<longrightarrow>
      parse_object f acc (py_join '', '' (map kv_dumps kvs) @ CHR ''}'' # rest) \<in> {POk (JObj (acc @ kvs), rest), PNoFuel})"
proof (induction f)
  case 0
  then show ?case by simp
next
  case (Suc f)
  have val: "\<And>v rest. json_wf v \<Longrightarrow> safe_rest rest \<Longrightarrow> parse_value f (json_dumps v @ rest) \<in> {POk (v, rest), PNoFuel}"
    using Suc.IH by blast
  have arr: "\<And>xs acc rest. xs \<noteq> [] \<Longrightarrow> list_all json_wf xs \<Longrightarrow> safe_rest rest \<Longrightarrow>
      parse_array f acc (py_join '', '' (map json_dumps xs) @ CHR '']'' # rest) \<in> {POk (JArr (acc @ xs), rest), PNoFuel}"
    using Suc.IH by blast
  have obj: "\<And>kvs acc rest. kvs \<noteq> [] \<Longrightarrow> distinct (map fst (acc @ kvs)) \<Longrightarrow>
      list_all (\<lambda>kv. utf8_check (utf8_encode (fst kv)) 0 = None \<and> json_wf (snd kv)) kvs \<Longrightarrow> safe_rest rest \<Longrightarrow>
      parse_object f acc (py_join '', '' (map kv_dumps kvs) @ CHR ''}'' # rest) \<in> {POk (JObj (acc @ kvs), rest), PNoFuel}"
    using Suc.IH by blast
  have "\<forall>xs acc rest. xs \<noteq> [] \<longrightarrow> list_all json_wf xs \<longrightarrow> safe_rest rest \<longrightarrow>
      parse_array (Suc f) acc (py_join '', '' (map json_dumps xs) @ CHR '']'' # rest) \<in> {POk (JArr (acc @ xs), rest), PNoFuel}"
  proof (intro allI impI)
    fix xs acc rest assume "xs \<noteq> []" "list_all json_wf xs" "safe_rest rest"
    then show "parse_array (Suc f) acc (py_join '', '' (map json_dumps xs) @ CHR '']'' # rest) \<in> {POk (JArr (acc @ xs), rest), PNoFuel}"
      using rt_array_step [OF val arr] by (cases xs) simp_all
  qed
  moreover have "\<forall>kvs acc rest. kvs \<noteq> [] \<longrightarrow> distinct (map fst (acc @ kvs)) \<longrightarrow>
      list_all (\<lambda>kv. utf8_check (utf8_encode (fst kv)) 0 = None \<and> json_wf (snd kv)) kvs \<longrightarrow> safe_rest rest \<longrightarrow>
      parse_object (Suc f) acc (py_join '', '' (map kv_dumps kvs) @ CHR ''}'' # rest) \<in> {POk (JObj (acc @ kvs), rest), PNoFuel}"
  proof (intro allI impI)
    fix kvs acc rest assume a: "kvs \<noteq> []" "distinct (map fst (acc @ kvs))"
      "list_all (\<lambda>kv. utf8_check (utf8_encode (fst kv)) 0 = None \<and> json_wf (snd kv)) kvs" "safe_rest rest"
    then obtain k v kvs' where "kvs = (k, v) # kvs'" by (cases kvs) auto
    then show "parse_object (Suc f) acc (py_join '', '' (map kv_dumps kvs) @ CHR ''}'' # rest) \<in> {POk (JObj (acc @ kvs), rest), PNoFuel}"
      using rt_object_step [OF val obj, of acc k v kvs' rest] a by simp
  qed
  moreover have "\<forall>v rest. json_wf v \<longrightarrow> safe_rest rest \<longrightarrow> parse_value (Suc f) (json_dumps v @ rest) \<in> {POk (v, rest), PNoFuel}"
    using rt_value_step [OF arr obj] by simp
  ultimately show ?case by blast
qed

lemma json_loads_json_dumps: "json_wf v \<Longrightarrow> json_loads (json_dumps v) = Some v"
proof -
  assume wf: "json_wf v"
  let ?f = "2 * length (json_dumps v) + 3"
  have "parse_value ?f (json_dumps v @ []) \<in> {POk (v, []), PNoFuel}" using conjunct1 [OF rt_fuel [of ?f]] wf safe_rest_simps(1) by blast
  moreover have "parse_value ?f (skip_ws (json_dumps v)) \<noteq> PNoFuel" by (rule json_loads_fuel_enough)
  moreover have "skip_ws (json_dumps v) = json_dumps v" using skip_ws_dumps [of v "[]"] by simp
  ultimately show ?thesis by (simp add: json_loads_def skip_ws_def)
qed

end
