(* ===== verification/PgAgent.thy ===== *)
theory PgAgent
  imports Auth History JsonRoundtrip
begin

text \<open>
  The minimal service \<open>src/~sample-python-agent~/sample_postgres_agent.py\<close>: the same
  two history adapters written against Postgres through an \<open>asyncpg\<close> pool, and a
  handler that replays the history, stores the query and a fixed placeholder reply, and
  turns every exception into \<open>HTTPException(500, str(e))\<close>.

  The table is the store of \<open>History\<close> whose \<open>message\<close> column holds the text
  \<open>json.dumps(message_obj)\<close> the service inserted (\<open>string db_world\<close>). What
  \<open>row["message"]\<close> gives back is the driver's decoding of that column, a parameter
  \<open>codec\<close> of the model: \<open>asyncpg\<close> without a registered type codec (the pool of
  line 22 registers none) returns \<open>json\<close>/\<open>jsonb\<close> and \<open>text\<close> columns as a Python
  \<open>str\<close>, i.e. a codec whose values are all \<open>JStr\<close> (C20). The timestamp of a
  row is the store's clock value (its \<open>isoformat\<close> rendering is not modelled; the
  handler never reads it). \<open>pg_table_typed\<close> is the schema the handler writes into the
  column (JSON text of an object with string \<open>type\<close> and \<open>content\<close>); every run of
  the handler preserves it (C28).
\<close>

type_synonym pg_world = "string db_world"

text \<open>\<open>AgentRequest\<close> (lines 33--37).\<close>

record pg_request =
  pg_query :: string
  pg_user_id :: string
  pg_request_id :: string
  pg_session_id :: string

section \<open>History adapters\<close>

text \<open>One fetched row as the dictionary of lines 71--76.\<close>

definition pg_history_entry :: "(string \<Rightarrow> json) \<Rightarrow> string row \<Rightarrow> json" where
  "pg_history_entry codec r =
     JObj [(''id'', JStr (nat_str (row_id r))), (''created_at'', JStr (nat_str (row_created r))),
           (''session_id'', JStr (row_session r)), (''message'', codec (row_message r))]"

definition pg_fetch_conversation_history ::
  "(string \<Rightarrow> json) \<Rightarrow> string \<Rightarrow> nat \<Rightarrow> (pg_world, exc, json list) eff" where
  "pg_fetch_conversation_history codec sid limit w =
     (case next_fault w of
        (Some err, w') \<Rightarrow>
          (Inl (HTTPException 500 (''Failed to fetch conversation history: '' @ err)), w')
      | (None, w') \<Rightarrow> (Inr (rev (map (pg_history_entry codec) (query_recent (db w') sid limit))), w'))"

text \<open>The message object of lines 85--90: \<open>data\<close> only when truthy.\<close>

definition pg_message_obj :: "string \<Rightarrow> string \<Rightarrow> dict option \<Rightarrow> json" where
  "pg_message_obj t c data =
     JObj ([(''type'', JStr t), (''content'', JStr c)]
           @ (case data of None \<Rightarrow> [] | Some d \<Rightarrow> if d = [] then [] else [(''data'', JObj d)]))"

definition pg_store_message ::
  "string \<Rightarrow> string \<Rightarrow> string \<Rightarrow> dict option \<Rightarrow> (pg_world, exc, unit) eff" where
  "pg_store_message sid t c data w =
     (case next_fault w of
        (Some err, w') \<Rightarrow> (Inl (HTTPException 500 (''Failed to store message: '' @ err)), w')
      | (None, w') \<Rightarrow>
          (Inr (), w'\<lparr>db := insert_row sid (json_dumps (pg_message_obj t c data)) (db w')\<rparr>))"

section \<open>Handler\<close>

text \<open>The loop of lines 112--117: \<open>msg["message"]\<close>, then its \<open>type\<close> and \<open>content\<close>.\<close>

fun pg_convert_history :: "json list \<Rightarrow> exc + json list" where
  "pg_convert_history [] = Inr []"
| "pg_convert_history (m # ms) =
     (case json_index m ''message'' of
        Inl e \<Rightarrow> Inl e
      | Inr md \<Rightarrow>
          (case json_index md ''type'' of
             Inl e \<Rightarrow> Inl e
           | Inr ty \<Rightarrow>
               (case json_index md ''content'' of
                  Inl e \<Rightarrow> Inl e
                | Inr ct \<Rightarrow>
                    (case pg_convert_history ms of
                       Inl e \<Rightarrow> Inl e
                     | Inr rest \<Rightarrow> Inr (JObj [(''role'', ty), (''content'', ct)] # rest)))))"

definition sample_agent_response :: string where
  "sample_agent_response = ''This is a sample agent response...''"

definition pg_agent_body :: "(string \<Rightarrow> json) \<Rightarrow> pg_request \<Rightarrow> (pg_world, exc, bool) eff" where
  "pg_agent_body codec req =
     ebind (pg_fetch_conversation_history codec (pg_session_id req) 10) (\<lambda>hist.
     ebind (elift (pg_convert_history hist)) (\<lambda>messages.
     ebind (pg_store_message (pg_session_id req) ''human'' (pg_query req) None) (\<lambda>_.
     ebind (pg_store_message (pg_session_id req) ''assistant'' sample_agent_response None) (\<lambda>_.
     ereturn True))))"

definition pg_agent :: "(string \<Rightarrow> json) \<Rightarrow> pg_request \<Rightarrow> (pg_world, exc, bool) eff" where
  "pg_agent codec req =
     try_except (pg_agent_body codec req) (\<lambda>e. eraise (HTTPException 500 (str_exc e)))"

definition pg_agent_endpoint ::
  "string option \<Rightarrow> string \<Rightarrow> (string \<Rightarrow> json) \<Rightarrow> pg_request \<Rightarrow> pg_world \<Rightarrow> http_response \<times> pg_world" where
  "pg_agent_endpoint expected credentials codec req =
     serve expected credentials (pg_agent codec req)"

section \<open>Schema of the message column\<close>

text \<open>
  What lines 112--117 read from a fetched row once the driver has decoded the column
  with \<open>json.loads\<close>: an object whose \<open>type\<close> and \<open>content\<close> are strings. A
  table is typed when every row's column has this schema.
\<close>

fun is_jstr :: "json option \<Rightarrow> bool" where
  "is_jstr (Some (JStr _)) = True"
| "is_jstr _ = False"

definition pg_column_ok :: "string \<Rightarrow> bool" where
  "pg_column_ok m \<longleftrightarrow>
     (case json_loads m of
        Some (JObj d) \<Rightarrow> is_jstr (map_of d ''type'') \<and> is_jstr (map_of d ''content'')
      | _ \<Rightarrow> False)"

definition pg_table_typed :: "string store \<Rightarrow> bool" where
  "pg_table_typed s \<longleftrightarrow> list_all (\<lambda>r. pg_column_ok (row_message r)) (rows s)"

text \<open>Concrete values for the witnesses below.\<close>

definition pg_demo_request :: pg_request where
  "pg_demo_request = \<lparr>pg_query = ''hello'', pg_user_id = ''u'', pg_request_id = ''r1'',
                      pg_session_id = ''s''\<rparr>"

definition pg_demo_world :: pg_world where
  "pg_demo_world = world_of (insert_row ''s'' (json_dumps (pg_message_obj ''human'' ''hi'' None))
                                        empty_store) []"

section \<open>Lemmas\<close>

text \<open>The Postgres fetch is the shared fetch of \<open>History\<close> followed by the dictionary conversion.\<close>

lemma pg_fetch_refines:
  "pg_fetch_conversation_history codec sid n w =
     (case fetch_conversation_history sid n w of (r, w') \<Rightarrow> (map_sum id (map (pg_history_entry codec)) r, w'))"
  by (simp add: pg_fetch_conversation_history_def fetch_conversation_history_def rev_map
      split: prod.splits option.splits)

lemma pg_fetch_cases:
  "pg_fetch_conversation_history codec sid n w = (r, w') \<Longrightarrow>
     db w' = db w \<and>
     ((fst (next_fault w) = None \<and> r = Inr (map (pg_history_entry codec) (rev (query_recent (db w) sid n))))
      \<or> (\<exists>err. fst (next_fault w) = Some err
            \<and> r = Inl (HTTPException 500 (''Failed to fetch conversation history: '' @ err))))"
  by (auto simp: pg_fetch_refines dest!: fetch_cases split: prod.splits)

lemma pg_store_message_cases:
  "pg_store_message sid t c d w = (r, w') \<Longrightarrow>
     (fst (next_fault w) = None \<and> r = Inr ()
        \<and> db w' = insert_row sid (json_dumps (pg_message_obj t c d)) (db w))
   \<or> (\<exists>err. fst (next_fault w) = Some err \<and> db w' = db w
            \<and> r = Inl (HTTPException 500 (''Failed to store message: '' @ err)))"
  by (auto simp: pg_store_message_def dest: next_fault_frame split: prod.splits option.splits)

lemma query_recent_nonempty:
  "session_log s sid \<noteq> [] \<Longrightarrow> 0 < n \<Longrightarrow> query_recent s sid n \<noteq> []"
proof -
  assume "session_log s sid \<noteq> []" and "0 < n"
  then have "length (sort_key row_created (session_rows s sid)) \<noteq> 0"
    by (simp add: session_log_def length_sort)
  with \<open>0 < n\<close> show ?thesis
    by (simp add: query_recent_def session_rows_def [symmetric] del: length_sort)
qed

lemma pg_convert_str_message:
  "codec (row_message r) = JStr u \<Longrightarrow>
   pg_convert_history (map (pg_history_entry codec) (r # rs)) =
     Inl (TypeError (''string indices must be integers, not '' @ [CHR 0x27] @ ''str'' @ [CHR 0x27]))"
  by (simp add: pg_history_entry_def dict_get_def)

abbreviation pg_human_text :: "pg_request \<Rightarrow> string" where
  "pg_human_text req \<equiv> json_dumps (pg_message_obj ''human'' (pg_query req) None)"

abbreviation pg_reply_text :: string where
  "pg_reply_text \<equiv> json_dumps (pg_message_obj ''assistant'' sample_agent_response None)"

lemma pg_agent_body_effects:
  assumes "pg_agent_body codec req w = (r, w1)"
  shows "(r = Inr True \<and> db w1 = insert_row (pg_session_id req) pg_reply_text
                                   (insert_row (pg_session_id req) (pg_human_text req) (db w)))
       \<or> (\<exists>e. r = Inl e \<and> (db w1 = db w \<or> db w1 = insert_row (pg_session_id req) (pg_human_text req) (db w)))"
  using assms unfolding pg_agent_body_def
  by (fastforce dest!: ebind_result elift_result pg_fetch_cases pg_store_message_cases)

lemma utf8_ok_literals:
  "utf8_check (utf8_encode ''human'') 0 = None" "utf8_check (utf8_encode ''assistant'') 0 = None"
  "utf8_check (utf8_encode sample_agent_response) 0 = None"
  "utf8_check (utf8_encode ''type'') 0 = None" "utf8_check (utf8_encode ''content'') 0 = None"
  by (code_simp, code_simp, simp add: sample_agent_response_def, code_simp, code_simp, code_simp)

lemma pg_message_obj_wf:
  "utf8_check (utf8_encode t) 0 = None \<Longrightarrow> utf8_check (utf8_encode c) 0 = None \<Longrightarrow>
   json_wf (pg_message_obj t c None)"
  by (simp add: pg_message_obj_def utf8_ok_literals(4,5))

lemma pg_column_ok_message:
  "utf8_check (utf8_encode t) 0 = None \<Longrightarrow> utf8_check (utf8_encode c) 0 = None \<Longrightarrow>
   pg_column_ok (json_dumps (pg_message_obj t c None))"
  using json_loads_json_dumps [OF pg_message_obj_wf] by (simp add: pg_column_ok_def pg_message_obj_def)

lemma pg_table_typed_insert:
  "pg_table_typed (insert_row sid m s) \<longleftrightarrow> pg_table_typed s \<and> pg_column_ok m"
  by (simp add: pg_table_typed_def insert_row_def)

lemma pg_agent_world:
  "pg_agent codec req w = (r, w') \<Longrightarrow> \<exists>r1. pg_agent_body codec req w = (r1, w')"
  by (auto simp: pg_agent_def try_except_def split: prod.splits sum.splits)

lemma pg_table_typed_empty: "pg_table_typed empty_store"
  by (simp add: pg_table_typed_def empty_store_def)

lemma pg_demo_world_typed: "pg_table_typed (db pg_demo_world)"
proof -
  have "utf8_check (utf8_encode ''hi'') 0 = None" by code_simp
  then show ?thesis using pg_column_ok_message [OF utf8_ok_literals(1)]
    by (simp add: pg_demo_world_def world_of_def pg_table_typed_insert pg_table_typed_empty)
qed

section \<open>Properties\<close>

text \<open>
  C19. Refinement of the history contract: when the store call succeeds, the Postgres
  fetch returns the dictionaries of the newest \<open>limit\<close> rows of the session in
  chronological order (the \<open>ORDER BY created_at DESC LIMIT\<close> query reversed by
  \<open>messages[::-1]\<close>), exactly the window the shared adapter of \<open>History\<close> returns,
  and leaves the table unchanged.
\<close>

theorem pg_fetch_returns_recent_window:
  assumes "store_inv (db w)" and "fst (next_fault w) = None"
  shows "pg_fetch_conversation_history codec sid n w =
           (Inr (map (pg_history_entry codec) (recent n (session_rows (db w) sid))), snd (next_fault w))
         \<and> db (snd (next_fault w)) = db w"
  using fetch_window [OF assms, of sid n] by (simp add: pg_fetch_refines)

theorem pg_fetch_returns_recent_window_witness:
  "pg_fetch_conversation_history JStr ''s'' 10 pg_demo_world =
     (Inr (map (pg_history_entry JStr) (recent 10 (session_rows (db pg_demo_world) ''s''))), pg_demo_world)"
proof -
  have "store_inv (db pg_demo_world)"
    by (simp add: pg_demo_world_def world_of_def store_inv_insert_row store_inv_empty)
  moreover have "fst (next_fault pg_demo_world) = None"
    by (simp add: pg_demo_world_def world_of_def next_fault_def)
  ultimately show ?thesis
    using pg_fetch_returns_recent_window [of pg_demo_world JStr "''s''" 10]
    by (simp add: pg_demo_world_def world_of_def next_fault_def)
qed

text \<open>
  C20. With \<open>asyncpg\<close>'s default decoding, where the \<open>message\<close> column comes back as a
  \<open>str\<close>, the handler fails on every session that already has a message: line 114
  indexes a string with \<open>"type"\<close>, the \<open>TypeError\<close> is re-raised as a 500, and the
  query is not stored. Only the first request of a session can succeed.
\<close>

theorem pg_str_codec_rejects_history:
  assumes "verify_token e c = Inr True" and "\<forall>t. \<exists>u. codec t = JStr u"
    and "session_log (db w) (pg_session_id req) \<noteq> []" and "fst (next_fault w) = None"
  shows "pg_agent_endpoint e c codec req w =
           (HttpError 500 (''string indices must be integers, not '' @ [CHR 0x27] @ ''str'' @ [CHR 0x27]),
            snd (next_fault w))
         \<and> db (snd (next_fault w)) = db w"
proof -
  let ?sid = "pg_session_id req"
  obtain w' where nf: "next_fault w = (None, w')"
    using assms(4) by (metis next_fault_None)
  then have dbw: "db w' = db w" by (auto dest: next_fault_frame)
  have "query_recent (db w) ?sid 10 \<noteq> []"
    using assms(3) by (simp add: query_recent_nonempty)
  then obtain r rs where q: "rev (query_recent (db w) ?sid 10) = r # rs"
    by (metis neq_Nil_conv rev_is_Nil_conv)
  have fetch: "pg_fetch_conversation_history codec ?sid 10 w
      = (Inr (map (pg_history_entry codec) (r # rs)), w')"
    using nf dbw q by (simp add: pg_fetch_conversation_history_def rev_map [symmetric])
  obtain u where "codec (row_message r) = JStr u" using assms(2) by blast
  then have conv: "pg_convert_history (map (pg_history_entry codec) (r # rs))
      = Inl (TypeError (''string indices must be integers, not '' @ [CHR 0x27] @ ''str'' @ [CHR 0x27]))"
    by (rule pg_convert_str_message)
  have "pg_agent_body codec req w
      = (Inl (TypeError (''string indices must be integers, not '' @ [CHR 0x27] @ ''str'' @ [CHR 0x27])), w')"
    using fetch conv by (simp add: pg_agent_body_def)
  then show ?thesis
    using assms(1) nf dbw by (simp add: pg_agent_endpoint_def pg_agent_def serve_def)
qed

theorem pg_str_codec_rejects_history_witness:
  "pg_agent_endpoint (Some ''tok'') ''tok'' JStr pg_demo_request pg_demo_world =
     (HttpError 500 (''string indices must be integers, not '' @ [CHR 0x27] @ ''str'' @ [CHR 0x27]),
      pg_demo_world)"
proof -
  have "session_log (db pg_demo_world) (pg_session_id pg_demo_request) \<noteq> []"
    by (simp add: pg_demo_world_def pg_demo_request_def world_of_def session_log_insert_row)
  moreover have "fst (next_fault pg_demo_world) = None" "snd (next_fault pg_demo_world) = pg_demo_world"
    by (simp_all add: pg_demo_world_def world_of_def next_fault_def)
  ultimately show ?thesis
    using pg_str_codec_rejects_history [of "Some ''tok''" "''tok''" JStr pg_demo_world pg_demo_request]
    by (simp add: verify_token_def)
qed

text \<open>
  C21. The minimal variant re-raises instead of apologising: when the history fetch
  raises, the endpoint answers 500 with the detail of the adapter's
  \<open>HTTPException\<close> rendered by \<open>str(e)\<close>, so the status appears twice
  (\<open>"500: Failed to fetch conversation history: ..."\<close>), and nothing is stored.
\<close>

theorem pg_fetch_fault_reraised:
  assumes "verify_token e c = Inr True" and "db_faults w = Some err # fs"
  shows "pg_agent_endpoint e c codec req w =
           (HttpError 500 (''500: Failed to fetch conversation history: '' @ err), w\<lparr>db_faults := fs\<rparr>)"
  using assms
  by (simp add: pg_agent_endpoint_def pg_agent_def serve_def pg_agent_body_def
      pg_fetch_conversation_history_def next_fault_def)

theorem pg_fetch_fault_reraised_witness:
  "pg_agent_endpoint (Some ''tok'') ''tok'' JStr pg_demo_request (pg_demo_world\<lparr>db_faults := [Some ''timeout'']\<rparr>) =
     (HttpError 500 (''500: Failed to fetch conversation history: '' @ ''timeout''), pg_demo_world)"
  using pg_fetch_fault_reraised [of "Some ''tok''" "''tok''" "pg_demo_world\<lparr>db_faults := [Some ''timeout'']\<rparr>"
                                   "''timeout''" "[]" JStr pg_demo_request]
  by (simp add: verify_token_def pg_demo_world_def world_of_def)

text \<open>
  C22. Whatever happens after authentication, the handler appends to the addressed
  session a prefix of \<open>[query as "human", placeholder reply as "assistant"]\<close>, in that
  order, with the roles stored verbatim, and no other session changes; it reports
  success exactly when both were stored.
\<close>

theorem pg_agent_appends_prefix:
  assumes "pg_agent codec req w = (r, w')"
  shows "\<exists>k \<le> 2. session_log (db w') = (session_log (db w))(pg_session_id req :=
            session_log (db w) (pg_session_id req) @ take k [pg_human_text req, pg_reply_text])
          \<and> (r = Inr True \<longleftrightarrow> k = 2)"
proof -
  let ?sid = "pg_session_id req"
  obtain r1 w1 where b: "pg_agent_body codec req w = (r1, w1)" by (metis prod.exhaust)
  then have w': "w' = w1" and r: "r = (case r1 of Inl e \<Rightarrow> Inl (HTTPException 500 (str_exc e)) | Inr x \<Rightarrow> Inr x)"
    using assms by (auto simp: pg_agent_def try_except_def split: sum.splits)
  from pg_agent_body_effects [OF b] show ?thesis
  proof (elim disjE exE conjE)
    assume "r1 = Inr True"
      and "db w1 = insert_row ?sid pg_reply_text (insert_row ?sid (pg_human_text req) (db w))"
    then show ?thesis using w' r
      by (intro exI [of _ 2]) (auto simp: session_log_insert_row fun_eq_iff)
  next
    fix e assume "r1 = Inl e" and "db w1 = db w"
    then show ?thesis using w' r
      by (intro exI [of _ 0]) auto
  next
    fix e assume "r1 = Inl e" and "db w1 = insert_row ?sid (pg_human_text req) (db w)"
    then show ?thesis using w' r
      by (intro exI [of _ 1]) (auto simp: session_log_insert_row fun_eq_iff)
  qed
qed

theorem pg_agent_appends_prefix_witness:
  "\<exists>k \<le> 2. session_log (db (snd (pg_agent JStr pg_demo_request (world_of empty_store [])))) =
      (session_log (db (world_of empty_store [])))(''s'' :=
         session_log (db (world_of empty_store [])) ''s''
         @ take k [pg_human_text pg_demo_request, pg_reply_text])
   \<and> (fst (pg_agent JStr pg_demo_request (world_of empty_store [])) = Inr True \<longleftrightarrow> k = 2)"
  using pg_agent_appends_prefix [of JStr pg_demo_request "world_of empty_store []"
      "fst (pg_agent JStr pg_demo_request (world_of empty_store []))"
      "snd (pg_agent JStr pg_demo_request (world_of empty_store []))"]
  by (simp add: pg_demo_request_def)

text \<open>
  C28. The schema of the \<open>message\<close> column is an invariant of the service: if every
  stored column is the JSON text of an object with string \<open>type\<close> and \<open>content\<close>,
  then it still is after any run of the handler, whatever the store calls do (the
  query, a Python \<open>str\<close>, is well-formed UTF-8).
\<close>

theorem pg_agent_keeps_table_typed:
  assumes "pg_table_typed (db w)" and "utf8_check (utf8_encode (pg_query req)) 0 = None"
    and "pg_agent codec req w = (r, w')"
  shows "pg_table_typed (db w')"
proof -
  obtain r1 where b: "pg_agent_body codec req w = (r1, w')" using pg_agent_world [OF assms(3)] by blast
  have h: "pg_column_ok (pg_human_text req)" using pg_column_ok_message [OF utf8_ok_literals(1) assms(2)] .
  have a: "pg_column_ok pg_reply_text" using pg_column_ok_message [OF utf8_ok_literals(2,3)] .
  from pg_agent_body_effects [OF b] show ?thesis
    using assms(1) h a by (auto simp: pg_table_typed_insert)
qed

theorem pg_agent_keeps_table_typed_witness:
  "pg_table_typed (db pg_demo_world) \<and> utf8_check (utf8_encode (pg_query pg_demo_request)) 0 = None
   \<and> pg_table_typed (db (snd (pg_agent JStr pg_demo_request pg_demo_world)))"
proof -
  have "utf8_check (utf8_encode (pg_query pg_demo_request)) 0 = None"
    by (simp add: pg_demo_request_def) code_simp
  then show ?thesis
    using pg_demo_world_typed pg_agent_keeps_table_typed [of pg_demo_world pg_demo_request JStr
        "fst (pg_agent JStr pg_demo_request pg_demo_world)" "snd (pg_agent JStr pg_demo_request pg_demo_world)"]
    by simp
qed

end
