(* ===== verification/Voiceflow.thy ===== *)
theory Voiceflow
  imports Auth History Json
begin

text \<open>
  The dialog service \<open>src/~voiceflow-dialog-api-integration~/voiceflow_integration.py\<close>:
  it parses the query (plain text, or a JSON block after the marker \<open>```json\<close>),
  stores it, sends one \<open>interact\<close> request to the Voiceflow Dialog API and stores the
  answer; any exception of the \<open>try\<close> block is printed and answered with a stored
  apology and \<open>success=False\<close>. It never reads the history.

  The Supabase \<open>messages\<close> table is the store of \<open>History\<close>, whose \<open>message\<close>
  column holds the inserted object as JSON (\<open>json db_world\<close>): the content of a
  message can be any JSON value here, since \<open>parsed_data.get("text", "")\<close> need not be
  a string. The Voiceflow API is an input of the model (\<open>vf_env\<close>): the configured
  API key and the answer \<open>requests.post\<close> gives to a request, i.e. an exception of
  the transport, or a status, a reason phrase and the outcome of \<open>response.json()\<close>.
  \<open>raise_for_status\<close> is modelled after \<open>requests\<close> (4xx and 5xx raise
  \<open>HTTPError\<close> with the library's message; the URL is the request's, without
  redirects).
\<close>

type_synonym vf_world = "json db_world"

text \<open>\<open>AgentRequest\<close> (lines 27--31).\<close>

record vf_request =
  vf_query :: string
  vf_user_id :: string
  vf_request_id :: string
  vf_session_id :: string

section \<open>Store\<close>

text \<open>The message object of lines 53--58: \<open>data\<close> only when truthy.\<close>

definition vf_message_obj :: "string \<Rightarrow> json \<Rightarrow> json option \<Rightarrow> json" where
  "vf_message_obj t c data =
     JObj ([(''type'', JStr t), (''content'', c)]
           @ (case data of None \<Rightarrow> [] | Some d \<Rightarrow> if json_truthy d then [(''data'', d)] else []))"

definition vf_store_message ::
  "string \<Rightarrow> string \<Rightarrow> json \<Rightarrow> json option \<Rightarrow> (vf_world, exc, unit) eff" where
  "vf_store_message sid t c data w =
     (case next_fault w of
        (Some err, w') \<Rightarrow> (Inl (HTTPException 500 (''Failed to store message: '' @ err)), w')
      | (None, w') \<Rightarrow> (Inr (), w'\<lparr>db := insert_row sid (vf_message_obj t c data) (db w')\<rparr>))"

section \<open>Voiceflow client\<close>

record http_request =
  req_url :: string
  req_headers :: "(string \<times> string) list"
  req_body :: json

record http_reply =
  status_code :: nat
  reason :: string
  reply_url :: string
  reply_json :: "exc + json"

record vf_env =
  vf_api_key :: "string option"
  vf_post :: "http_request \<Rightarrow> exc + http_reply"

definition vf_base_url :: string where
  "vf_base_url = ''https://general-runtime.voiceflow.com/state/user''"

definition vf_config :: json where
  "vf_config = JObj [(''tts'', JBool False), (''stripSSML'', JBool True), (''stopAll'', JBool False),
                     (''excludeTypes'', JArr [JStr ''block'', JStr ''debug'', JStr ''flow''])]"

text \<open>The request of lines 93--123.\<close>

definition voiceflow_request :: "string \<Rightarrow> json \<Rightarrow> string \<Rightarrow> http_request" where
  "voiceflow_request key action sid =
     \<lparr>req_url = vf_base_url @ ''/'' @ sid @ ''/interact'' @ ''?logs=off'',
      req_headers = [(''accept'', ''application/json''), (''content-type'', ''application/json''),
                     (''Authorization'', key)],
      req_body = JObj [(''action'', action), (''config'', vf_config)]\<rparr>"

text \<open>
  \<open>Response.raise_for_status\<close> of \<open>requests\<close>: the message names \<open>self.url\<close>, the
  URL of the response as the transport reports it (the prepared URL, with unsafe
  characters percent-encoded), not the text the caller passed.
\<close>

definition raise_for_status :: "http_reply \<Rightarrow> exc + unit" where
  "raise_for_status r =
     (if 400 \<le> status_code r \<and> status_code r < 500 then
        Inl (HTTPError (nat_str (status_code r) @ '' Client Error: '' @ reason r @ '' for url: '' @ reply_url r))
      else if 500 \<le> status_code r \<and> status_code r < 600 then
        Inl (HTTPError (nat_str (status_code r) @ '' Server Error: '' @ reason r @ '' for url: '' @ reply_url r))
      else Inr ())"

definition vf_key_error :: exc where
  "vf_key_error = KeyError ''VOICEFLOW_AGENT_API_KEY environment variable not set''"

definition interact_with_voiceflow :: "vf_env \<Rightarrow> json \<Rightarrow> string \<Rightarrow> exc + json" where
  "interact_with_voiceflow env action sid =
     (case vf_api_key env of
        None \<Rightarrow> Inl vf_key_error
      | Some key \<Rightarrow>
          if key = [] then Inl vf_key_error
          else (let rq = voiceflow_request key action sid in
                case vf_post env rq of
                  Inl e \<Rightarrow> Inl e
                | Inr resp \<Rightarrow>
                    (case raise_for_status resp of
                       Inl e \<Rightarrow> Inl e
                     | Inr _ \<Rightarrow> reply_json resp)))"

section \<open>Handler\<close>

definition text_action :: "string \<Rightarrow> json" where
  "text_action m = JObj [(''type'', JStr ''text''), (''payload'', JStr m)]"

definition json_marker :: string where
  "json_marker = ''```json''"

text \<open>
  Lines 140--154: the message to store and the action to send. A \<open>JSONDecodeError\<close>
  keeps the plain-text defaults; the \<open>AttributeError\<close> of \<open>.get\<close> on a parsed value
  that is not a dictionary is not caught there.
\<close>

definition parse_query :: "string \<Rightarrow> exc + json \<times> json" where
  "parse_query q =
     (if py_startswith q json_marker then
        (case json_loads (py_strip (py_replace q json_marker [])) of
           None \<Rightarrow> Inr (JStr q, text_action q)
         | Some parsed \<Rightarrow>
             (case py_get parsed ''text'' (JStr []) of
                Inl e \<Rightarrow> Inl e
              | Inr um \<Rightarrow>
                  (case py_get parsed ''data'' (JObj []) of
                     Inl e \<Rightarrow> Inl e
                   | Inr dd \<Rightarrow>
                       (case py_get dd ''request'' (JObj []) of
                          Inl e \<Rightarrow> Inl e
                        | Inr act \<Rightarrow> Inr (um, act)))))
      else Inr (JStr q, text_action q))"

definition vf_agent_body :: "vf_env \<Rightarrow> vf_request \<Rightarrow> (vf_world, exc, bool) eff" where
  "vf_agent_body env req =
     ebind (elift (parse_query (vf_query req))) (\<lambda>(um, action).
     ebind (vf_store_message (vf_session_id req) ''human'' um None) (\<lambda>_.
     ebind (elift (interact_with_voiceflow env action (vf_session_id req))) (\<lambda>resp.
     ebind (vf_store_message (vf_session_id req) ''ai'' (JStr []) (Some resp)) (\<lambda>_.
     ereturn True))))"

definition vf_apology_text :: string where
  "vf_apology_text = ''I apologize, but I encountered an error processing your request.''"

definition vf_recover :: "vf_request \<Rightarrow> exc \<Rightarrow> (vf_world, exc, bool) eff" where
  "vf_recover req e =
     ebind (print_line (''Error processing request: '' @ str_exc e)) (\<lambda>_.
     ebind (vf_store_message (vf_session_id req) ''ai'' (JStr vf_apology_text)
              (Some (JObj [(''error'', JStr (str_exc e)), (''request_id'', JStr (vf_request_id req))]))) (\<lambda>_.
     ereturn False))"

definition vf_agent :: "vf_env \<Rightarrow> vf_request \<Rightarrow> (vf_world, exc, bool) eff" where
  "vf_agent env req = try_except (vf_agent_body env req) (vf_recover req)"

definition vf_agent_endpoint ::
  "string option \<Rightarrow> string \<Rightarrow> vf_env \<Rightarrow> vf_request \<Rightarrow> vf_world \<Rightarrow> http_response \<times> vf_world" where
  "vf_agent_endpoint expected credentials env req = serve expected credentials (vf_agent env req)"

text \<open>Worlds that agree on everything the service observes except the table.\<close>

definition same_io :: "'m db_world \<Rightarrow> 'm db_world \<Rightarrow> bool" where
  "same_io w1 w2 \<longleftrightarrow> db_faults w1 = db_faults w2 \<and> log w1 = log w2"

text \<open>Values for the witnesses below.\<close>

definition vf_demo_request :: "string \<Rightarrow> vf_request" where
  "vf_demo_request q = \<lparr>vf_query = q, vf_user_id = ''u'', vf_request_id = ''r1'', vf_session_id = ''s''\<rparr>"

text \<open>A Voiceflow API that answers 200 with a trace echoing the request body.\<close>

definition echo_env :: vf_env where
  "echo_env = \<lparr>vf_api_key = Some ''VF.key'',
               vf_post = (\<lambda>rq. Inr \<lparr>status_code = 200, reason = ''OK'', reply_url = req_url rq, reply_json = Inr (JArr [req_body rq])\<rparr>)\<rparr>"

definition vf_empty_world :: vf_world where
  "vf_empty_world = world_of empty_store []"

definition q_char :: char where
  "q_char = CHR 0x22"

definition spec_query :: string where
  "spec_query = ''```json'' @ [CHR 0x0A] @ ''{'' @ [q_char] @ ''text'' @ [q_char] @ '':'' @ [q_char] @ ''hi''
     @ [q_char] @ '','' @ [q_char] @ ''data'' @ [q_char] @ '':{'' @ [q_char] @ ''request'' @ [q_char]
     @ '':{'' @ [q_char] @ ''type'' @ [q_char] @ '':'' @ [q_char] @ ''text'' @ [q_char] @ '','' @ [q_char]
     @ ''payload'' @ [q_char] @ '':'' @ [q_char] @ ''hi'' @ [q_char] @ ''}}}'' @ [CHR 0x0A]"

section \<open>Lemmas\<close>

lemma vf_store_message_indep [indep_rules]: "eff_indep same_io (vf_store_message sid t c d)"
  by (auto simp: eff_indep_def same_io_def vf_store_message_def next_fault_def split: list.splits option.splits)

lemma print_line_indep [indep_rules]: "eff_indep same_io (print_line s)"
  by (simp add: eff_indep_def same_io_def print_line_def)

lemma vf_agent_indep: "eff_indep same_io (vf_agent env req)"
  unfolding vf_agent_def vf_agent_body_def vf_recover_def by (intro indep_rules)

lemma vf_store_ok [simp]:
  "db_faults w = [] \<Longrightarrow>
   vf_store_message sid t c d w = (Inr (), w\<lparr>db := insert_row sid (vf_message_obj t c d) (db w)\<rparr>)"
  by (simp add: vf_store_message_def)

lemma vf_agent_fails_after_human:
  assumes "verify_token e c = Inr True" and "parse_query (vf_query req) = Inr (um, act)"
    and "interact_with_voiceflow env act (vf_session_id req) = Inl x" and "db_faults w = []"
  shows "vf_agent_endpoint e c env req w =
           (Http200 False,
            w\<lparr>db := insert_row (vf_session_id req)
                       (vf_message_obj ''ai'' (JStr vf_apology_text)
                          (Some (JObj [(''error'', JStr (str_exc x)), (''request_id'', JStr (vf_request_id req))])))
                       (insert_row (vf_session_id req) (vf_message_obj ''human'' um None) (db w)),
              log := log w @ [''Error processing request: '' @ str_exc x]\<rparr>)"
  using assms
  by (simp add: vf_agent_endpoint_def serve_def vf_agent_def vf_agent_body_def vf_recover_def
      print_line_def try_except_def)

section \<open>Properties\<close>

text \<open>
  C23. A marked query whose JSON parses to a value that is not an object (a list, a
  string, a number, \<open>null\<close>) makes \<open>.get\<close> raise \<open>AttributeError\<close>, which the
  \<open>except json.JSONDecodeError\<close> does not catch: the query is not stored, and the outer
  handler stores only the apology, carrying the \<open>AttributeError\<close> text, logs it and
  answers \<open>success=False\<close>.
\<close>

theorem non_object_query_apology:
  assumes "verify_token e c = Inr True" and "py_startswith (vf_query req) json_marker"
    and "json_loads (py_strip (py_replace (vf_query req) json_marker [])) = Some v"
    and "py_type_name v \<noteq> ''dict''" and "db_faults w = []"
  shows "vf_agent_endpoint e c env req w =
           (Http200 False,
            w\<lparr>db := insert_row (vf_session_id req)
                       (vf_message_obj ''ai'' (JStr vf_apology_text)
                          (Some (JObj [(''error'', JStr ([CHR 0x27] @ py_type_name v @ [CHR 0x27]
                                          @ '' object has no attribute '' @ [CHR 0x27] @ ''get'' @ [CHR 0x27])),
                                       (''request_id'', JStr (vf_request_id req))])))
                       (db w),
              log := log w @ [''Error processing request: '' @ [CHR 0x27] @ py_type_name v @ [CHR 0x27]
                               @ '' object has no attribute '' @ [CHR 0x27] @ ''get'' @ [CHR 0x27]]\<rparr>)"
proof -
  have g: "py_get v ''text'' (JStr []) = Inl (AttributeError ([CHR 0x27] @ py_type_name v @ [CHR 0x27]
             @ '' object has no attribute '' @ [CHR 0x27] @ ''get'' @ [CHR 0x27]))"
    using assms(4) by (cases v) simp_all
  have "parse_query (vf_query req) = Inl (AttributeError ([CHR 0x27] @ py_type_name v @ [CHR 0x27]
             @ '' object has no attribute '' @ [CHR 0x27] @ ''get'' @ [CHR 0x27]))"
    using assms(2,3) g by (simp add: parse_query_def)
  then show ?thesis
    using assms(1,5) by (simp add: vf_agent_endpoint_def serve_def vf_agent_def vf_agent_body_def
        vf_recover_def print_line_def try_except_def)
qed

theorem non_object_query_apology_witness:
  "vf_agent_endpoint (Some ''tok'') ''tok'' echo_env (vf_demo_request ''```json [1, 2]'') vf_empty_world
   = (Http200 False,
      vf_empty_world\<lparr>db := insert_row ''s''
         (vf_message_obj ''ai'' (JStr vf_apology_text)
            (Some (JObj [(''error'', JStr ([CHR 0x27] @ ''list'' @ [CHR 0x27] @ '' object has no attribute ''
                                            @ [CHR 0x27] @ ''get'' @ [CHR 0x27])),
                         (''request_id'', JStr ''r1'')])))
         empty_store,
       log := [''Error processing request: '' @ [CHR 0x27] @ ''list'' @ [CHR 0x27]
               @ '' object has no attribute '' @ [CHR 0x27] @ ''get'' @ [CHR 0x27]]\<rparr>)"
proof -
  have m: "py_startswith ''```json [1, 2]'' json_marker" by (simp add: py_startswith_def json_marker_def)
  have l: "json_loads (py_strip (py_replace ''```json [1, 2]'' json_marker [])) = Some (JArr [JInt 1, JInt 2])"
    by code_simp
  have t: "verify_token (Some ''tok'') ''tok'' = Inr True" by (simp add: verify_token_def)
  have f: "db_faults vf_empty_world = []" by (simp add: vf_empty_world_def world_of_def)
  from non_object_query_apology [of "Some ''tok''" "''tok''" "vf_demo_request ''```json [1, 2]''"
      "JArr [JInt 1, JInt 2]" vf_empty_world echo_env] t m l f show ?thesis
    by (simp add: vf_demo_request_def vf_empty_world_def world_of_def)
qed

text \<open>
  C24. The dialog handler never reads the history: its answer, what it prints and the
  store calls it consumes are the same whatever the table holds.
\<close>

theorem vf_never_reads_history:
  "fst (vf_agent_endpoint e c env req w) = fst (vf_agent_endpoint e c env req (w\<lparr>db := s\<rparr>))
   \<and> log (snd (vf_agent_endpoint e c env req w)) = log (snd (vf_agent_endpoint e c env req (w\<lparr>db := s\<rparr>)))"
proof -
  have "same_io w (w\<lparr>db := s\<rparr>)" by (simp add: same_io_def)
  from eff_indepD [OF vf_agent_indep this]
  have "fst (vf_agent env req w) = fst (vf_agent env req (w\<lparr>db := s\<rparr>))"
    and "log (snd (vf_agent env req w)) = log (snd (vf_agent env req (w\<lparr>db := s\<rparr>)))"
    by (simp_all add: same_io_def)
  then show ?thesis
    by (auto simp: vf_agent_endpoint_def serve_def split: sum.splits prod.splits)
qed

text \<open>
  C25. Without a Voiceflow API key (unset or empty) the client raises
  \<open>KeyError\<close> before any request: the query has been stored, the apology carries the
  quoted key error, and the answer is \<open>success=False\<close>.
\<close>

theorem vf_missing_key_apology:
  assumes "verify_token e c = Inr True" and "vf_api_key env = None \<or> vf_api_key env = Some []"
    and "parse_query (vf_query req) = Inr (um, act)" and "db_faults w = []"
  shows "vf_agent_endpoint e c env req w =
           (Http200 False,
            w\<lparr>db := insert_row (vf_session_id req)
                       (vf_message_obj ''ai'' (JStr vf_apology_text)
                          (Some (JObj [(''error'', JStr ([CHR 0x27] @ ''VOICEFLOW_AGENT_API_KEY environment variable not set'' @ [CHR 0x27])),
                                       (''request_id'', JStr (vf_request_id req))])))
                       (insert_row (vf_session_id req) (vf_message_obj ''human'' um None) (db w)),
              log := log w @ [''Error processing request: '' @ [CHR 0x27] @ ''VOICEFLOW_AGENT_API_KEY environment variable not set'' @ [CHR 0x27]]\<rparr>)"
proof -
  have "interact_with_voiceflow env act (vf_session_id req) = Inl vf_key_error"
    using assms(2) by (auto simp: interact_with_voiceflow_def)
  from vf_agent_fails_after_human [OF assms(1,3) this assms(4)] show ?thesis
    by (simp add: vf_key_error_def)
qed

theorem vf_missing_key_apology_witness:
  "vf_agent_endpoint (Some ''tok'') ''tok'' (echo_env\<lparr>vf_api_key := None\<rparr>) (vf_demo_request ''hello'') vf_empty_world =
     (Http200 False,
      vf_empty_world\<lparr>db := insert_row ''s''
                       (vf_message_obj ''ai'' (JStr vf_apology_text)
                          (Some (JObj [(''error'', JStr ([CHR 0x27] @ ''VOICEFLOW_AGENT_API_KEY environment variable not set'' @ [CHR 0x27])),
                                       (''request_id'', JStr ''r1'')])))
                       (insert_row ''s'' (vf_message_obj ''human'' (JStr ''hello'') None) empty_store),
              log := [''Error processing request: '' @ [CHR 0x27] @ ''VOICEFLOW_AGENT_API_KEY environment variable not set'' @ [CHR 0x27]]\<rparr>)"
proof -
  have "parse_query ''hello'' = Inr (JStr ''hello'', text_action ''hello'')"
    by (simp add: parse_query_def py_startswith_def json_marker_def)
  then show ?thesis
    using vf_missing_key_apology [of "Some ''tok''" "''tok''" "echo_env\<lparr>vf_api_key := None\<rparr>"
            "vf_demo_request ''hello''" "JStr ''hello''" "text_action ''hello''" vf_empty_world]
    by (simp add: verify_token_def vf_demo_request_def vf_empty_world_def world_of_def)
qed

text \<open>
  C26. A 4xx answer of the Voiceflow API is raised by \<open>raise_for_status\<close> and not
  propagated to the caller: the query has been stored, the apology carries
  \<open>requests\<close>' message (status, \<open>Client Error\<close>, reason and the response's URL),
  and the answer is \<open>success=False\<close> with status 200.
\<close>

theorem vf_client_error_apology:
  assumes "verify_token e c = Inr True" and "vf_api_key env = Some k" and "k \<noteq> []"
    and "parse_query (vf_query req) = Inr (um, act)"
    and "vf_post env (voiceflow_request k act (vf_session_id req)) = Inr resp"
    and "400 \<le> status_code resp" and "status_code resp < 500" and "db_faults w = []"
  shows "\<exists>w'. vf_agent_endpoint e c env req w = (Http200 False, w')
           \<and> session_log (db w') (vf_session_id req) = session_log (db w) (vf_session_id req)
               @ [vf_message_obj ''human'' um None,
                  vf_message_obj ''ai'' (JStr vf_apology_text)
                    (Some (JObj [(''error'', JStr (nat_str (status_code resp) @ '' Client Error: '' @ reason resp
                                   @ '' for url: '' @ reply_url resp)),
                                 (''request_id'', JStr (vf_request_id req))]))]"
proof -
  have "interact_with_voiceflow env act (vf_session_id req) =
          Inl (HTTPError (nat_str (status_code resp) @ '' Client Error: '' @ reason resp
                 @ '' for url: '' @ reply_url resp))"
    using assms(2,3,5,6,7)
    by (simp add: interact_with_voiceflow_def raise_for_status_def voiceflow_request_def)
  from vf_agent_fails_after_human [OF assms(1,4) this assms(8)] show ?thesis
    by (simp add: session_log_insert_row)
qed

theorem vf_client_error_apology_witness:
  "\<exists>w'. vf_agent_endpoint (Some ''tok'') ''tok''
          (echo_env\<lparr>vf_post := (\<lambda>rq. Inr \<lparr>status_code = 404, reason = ''Not Found'', reply_url = ''https://vf.example/s'', reply_json = Inr JNull\<rparr>)\<rparr>)
          (vf_demo_request ''hello'') vf_empty_world = (Http200 False, w')
     \<and> session_log (db w') ''s'' =
         [vf_message_obj ''human'' (JStr ''hello'') None,
          vf_message_obj ''ai'' (JStr vf_apology_text)
            (Some (JObj [(''error'', JStr (nat_str 404 @ '' Client Error: '' @ ''Not Found'' @ '' for url: ''
                           @ ''https://vf.example/s'')),
                         (''request_id'', JStr ''r1'')]))]"
proof -
  have "parse_query ''hello'' = Inr (JStr ''hello'', text_action ''hello'')"
    by (simp add: parse_query_def py_startswith_def json_marker_def)
  then show ?thesis
    using vf_client_error_apology [of "Some ''tok''" "''tok''"
            "echo_env\<lparr>vf_post := (\<lambda>rq. Inr \<lparr>status_code = 404, reason = ''Not Found'', reply_url = ''https://vf.example/s'', reply_json = Inr JNull\<rparr>)\<rparr>"
            "''VF.key''" "vf_demo_request ''hello''" "JStr ''hello''" "text_action ''hello''"
            "\<lparr>status_code = 404, reason = ''Not Found'', reply_url = ''https://vf.example/s'', reply_json = Inr JNull\<rparr>" vf_empty_world]
    by (simp add: verify_token_def vf_demo_request_def vf_empty_world_def world_of_def echo_env_def
        session_log_def session_rows_def empty_store_def)
qed

text \<open>
  C27. A request that parses and that the Voiceflow API answers is stored as two
  messages, the human one with the parsed content and the \<open>ai\<close> one with empty content
  and the API's answer as its data (when truthy), and the answer is \<open>success=True\<close>.
\<close>

theorem vf_agent_success:
  assumes "verify_token e c = Inr True" and "parse_query (vf_query req) = Inr (um, act)"
    and "interact_with_voiceflow env act (vf_session_id req) = Inr resp" and "db_faults w = []"
  shows "vf_agent_endpoint e c env req w =
           (Http200 True,
            w\<lparr>db := insert_row (vf_session_id req) (vf_message_obj ''ai'' (JStr []) (Some resp))
                       (insert_row (vf_session_id req) (vf_message_obj ''human'' um None) (db w))\<rparr>)"
  using assms
  by (simp add: vf_agent_endpoint_def serve_def vf_agent_def vf_agent_body_def try_except_def)

theorem vf_agent_success_witness:
  "vf_agent_endpoint (Some ''tok'') ''tok'' echo_env (vf_demo_request spec_query) vf_empty_world =
     (Http200 True,
      vf_empty_world\<lparr>db := insert_row ''s''
          (vf_message_obj ''ai'' (JStr []) (Some (JArr [JObj [(''action'', text_action ''hi''), (''config'', vf_config)]])))
          (insert_row ''s'' (vf_message_obj ''human'' (JStr ''hi'') None) empty_store)\<rparr>)"
proof -
  have p: "parse_query spec_query = Inr (JStr ''hi'', text_action ''hi'')"
    by (simp add: spec_query_def q_char_def text_action_def) code_simp
  have i: "interact_with_voiceflow echo_env (text_action ''hi'') ''s''
      = Inr (JArr [JObj [(''action'', text_action ''hi''), (''config'', vf_config)]])"
    by (simp add: interact_with_voiceflow_def echo_env_def voiceflow_request_def raise_for_status_def)
  show ?thesis
    using vf_agent_success [of "Some ''tok''" "''tok''" "vf_demo_request spec_query" "JStr ''hi''"
            "text_action ''hi''" echo_env "JArr [JObj [(''action'', text_action ''hi''), (''config'', vf_config)]]"
            vf_empty_world] p i
    by (simp add: verify_token_def vf_demo_request_def vf_empty_world_def world_of_def)
qed

end
