(* ===== verification/Spec2Isabelle.thy ===== *)
theory Spec2Isabelle
  imports Auth History FileAgent Crawler PgAgent Voiceflow JsonRoundtrip
begin

text \<open>
  \<^bold>\<open>A verification development of the AI-agent services and the n8n catalog crawler.\<close>

  The repository holds three FastAPI services and one batch script:
  \<^item> \<open>src/file-agent/file_agent.py\<close>: replays the history of a session to an OpenAI chat
    model, inlining base64 file attachments as text, and stores the exchange in a
    Supabase \<open>messages\<close> table;
  \<^item> \<open>src/~sample-python-agent~/sample_postgres_agent.py\<close>: the same history contract
    over Postgres (\<open>asyncpg\<close>), with a placeholder agent;
  \<^item> \<open>src/~voiceflow-dialog-api-integration~/voiceflow_integration.py\<close>: forwards a
    text or JSON action to the Voiceflow Dialog API and stores query and answer;
  \<^item> \<open>src/n8n-expert/ingest-n8n-workflows.py\<close>: walks the template ids 1..2500 of the n8n
    catalog, keeps the templates an LLM judges \<open>GOOD\<close>, summarises and embeds them, and
    inserts one row per template.
  The services share one shape: \<open>verify_token\<close> (a FastAPI dependency) gates a handler
  whose \<open>try\<close> block calls the history adapters \<open>fetch_conversation_history\<close> and
  \<open>store_message\<close> and one provider, and whose \<open>except\<close> block (file agent and
  Voiceflow) stores an apology and answers \<open>success=False\<close>.

  \<^bold>\<open>Modelling conventions.\<close> Python values are the \<open>json\<close> datatype of \<open>Prelude\<close>
  (dictionaries as association lists in insertion order), Python strings are \<open>string\<close>
  holding their UTF-8 bytes, exceptions are the datatype \<open>exc\<close>. A statement that may
  raise is a value of type \<open>exc + 'a\<close>; a statement that also changes state is an
  \<open>('w, exc, 'a) eff\<close>, a function from the world to the outcome and the next world,
  composed with \<open>ebind\<close> (sequencing), \<open>try_except\<close> (a \<open>try\<close>/\<open>except
  Exception\<close>) and \<open>elift\<close>. External services are inputs: the storage layer's outcome
  per call (\<open>db_faults\<close> of the world), the chat model (\<open>chat_api\<close>), the Voiceflow
  API (\<open>vf_env\<close>), the catalog, LLM, embedding and insert calls of the crawler
  (\<open>crawl_api\<close>), and the driver's decoding of the Postgres column (\<open>codec\<close>).

  \<^bold>\<open>Theories.\<close>
  \<^item> \<open>Prelude\<close>: JSON values, exceptions and their \<open>str()\<close>, the Python built-ins the
    code calls (\<open>d[k]\<close>, \<open>.get\<close>, \<open>str\<close>, \<open>repr\<close>, \<open>strip\<close>, \<open>replace\<close>,
    \<open>startswith\<close>, \<open>in\<close>, iteration), the exception-and-state type \<open>eff\<close>, and
    \<open>eff_indep\<close> with its composition rules \<open>indep_rules\<close> (a step's independence from
    part of the world).
  \<^item> \<open>Auth\<close>: \<open>verify_token\<close> and \<open>serve\<close>, a route with the dependency and FastAPI's
    rendering of escaped exceptions (C11).
  \<^item> \<open>History\<close>: the \<open>messages\<close> table as a list of rows with ids and timestamps from
    a clock, polymorphic in the type of the \<open>message\<close> column; the Supabase adapters
    \<open>fetch_conversation_history\<close> (the \<open>ORDER BY created_at DESC LIMIT n\<close> query,
    reversed) and \<open>store_message\<close>; the abstraction \<open>session_log\<close>, the invariant
    \<open>store_inv\<close> of the database's id and timestamp assignment, and the contract
    \<open>recent\<close> (C1--C4).
  \<^item> \<open>Codecs\<close>: CPython's non-strict \<open>a2b_base64\<close> state machine, \<open>b64encode\<close>, and
    the strict UTF-8 decoder with CPython's error messages, as \<open>file_agent.py\<close> line 102
    calls them.
  \<^item> \<open>FileAgent\<close>: \<open>process_files_to_string\<close>, the replay of the history as OpenAI
    messages, the handler \<open>file_agent\<close> and its recovery (C5--C10).
  \<^item> \<open>Json\<close>: \<open>json.dumps\<close> and \<open>json.loads\<close> with default arguments, after CPython's
    pure-Python encoder and scanner, as the services call them; the parser runs on fuel
    \<open>2 * length s + 3\<close>, one unit per call, which is enough.
  \<^item> \<open>JsonRoundtrip\<close>: \<open>json_wf\<close>, the values a Python program can hold (well-formed
    UTF-8 strings, dictionaries with distinct keys), and \<open>json_loads_json_dumps\<close>,
    \<open>json.loads(json.dumps(v)) == v\<close>, through its layers: UTF-8 code points, the
    \<open>\\uXXXX\<close> escapes and surrogate pairs, integer literals, and the three mutually
    recursive parsers by induction on the fuel. It is the library lemma behind the
    Postgres column schema (C28).
  \<^item> \<open>Crawler\<close>: \<open>main\<close>'s loop as \<open>crawl_loop\<close> over \<open>[1..<2501]\<close> of the step
    \<open>crawl_step\<close> (fetch, judge, process, summarise, store; or count a failure and
    \<open>break\<close> at 1000), with a state record of the counter, the rows, the fetched ids,
    the sleeps and the printed lines (C12--C18, C29).
  \<^item> \<open>PgAgent\<close>: the Postgres adapters over the \<open>History\<close> table with the JSON text as
    the message column, the driver's decoding of that column as a parameter, the
    minimal handler that re-raises every error as a 500, and the schema of the column
    (\<open>pg_column_ok\<close>, \<open>pg_table_typed\<close>) (C19--C22, C28).
  \<^item> \<open>Voiceflow\<close>: query parsing, \<open>interact_with_voiceflow\<close> with
    \<open>raise_for_status\<close> (whose message names the response's URL), the handler and its
    apology (C23--C27).

  \<^bold>\<open>What the lemmas show.\<close>
  \<^item> History: the fetch returns exactly the newest \<open>limit\<close> messages of the session in
    chronological order under \<open>store_inv\<close> (C1); append-then-fetch returns the
    appended message last (C2); \<open>store_message\<close> appends exactly once to the addressed
    session and never partially (C3); the window is sorted and of length
    \<open>min limit n\<close> (C4).
  \<^item> File agent: every outcome of the handler (C5), success (C6), the apology on any
    failure (C7), the 500 whenever the apology itself cannot be stored (C8), the
    authentication short-circuit (C9), and the replay of a stored attachment equal to
    the live message (C10).
  \<^item> Authentication: the three outcomes of the token gate (C11).
  \<^item> Crawler: the stop after 1000 consecutive failures (C12), the reset by a judged
    fetch (C13), the judge exception that neither resets nor sleeps (C14), only
    \<open>GOOD\<close> templates stored (C15), the ids fetched are a prefix \<open>1..k\<close> and the
    stored rows' ids strictly increasing among them (C16), the JSON-encoded fields of
    every stored row (C17), a raising fetch that ends the run at that id whatever came
    before (C18), and a run that ends normally has visited every id or stopped at the
    threshold (C29, progress of the loop).
  \<^item> Postgres agent: refinement of the fetch contract (C19), the failure on any
    non-empty history with \<open>asyncpg\<close>'s default column decoding (C20), the re-raised
    fault with the doubled status (C21), the appended prefix of
    \<open>[query, reply]\<close> on every outcome (C22), and the schema of the message column
    preserved by every run (C28, type preservation).
  \<^item> Voiceflow: the uncaught \<open>AttributeError\<close> for any marked query whose JSON is not
    an object (C23), independence of the answer from the stored history (C24, by
    \<open>eff_indep\<close>), the apology without API key (C25) and on a 4xx answer (C26), and
    success (C27).

  \<^bold>\<open>Bounds and fuel.\<close> The crawler's range and threshold are the code's constants
  (\<open>max_id = 2500\<close>, \<open>max_consecutive_failures = 1000\<close>); its loop is structural
  recursion over the id list, so it terminates. The JSON parser's fuel
  \<open>2 * length s + 3\<close> is enough for every input (\<open>parse_enough\<close>: each call spends
  one unit and every second call consumes a character), so \<open>json_loads\<close> always
  answers. Because the JSON model has no floats, a \<open>None\<close> of \<open>json_loads\<close> does not
  mean that Python would raise; the properties use \<open>json_loads\<close> only in the direction
  that holds for Python too (a text the model parses, Python parses to the same value).

  \<^bold>\<open>Not modelled.\<close> The network transports and the vendors' APIs (OpenAI, Voiceflow,
  Supabase, Postgres, the n8n catalog) beyond their inputs and outputs; the FastAPI
  application objects, CORS middleware, \<open>dotenv\<close>, the \<open>uvicorn\<close> entry points and the
  \<open>asyncpg\<close> pool lifecycle (process setup without logic); \<open>time.sleep\<close> (a counter);
  the concurrency of requests on one session (the specification calls the race
  accepted: each handler run here is one sequence of store calls); Python floats, which
  the JSON model does not have (\<open>json_loads\<close> rejects fractions and exponents, which
  Python would parse as floats); the \<open>isoformat\<close> rendering of timestamps;
  Python strings holding lone surrogates, which the model's strings (well-formed UTF-8)
  cannot hold: \<open>json_wf\<close> excludes them, and \<open>json_loads\<close> of a lone \<open>\\ud800\<close>
  escape gives the three bytes of the surrogate, outside that type. The three copies
  of \<open>verify_token\<close> are the same code and are modelled once (\<open>Auth\<close>).
  The file agent's stored rows are typed records (\<open>message\<close>), so a malformed row in
  the Supabase table, which would raise \<open>KeyError\<close> in the replay, is not modelled;
  \<open>str.strip\<close> removes the ASCII whitespace only, not the other Unicode spaces.
\<close>

end
